(* ===== verification/Prelude.thy ===== *)
theory Prelude
  imports
    Main
    "HOL-Library.FSet"
    "HOL-Library.Finite_Map"
    "HOL-Library.Char_ord"
    "HOL-Library.List_Lexorder"
    "HOL-Library.Word"
begin

text \<open>
  Shared vocabulary of the development.

  Rust's \<^verbatim>\<open>Result\<close> is the datatype \<open>result\<close>; the \<^verbatim>\<open>?\<close> operator is \<open>rbind\<close>, a
  \<^verbatim>\<open>for\<close> loop that only checks is \<open>check_all\<close>, and \<^verbatim>\<open>iter().map(..).collect::<Result<..>>()\<close>
  is \<open>try_map\<close>. A \<^verbatim>\<open>String\<close> is the list of its UTF-8 bytes (\<open>string\<close>, one \<open>char\<close> per
  byte), so that \<^verbatim>\<open>len()\<close> is \<open>length\<close> and the derived order is the lexicographic byte
  order of \<open>List_Lexorder\<close>. \<^verbatim>\<open>BTreeSet\<close> and \<^verbatim>\<open>BTreeMap\<close> are \<open>fset\<close> and \<open>fmap\<close>,
  iterated in key order. Machine integers are \<open>word\<close>s where they are computed with and
  \<open>nat\<close> where they are only compared.

  Lemmas on ordered iteration, on \<open>fold\<close>s into sets and maps and on decimal text are
  here because several components use them.
\<close>

section \<open>Results\<close>

datatype ('a, 'e) result = Ok 'a | Err 'e

definition rbind :: "('a, 'e) result \<Rightarrow> ('a \<Rightarrow> ('b, 'e) result) \<Rightarrow> ('b, 'e) result" where
  "rbind r f = (case r of Ok x \<Rightarrow> f x | Err e \<Rightarrow> Err e)"

definition map_err :: "('e \<Rightarrow> 'f) \<Rightarrow> ('a, 'e) result \<Rightarrow> ('a, 'f) result" where
  "map_err f r = (case r of Ok x \<Rightarrow> Ok x | Err e \<Rightarrow> Err (f e))"

definition ok_or :: "'e \<Rightarrow> 'a option \<Rightarrow> ('a, 'e) result" where
  "ok_or e x = (case x of Some y \<Rightarrow> Ok y | None \<Rightarrow> Err e)"

definition fail_if :: "bool \<Rightarrow> 'e \<Rightarrow> (unit, 'e) result" where
  "fail_if b e = (if b then Err e else Ok ())"

fun check_all :: "('a \<Rightarrow> (unit, 'e) result) \<Rightarrow> 'a list \<Rightarrow> (unit, 'e) result" where
  "check_all f [] = Ok ()"
| "check_all f (x # xs) = rbind (f x) (\<lambda>_. check_all f xs)"

fun try_map :: "('a \<Rightarrow> ('b, 'e) result) \<Rightarrow> 'a list \<Rightarrow> ('b list, 'e) result" where
  "try_map f [] = Ok []"
| "try_map f (x # xs) = rbind (f x) (\<lambda>y. rbind (try_map f xs) (\<lambda>ys. Ok (y # ys)))"

fun is_ok :: "('a, 'e) result \<Rightarrow> bool" where
  "is_ok (Ok _) = True"
| "is_ok (Err _) = False"

named_theorems result_simps \<open>how a composed result can be \<open>Ok\<close> or \<open>Err\<close>\<close>

lemma rbind_Ok [simp]: "rbind (Ok x) f = f x"
  by (simp add: rbind_def)

lemma rbind_Err [simp]: "rbind (Err e) f = Err e"
  by (simp add: rbind_def)

lemma rbind_eq_Ok [result_simps]: "rbind r f = Ok y \<longleftrightarrow> (\<exists>x. r = Ok x \<and> f x = Ok y)"
  by (cases r) auto

lemma rbind_eq_Err [result_simps]:
  "rbind r f = Err e \<longleftrightarrow> r = Err e \<or> (\<exists>x. r = Ok x \<and> f x = Err e)"
  by (cases r) auto

lemma rbind_cong [fundef_cong]:
  "r = r' \<Longrightarrow> (\<And>x. r' = Ok x \<Longrightarrow> f x = g x) \<Longrightarrow> rbind r f = rbind r' g"
  by (cases r') auto

lemma map_err_simps [simp]: "map_err f (Ok x) = Ok x" "map_err f (Err e) = Err (f e)"
  by (simp_all add: map_err_def)

lemma map_err_eq_Ok [result_simps]: "map_err f r = Ok x \<longleftrightarrow> r = Ok x"
  by (cases r) auto

lemma map_err_eq_Err [result_simps]: "map_err f r = Err e \<longleftrightarrow> (\<exists>e'. r = Err e' \<and> e = f e')"
  by (cases r) auto

lemma ok_or_simps [simp]: "ok_or e (Some x) = Ok x" "ok_or e None = Err e"
  by (simp_all add: ok_or_def)

lemma ok_or_eq_Ok [result_simps]: "ok_or e x = Ok y \<longleftrightarrow> x = Some y"
  by (cases x) auto

lemma ok_or_eq_Err [result_simps]: "ok_or e x = Err e' \<longleftrightarrow> x = None \<and> e = e'"
  by (cases x) auto

lemma fail_if_simps [simp]: "fail_if True e = Err e" "fail_if False e = Ok ()"
  by (simp_all add: fail_if_def)

lemma fail_if_eq_Ok [result_simps]: "fail_if b e = Ok u \<longleftrightarrow> \<not> b"
  by (simp add: fail_if_def)

lemma fail_if_eq_Err [result_simps]: "fail_if b e = Err e' \<longleftrightarrow> b \<and> e = e'"
  by (auto simp: fail_if_def)

lemma check_all_eq_Ok [result_simps]: "check_all f xs = Ok u \<longleftrightarrow> (\<forall>x \<in> set xs. f x = Ok ())"
  by (induction xs) (auto simp: rbind_eq_Ok)

lemma check_all_eq_Err [result_simps]:
  "check_all f xs = Err e \<longleftrightarrow>
     (\<exists>i < length xs. f (xs ! i) = Err e \<and> (\<forall>j < i. f (xs ! j) = Ok ()))"
proof (induction xs)
  case Nil
  then show ?case by simp
next
  case (Cons x xs)
  then show ?case
    by (cases "f x") (simp_all add: Ex_less_Suc2 All_less_Suc2)
qed

lemma check_all_ErrD: "check_all f xs = Err e \<Longrightarrow> \<exists>x \<in> set xs. f x = Err e"
  by (auto simp: check_all_eq_Err)

lemma check_all_Ok_iff: "check_all f xs = Ok () \<longleftrightarrow> (\<forall>x \<in> set xs. f x = Ok ())"
  by (simp add: check_all_eq_Ok)

lemma try_map_eq_Ok [result_simps]:
  "try_map f xs = Ok ys \<longleftrightarrow> list_all2 (\<lambda>x y. f x = Ok y) xs ys"
  by (induction xs arbitrary: ys) (auto simp: rbind_eq_Ok list_all2_Cons1)

lemma try_map_length: "try_map f xs = Ok ys \<Longrightarrow> length ys = length xs"
  by (simp add: try_map_eq_Ok list_all2_lengthD)

lemma try_map_map [simp]: "(\<And>x. x \<in> set xs \<Longrightarrow> f x = Ok (g x)) \<Longrightarrow> try_map f xs = Ok (map g xs)"
  by (induction xs) auto

lemma is_ok_iff: "is_ok r \<longleftrightarrow> (\<exists>x. r = Ok x)"
  by (cases r) auto

section \<open>Machine integers and text\<close>

type_synonym u8 = "8 word"
type_synonym u16 = "16 word"
type_synonym u32 = "32 word"
type_synonym u64 = "64 word"
type_synonym bytes = "u8 list"
type_synonym uuid = "128 word"

definition usize_max :: nat where
  "usize_max = 2 ^ 64 - 1"

definition saturating_add_usize :: "nat \<Rightarrow> nat \<Rightarrow> nat" where
  "saturating_add_usize a b = min (a + b) usize_max"

definition checked_add_u64 :: "u64 \<Rightarrow> u64 \<Rightarrow> u64 option" where
  "checked_add_u64 a b = (if unat a + unat b < 2 ^ 64 then Some (a + b) else None)"

lemma unat_u8_less [simp]: "unat (w :: u8) < 256"
  using unsigned_less [of w] by simp

lemma unat_u64_less [simp]: "unat (w :: u64) < 2 ^ 64"
  using unsigned_less [of w] by simp

lemma checked_add_u64_Some: "checked_add_u64 a b = Some c \<Longrightarrow> unat c = unat a + unat b"
  by (auto simp: checked_add_u64_def unat_word_ariths split: if_splits)

lemma checked_add_u64_None: "checked_add_u64 a b = None \<longleftrightarrow> 2 ^ 64 \<le> unat a + unat b"
  by (simp add: checked_add_u64_def not_less)

text \<open>Signed 64-bit values are words read with \<open>sint\<close>; comparisons and saturation as in \<^verbatim>\<open>i64\<close>.\<close>

definition i64_min :: int where "i64_min = - (2 ^ 63)"
definition i64_max :: int where "i64_max = 2 ^ 63 - 1"

definition saturating_add_i64 :: "u64 \<Rightarrow> int \<Rightarrow> u64" where
  "saturating_add_i64 a b = word_of_int (max i64_min (min i64_max (sint a + b)))"

lemma sint_u64_range: "i64_min \<le> sint (a :: u64)" "sint (a :: u64) \<le> i64_max"
proof -
  show "i64_min \<le> sint a"
    using sint_ge [of a] by (simp add: i64_min_def)
  show "sint a \<le> i64_max"
    using sint_lt [of a] by (simp add: i64_max_def)
qed

lemma sint_word_of_int_u64:
  "i64_min \<le> x \<Longrightarrow> x \<le> i64_max \<Longrightarrow> sint (word_of_int x :: u64) = x"
  by (simp add: i64_min_def i64_max_def sint_sbintrunc' signed_take_bit_int_eq_self)

lemma sint_saturating_add_i64:
  "sint (saturating_add_i64 a b) = max i64_min (min i64_max (sint a + b))"
  unfolding saturating_add_i64_def
  by (rule sint_word_of_int_u64) (auto simp: i64_min_def i64_max_def)

subsection \<open>ASCII classes\<close>

definition char_code :: "char \<Rightarrow> nat" where
  "char_code c = of_char c"

definition is_ascii_digit :: "char \<Rightarrow> bool" where
  "is_ascii_digit c \<longleftrightarrow> 48 \<le> char_code c \<and> char_code c \<le> 57"

definition is_ascii_alphabetic :: "char \<Rightarrow> bool" where
  "is_ascii_alphabetic c \<longleftrightarrow>
     (65 \<le> char_code c \<and> char_code c \<le> 90) \<or> (97 \<le> char_code c \<and> char_code c \<le> 122)"

definition is_ascii_alphanumeric :: "char \<Rightarrow> bool" where
  "is_ascii_alphanumeric c \<longleftrightarrow> is_ascii_alphabetic c \<or> is_ascii_digit c"

lemma char_code_less [simp]: "char_code c < 256"
  by (simp add: char_code_def)

lemma char_code_inject [simp]: "char_code c = char_code d \<longleftrightarrow> c = d"
  by (simp add: char_code_def)

definition byte_of_char :: "char \<Rightarrow> u8" where
  "byte_of_char c = of_nat (char_code c)"

definition str_bytes :: "string \<Rightarrow> bytes" where
  "str_bytes s = map byte_of_char s"

lemma unat_byte_of_char [simp]: "unat (byte_of_char c) = char_code c"
  by (simp add: byte_of_char_def unsigned_of_nat take_bit_nat_eq_self)

lemma byte_of_char_inject [simp]: "byte_of_char c = byte_of_char d \<longleftrightarrow> c = d"
  by (metis char_code_inject unat_byte_of_char)

lemma length_str_bytes [simp]: "length (str_bytes s) = length s"
  by (simp add: str_bytes_def)

lemma str_bytes_inject [simp]: "str_bytes s = str_bytes t \<longleftrightarrow> s = t"
  unfolding str_bytes_def by (simp add: inj_map_eq_map inj_def)

subsection \<open>Characters of a UTF-8 string\<close>

text \<open>
  \<open>next_char s\<close> is what \<^verbatim>\<open>s.chars().next()\<close> yields on well-formed UTF-8: the scalar value
  and the number of bytes it takes.
\<close>

definition next_char :: "string \<Rightarrow> (nat \<times> nat) option" where
  "next_char s = (case s of
     [] \<Rightarrow> None
   | c # cs \<Rightarrow>
       (let b = char_code c; cont = (\<lambda>i. if i < length cs then char_code (cs ! i) mod 64 else 0) in
        Some (if b < 128 then (b, 1)
              else if b < 224 then ((b mod 32) * 64 + cont 0, 2)
              else if b < 240 then ((b mod 16) * 4096 + cont 0 * 64 + cont 1, 3)
              else ((b mod 8) * 262144 + cont 0 * 4096 + cont 1 * 64 + cont 2, 4))))"

lemma next_char_None [simp]: "next_char s = None \<longleftrightarrow> s = []"
  by (cases s) (simp_all add: next_char_def Let_def)

lemma next_char_Nil [simp]: "next_char [] = None"
  by (simp add: next_char_def)

lemma next_char_width: "next_char s = Some (ch, n) \<Longrightarrow> 1 \<le> n \<and> n \<le> 4"
  by (cases s) (auto simp: next_char_def Let_def split: if_splits)

lemma next_char_drop_less: "next_char s = Some (ch, n) \<Longrightarrow> length (drop n s) < length s"
  using next_char_width [of s ch n] by (cases s) auto

definition is_whitespace :: "nat \<Rightarrow> bool" where
  "is_whitespace ch \<longleftrightarrow>
     (9 \<le> ch \<and> ch \<le> 13) \<or> ch = 32 \<or> ch = 133 \<or> ch = 160 \<or> ch = 5760 \<or>
     (8192 \<le> ch \<and> ch \<le> 8202) \<or> ch = 8232 \<or> ch = 8233 \<or> ch = 8239 \<or> ch = 8287 \<or> ch = 12288"

definition is_control :: "nat \<Rightarrow> bool" where
  "is_control ch \<longleftrightarrow> ch \<le> 31 \<or> (127 \<le> ch \<and> ch \<le> 159)"

function str_chars :: "string \<Rightarrow> nat list" where
  "str_chars s = (case next_char s of None \<Rightarrow> [] | Some (ch, n) \<Rightarrow> ch # str_chars (drop n s))"
  by pat_completeness auto
termination
  by (relation "measure length") (auto dest: next_char_drop_less simp del: length_drop)

declare str_chars.simps [simp del]

lemma str_chars_Nil [simp]: "str_chars [] = []"
  by (simp add: str_chars.simps)

lemma str_chars_eq_Nil [simp]: "str_chars s = [] \<longleftrightarrow> s = []"
  by (subst str_chars.simps) (auto split: option.splits)

text \<open>Operations of \<^verbatim>\<open>str\<close> that several components use.\<close>

definition has_control :: "string \<Rightarrow> bool" where
  "has_control s \<longleftrightarrow> list_ex is_control (str_chars s)"

definition to_ascii_lowercase :: "string \<Rightarrow> string" where
  "to_ascii_lowercase = map (\<lambda>c. if 65 \<le> char_code c \<and> char_code c \<le> 90 then char_of (char_code c + 32) else c)"

definition split_once :: "char \<Rightarrow> string \<Rightarrow> (string \<times> string) option" where
  "split_once sep s =
     (case dropWhile (\<lambda>c. c \<noteq> sep) s of
        [] \<Rightarrow> None
      | _ # rest \<Rightarrow> Some (takeWhile (\<lambda>c. c \<noteq> sep) s, rest))"

definition strip_prefix :: "string \<Rightarrow> string \<Rightarrow> string option" where
  "strip_prefix p s = (if take (length p) s = p then Some (drop (length p) s) else None)"

lemma strip_prefix_Some: "strip_prefix p s = Some r \<longleftrightarrow> s = p @ r"
  unfolding strip_prefix_def by (metis append_eq_conv_conj append_take_drop_id option.distinct(1) option.inject)

lemma strip_prefix_append [simp]: "strip_prefix p (p @ r) = Some r"
  by (simp add: strip_prefix_Some)

subsection \<open>Decimal text\<close>

fun decimal :: "nat \<Rightarrow> string" where
  "decimal n = (if n < 10 then [char_of (48 + n)] else decimal (n div 10) @ [char_of (48 + n mod 10)])"

declare decimal.simps [simp del]

lemma decimal_nonempty [simp]: "decimal n \<noteq> []"
  by (subst decimal.simps) simp

section \<open>Ordered sets and maps\<close>

text \<open>\<^verbatim>\<open>BTreeSet::pop_first\<close>.\<close>

definition pop_first :: "'a::linorder fset \<Rightarrow> ('a \<times> 'a fset) option" where
  "pop_first s = (if s = {||} then None else Some (fMin s, s |-| {|fMin s|}))"

lemma pop_first_None [simp]: "pop_first s = None \<longleftrightarrow> s = {||}"
  by (simp add: pop_first_def)

lemma pop_first_Some:
  "pop_first s = Some (x, t) \<longleftrightarrow> x |\<in>| s \<and> (\<forall>y. y |\<in>| s \<longrightarrow> x \<le> y) \<and> t = s |-| {|x|}"
proof
  assume "pop_first s = Some (x, t)"
  then have "s \<noteq> {||}" "x = fMin s" "t = s |-| {|x|}"
    by (auto simp: pop_first_def split: if_splits)
  then show "x |\<in>| s \<and> (\<forall>y. y |\<in>| s \<longrightarrow> x \<le> y) \<and> t = s |-| {|x|}"
    by simp
next
  assume *: "x |\<in>| s \<and> (\<forall>y. y |\<in>| s \<longrightarrow> x \<le> y) \<and> t = s |-| {|x|}"
  then have "fMin s = x" by (intro fMin_eqI) auto
  moreover from * have "s \<noteq> {||}" by auto
  ultimately show "pop_first s = Some (x, t)" using * by (simp add: pop_first_def)
qed

lemma fcard_fminus_fsingleton: "x |\<in>| s \<Longrightarrow> fcard s = Suc (fcard (s |-| {|x|}))"
  by (metis fcard_Suc_fminus1)

lemma fcard_finsert_le: "fcard (finsert x s) \<le> Suc (fcard s)"
  by (simp add: fcard_finsert_if)

text \<open>The first element, in order, that two ordered sets share (\<^verbatim>\<open>a.intersection(&b).next()\<close>).\<close>

definition first_common :: "'a::linorder fset \<Rightarrow> 'a fset \<Rightarrow> 'a option" where
  "first_common a b = (if a |\<inter>| b = {||} then None else Some (fMin (a |\<inter>| b)))"

lemma first_common_None [simp]: "first_common a b = None \<longleftrightarrow> a |\<inter>| b = {||}"
  by (simp add: first_common_def)

lemma first_common_Some: "first_common a b = Some x \<Longrightarrow> x |\<in>| a \<and> x |\<in>| b"
  using fMin_in [of "a |\<inter>| b"] by (simp add: first_common_def split: if_splits)

text \<open>The sum of a counter map.\<close>

definition fmsum :: "('k, nat) fmap \<Rightarrow> nat" where
  "fmsum m = (\<Sum>k \<in> fset (fmdom m). the (fmlookup m k))"

lemma fmsum_upd_Suc: "fmlookup m k = Some (Suc c) \<Longrightarrow> fmsum m = Suc (fmsum (fmupd k c m))"
proof -
  assume k: "fmlookup m k = Some (Suc c)"
  then have mem: "k \<in> fset (fmdom m)" by (rule fmdomI)
  have "fmsum m = Suc c + (\<Sum>x \<in> fset (fmdom m) - {k}. the (fmlookup m x))"
    unfolding fmsum_def using mem k by (simp add: sum.remove)
  moreover have "fmsum (fmupd k c m) = c + (\<Sum>x \<in> fset (fmdom m) - {k}. the (fmlookup m x))"
  proof -
    have dom: "fset (fmdom (fmupd k c m)) = fset (fmdom m)" using mem by auto
    have "fmsum (fmupd k c m) = (\<Sum>x \<in> fset (fmdom m). if x = k then c else the (fmlookup m x))"
      unfolding fmsum_def dom by (rule sum.cong) auto
    also have "\<dots> = c + (\<Sum>x \<in> fset (fmdom m) - {k}. if x = k then c else the (fmlookup m x))"
      using mem by (subst sum.remove [of _ k]) auto
    also have "(\<Sum>x \<in> fset (fmdom m) - {k}. if x = k then c else the (fmlookup m x)) =
        (\<Sum>x \<in> fset (fmdom m) - {k}. the (fmlookup m x))"
      by (rule sum.cong) auto
    finally show ?thesis .
  qed
  ultimately show ?thesis by simp
qed

lemma sorted_list_of_fmap_iff:
  "(k, v) \<in> set (sorted_list_of_fmap m) \<longleftrightarrow> fmlookup m k = Some v"
  by (auto simp: sorted_list_of_fmap_def fmlookup_dom_iff image_iff)

lemma distinct_sorted_list_of_fmap: "distinct (map fst (sorted_list_of_fmap m))"
  by (simp add: sorted_list_of_fmap_def comp_def sorted_list_of_fset.rep_eq)

lemma set_filter_fmap:
  "set (map fst (filter (\<lambda>(k, v). P v) (sorted_list_of_fmap m))) = {k. \<exists>v. fmlookup m k = Some v \<and> P v}"
  by (auto simp: sorted_list_of_fmap_iff image_iff split_beta)

lemma sorted_filter_fmap: "sorted (map fst (filter P (sorted_list_of_fmap m)))"
  by (simp add: sorted_list_of_fmap_def filter_map comp_def sorted_list_of_fset.rep_eq sorted_wrt_filter)

end
