(* ===== verification/Primitives.thy ===== *)
theory Primitives
  imports Prelude
begin

text \<open>
  \<^verbatim>\<open>core/primitives/src/lib.rs\<close>: sequence numbers, versions, timestamps and content
  hashes. The BLAKE3 functions (\<^verbatim>\<open>blake3::hash\<close>, \<^verbatim>\<open>Hash::to_hex\<close>, \<^verbatim>\<open>Hash::from_hex\<close>) are
  arguments of the definitions that call them. The opaque identifiers
  (\<^verbatim>\<open>opaque_uuid!\<close>) are 128-bit values that the program only compares and copies.
\<close>

section \<open>Errors\<close>

datatype PrimitiveError =
    ZeroSequence
  | SequenceOverflow
  | InvalidContentHash string

section \<open>Sequences\<close>

datatype Sequence = Sequence (Sequence_get: u64)

definition Sequence_FIRST :: Sequence where
  "Sequence_FIRST = Sequence 1"

definition Sequence_new :: "u64 \<Rightarrow> (Sequence, PrimitiveError) result" where
  "Sequence_new value = (if value = 0 then Err ZeroSequence else Ok (Sequence value))"

definition checked_next :: "Sequence \<Rightarrow> (Sequence, PrimitiveError) result" where
  "checked_next s =
     ok_or SequenceOverflow (map_option Sequence (checked_add_u64 (Sequence_get s) 1))"

definition Sequence_valid :: "Sequence \<Rightarrow> bool" where
  "Sequence_valid s \<longleftrightarrow> Sequence_get s \<noteq> 0"

text \<open>Deserialization is transparent: the raw number is wrapped without a check.\<close>

definition Sequence_deserialize :: "u64 \<Rightarrow> Sequence" where
  "Sequence_deserialize raw = Sequence raw"

instantiation Sequence :: linorder
begin

definition less_eq_Sequence :: "Sequence \<Rightarrow> Sequence \<Rightarrow> bool" where
  "less_eq_Sequence a b \<longleftrightarrow> Sequence_get a \<le> Sequence_get b"

definition less_Sequence :: "Sequence \<Rightarrow> Sequence \<Rightarrow> bool" where
  "less_Sequence a b \<longleftrightarrow> Sequence_get a < Sequence_get b"

instance
  by standard (auto simp: less_eq_Sequence_def less_Sequence_def intro: Sequence.expand)

end

lemma checked_next_Ok:
  "checked_next s = Ok t \<Longrightarrow> unat (Sequence_get t) = Suc (unat (Sequence_get s))"
  by (auto simp: checked_next_def result_simps dest: checked_add_u64_Some)

lemma checked_next_Err:
  "checked_next s = Err e \<longleftrightarrow> e = SequenceOverflow \<and> unat (Sequence_get s) = 2 ^ 64 - 1"
proof -
  have "unat (Sequence_get s) < 2 ^ 64" by (rule unat_u64_less)
  then show ?thesis
    by (auto simp: checked_next_def result_simps checked_add_u64_None)
qed

lemma checked_next_valid: "checked_next s = Ok t \<Longrightarrow> Sequence_valid t \<and> s < t"
  by (auto simp: Sequence_valid_def less_Sequence_def word_less_nat_alt dest: checked_next_Ok)

text \<open>Following \<open>checked_next\<close> from a sequence number \<open>n\<close> times.\<close>

fun nth_next :: "nat \<Rightarrow> Sequence \<Rightarrow> (Sequence, PrimitiveError) result" where
  "nth_next 0 s = Ok s"
| "nth_next (Suc n) s = rbind (checked_next s) (nth_next n)"

lemma nth_next_value:
  "nth_next n s = Ok t \<Longrightarrow> unat (Sequence_get t) = unat (Sequence_get s) + n"
  by (induction n arbitrary: s) (auto simp: result_simps dest: checked_next_Ok)

lemma nth_next_Ok_iff:
  "is_ok (nth_next n s) \<longleftrightarrow> unat (Sequence_get s) + n < 2 ^ 64"
proof (induction n arbitrary: s)
  case 0
  then show ?case using unat_u64_less [of "Sequence_get s"] by simp
next
  case (Suc n)
  show ?case
  proof (cases "checked_next s")
    case (Ok t)
    then show ?thesis using Suc.IH [of t] checked_next_Ok [OF Ok] by simp
  next
    case (Err e)
    then show ?thesis using checked_next_Err [of s e] by simp
  qed
qed

section \<open>Timestamps, counts and versions\<close>

datatype TimestampMillis = TimestampMillis (Timestamp_get: u64)

datatype ByteCount = ByteCount (ByteCount_get: u64)

record Version =
  major :: u16
  minor :: u16

definition Version_new :: "u16 \<Rightarrow> u16 \<Rightarrow> Version" where
  "Version_new ma mi = \<lparr>major = ma, minor = mi\<rparr>"

definition is_compatible_with :: "Version \<Rightarrow> Version \<Rightarrow> bool" where
  "is_compatible_with a b \<longleftrightarrow> major a = major b"

lemma is_compatible_refl [simp]: "is_compatible_with a a"
  by (simp add: is_compatible_with_def)

lemma is_compatible_sym: "is_compatible_with a b \<Longrightarrow> is_compatible_with b a"
  by (simp add: is_compatible_with_def)

lemma is_compatible_trans:
  "is_compatible_with a b \<Longrightarrow> is_compatible_with b c \<Longrightarrow> is_compatible_with a c"
  by (simp add: is_compatible_with_def)

section \<open>Content hashes\<close>

datatype ContentHash = ContentHash (hash_bytes: bytes)

definition ContentHash_digest :: "(bytes \<Rightarrow> bytes) \<Rightarrow> bytes \<Rightarrow> ContentHash" where
  "ContentHash_digest blake3 content = ContentHash (blake3 content)"

definition ContentHash_to_hex :: "(bytes \<Rightarrow> string) \<Rightarrow> ContentHash \<Rightarrow> string" where
  "ContentHash_to_hex hash_to_hex h = hash_to_hex (hash_bytes h)"

definition ContentHash_from_str ::
  "(string \<Rightarrow> bytes option) \<Rightarrow> string \<Rightarrow> (ContentHash, PrimitiveError) result" where
  "ContentHash_from_str hash_from_hex value =
     (case hash_from_hex value of
        Some bs \<Rightarrow> Ok (ContentHash bs)
      | None \<Rightarrow> Err (InvalidContentHash value))"

lemma ContentHash_text_round_trip:
  "hash_from_hex (hash_to_hex (hash_bytes h)) = Some (hash_bytes h) \<Longrightarrow>
   ContentHash_from_str hash_from_hex (ContentHash_to_hex hash_to_hex h) = Ok h"
  by (simp add: ContentHash_from_str_def ContentHash_to_hex_def)

end
