(* ===== verification/Codec.thy ===== *)
theory Codec
  imports Prelude
begin

text \<open>
  Interfaces of the program's encoders, and big-endian integers.

  \<open>codec\<close> is a decoder that undoes an encoder on the values the encoder accepts.
  \<open>canonical_codec\<close> adds that nothing else decodes. \<open>stream_codec\<close> is a self-delimiting
  encoding: a decoder that finds the end of a value in a longer input, which makes a
  concatenation of encodings uniquely readable. They are interpreted on the raw state byte
  of a continuation (theory Continuation), on hexadecimal text (Authorization), on wire
  frames (Framing) and on length-prefixed strings (Graph cache keys).
\<close>

section \<open>Encoders and decoders\<close>

locale codec =
  fixes enc :: "'a \<Rightarrow> 'b" and dec :: "'b \<Rightarrow> 'a option" and accepts :: "'a \<Rightarrow> bool"
  assumes dec_enc: "accepts x \<Longrightarrow> dec (enc x) = Some x"
begin

lemma enc_inject: "accepts x \<Longrightarrow> accepts y \<Longrightarrow> enc x = enc y \<longleftrightarrow> x = y"
  by (metis dec_enc option.inject)

lemma enc_inj_on: "inj_on enc {x. accepts x}"
  by (auto intro!: inj_onI dest: enc_inject)

end

locale canonical_codec = codec +
  assumes enc_dec: "dec b = Some x \<Longrightarrow> accepts x \<and> enc x = b"
begin

lemma dec_eq_Some_iff: "dec b = Some x \<longleftrightarrow> accepts x \<and> b = enc x"
  using dec_enc enc_dec by blast

lemma dec_None_iff: "dec b = None \<longleftrightarrow> b \<notin> enc ` {x. accepts x}"
  by (cases "dec b") (auto simp: dec_enc dest: enc_dec)

end

locale stream_codec =
  fixes put :: "'a \<Rightarrow> 'b list" and get :: "'b list \<Rightarrow> ('a \<times> 'b list) option"
    and accepts :: "'a \<Rightarrow> bool"
  assumes get_put: "accepts x \<Longrightarrow> get (put x @ rest) = Some (x, rest)"
    and get_Nil: "get [] = None"
begin

lemma put_nonempty: "accepts x \<Longrightarrow> put x \<noteq> []"
  using get_put [of x "[]"] get_Nil by auto

lemma put_append_inject:
  "accepts x \<Longrightarrow> accepts y \<Longrightarrow> put x @ r = put y @ s \<longleftrightarrow> x = y \<and> r = s"
  by (metis get_put option.inject prod.inject)

lemma concat_put_inject:
  "list_all accepts xs \<Longrightarrow> list_all accepts ys \<Longrightarrow>
   concat (map put xs) = concat (map put ys) \<longleftrightarrow> xs = ys"
proof (induction xs arbitrary: ys)
  case Nil
  then show ?case by (cases ys) (auto dest: put_nonempty)
next
  case (Cons x xs)
  show ?case
  proof (cases ys)
    case Nil
    with Cons.prems show ?thesis by (auto dest: put_nonempty)
  next
    case (Cons y zs)
    with \<open>list_all accepts (x # xs)\<close> \<open>list_all accepts ys\<close> show ?thesis
      by (simp add: put_append_inject Cons.IH)
  qed
qed

end

text \<open>A stream codec is a codec of single values.\<close>

sublocale stream_codec \<subseteq> single: codec put
  "\<lambda>bs. (case get bs of Some (x, []) \<Rightarrow> Some x | _ \<Rightarrow> None)" accepts
  using get_put [where rest = "[]"] by unfold_locales simp

section \<open>Big-endian integers\<close>

text \<open>
  \<open>be_bytes n x\<close> is \<^verbatim>\<open>to_be_bytes\<close> of an \<open>n\<close>-byte unsigned integer, \<open>be_value\<close> is
  \<^verbatim>\<open>from_be_bytes\<close>.
\<close>

fun be_bytes :: "nat \<Rightarrow> nat \<Rightarrow> bytes" where
  "be_bytes 0 x = []"
| "be_bytes (Suc n) x = be_bytes n (x div 256) @ [of_nat (x mod 256)]"

definition be_value :: "bytes \<Rightarrow> nat" where
  "be_value bs = foldl (\<lambda>a b. a * 256 + unat b) 0 bs"

lemma length_be_bytes [simp]: "length (be_bytes n x) = n"
  by (induction n arbitrary: x) auto

lemma unat_of_nat_u8: "unat (of_nat (x mod 256) :: u8) = x mod 256"
  by (simp add: unsigned_of_nat take_bit_nat_eq_self)

lemma be_value_be_bytes: "be_value (be_bytes n x) = x mod 256 ^ n"
proof (induction n arbitrary: x)
  case 0
  then show ?case by (simp add: be_value_def)
next
  case (Suc n)
  have "be_value (be_bytes (Suc n) x) = be_value (be_bytes n (x div 256)) * 256 + x mod 256"
    by (simp add: be_value_def unat_of_nat_u8 del: of_nat_mod)
  also have "\<dots> = (x div 256 mod 256 ^ n) * 256 + x mod 256"
    by (simp add: Suc.IH)
  also have "\<dots> = x mod 256 ^ Suc n"
    by (simp add: mod_mult2_eq mult.commute)
  finally show ?case .
qed

lemma be_bytes_be_value: "be_bytes (length bs) (be_value bs) = bs"
proof (induction bs rule: rev_induct)
  case Nil
  then show ?case by simp
next
  case (snoc b bs)
  have "be_value (bs @ [b]) = be_value bs * 256 + unat b"
    by (simp add: be_value_def)
  moreover have "unat b < 256" by simp
  moreover have "(of_nat (unat b) :: u8) = b" by simp
  ultimately show ?case using snoc.IH by (simp del: of_nat_mod)
qed

lemma be_value_less: "be_value bs < 256 ^ length bs"
  by (metis be_bytes_be_value be_value_be_bytes mod_less_divisor zero_less_numeral zero_less_power)

interpretation be: canonical_codec "be_bytes n"
  "\<lambda>bs. if length bs = n then Some (be_value bs) else None" "\<lambda>x. x < 256 ^ n"
  for n
  using be_bytes_be_value be_value_less
  by unfold_locales (auto simp: be_value_be_bytes split: if_splits)

end
