(* ===== verification/Continuation.thy ===== *)
theory Continuation
  imports Primitives Codec
begin

text \<open>
  \<^verbatim>\<open>core/continuation/src/lib.rs\<close>: the resume-once gate. The shared \<^verbatim>\<open>AtomicU8\<close> is one
  byte; each operation of the gate is a single atomic access (one load or one
  compare-exchange), so every concurrent execution is a sequence of these accesses in
  the order the memory serves them. \<open>run_gate\<close> executes such a sequence, whatever thread
  each access belongs to.
\<close>

section \<open>States and the raw byte\<close>

datatype ContinuationState = Pending | Resumed | Cancelled | Expired

datatype WakeCondition =
    Manual
  | At TimestampMillis
  | RuntimeEvent (wake_event_type: string) (wake_selector: "string option")
  | ProcessOutput (wake_process_id: string) (wake_pattern: string)

record ContinuationSnapshot =
  snapshot_id :: uuid
  snapshot_state :: ContinuationState
  wake_condition :: WakeCondition
  expires_at :: "TimestampMillis option"

definition PENDING :: u8 where "PENDING = 0"
definition RESUMED :: u8 where "RESUMED = 1"
definition CANCELLED :: u8 where "CANCELLED = 2"
definition EXPIRED :: u8 where "EXPIRED = 3"

lemmas raw_states = PENDING_def RESUMED_def CANCELLED_def EXPIRED_def

fun as_raw :: "ContinuationState \<Rightarrow> u8" where
  "as_raw Pending = PENDING"
| "as_raw Resumed = RESUMED"
| "as_raw Cancelled = CANCELLED"
| "as_raw Expired = EXPIRED"

definition from_raw :: "u8 \<Rightarrow> ContinuationState" where
  "from_raw value =
     (if value = RESUMED then Resumed
      else if value = CANCELLED then Cancelled
      else if value = EXPIRED then Expired
      else Pending)"

interpretation raw_state: codec as_raw "\<lambda>b. Some (from_raw b)" "\<lambda>_. True"
proof unfold_locales
  fix x
  show "Some (from_raw (as_raw x)) = Some x"
    by (cases x) (simp_all add: from_raw_def raw_states)
qed

lemma from_raw_as_raw [simp]: "from_raw (as_raw s) = s"
  using raw_state.dec_enc [of s] by simp

lemma as_raw_inject [simp]: "as_raw s = as_raw t \<longleftrightarrow> s = t"
  by (rule raw_state.enc_inject) simp_all

section \<open>The gate\<close>

datatype ContinuationTransitionError =
  AlreadyTerminal (current: ContinuationState) (requested: ContinuationState)

record ResumeOnce =
  gate_state :: u8

definition from_state :: "ContinuationState \<Rightarrow> ResumeOnce" where
  "from_state s = \<lparr>gate_state = as_raw s\<rparr>"

definition pending :: ResumeOnce where
  "pending = from_state Pending"

definition state :: "ResumeOnce \<Rightarrow> ContinuationState" where
  "state g = from_raw (gate_state g)"

text \<open>\<^verbatim>\<open>compare_exchange\<close>: the observed byte on failure, the stored one on success.\<close>

definition compare_exchange ::
  "u8 \<Rightarrow> u8 \<Rightarrow> ResumeOnce \<Rightarrow> (u8, u8) result \<times> ResumeOnce" where
  "compare_exchange expected desired g =
     (if gate_state g = expected then (Ok expected, g\<lparr>gate_state := desired\<rparr>)
      else (Err (gate_state g), g))"

definition transition ::
  "ContinuationState \<Rightarrow> ResumeOnce \<Rightarrow> (unit, ContinuationTransitionError) result \<times> ResumeOnce" where
  "transition target g =
     (let (r, g') = compare_exchange PENDING (as_raw target) g in
      (case r of
         Ok _ \<Rightarrow> Ok ()
       | Err observed \<Rightarrow> Err (AlreadyTerminal (from_raw observed) target), g'))"

definition try_resume ::
  "ResumeOnce \<Rightarrow> (unit, ContinuationTransitionError) result \<times> ResumeOnce" where
  "try_resume = transition Resumed"

definition try_cancel ::
  "ResumeOnce \<Rightarrow> (unit, ContinuationTransitionError) result \<times> ResumeOnce" where
  "try_cancel = transition Cancelled"

definition try_expire ::
  "ResumeOnce \<Rightarrow> (unit, ContinuationTransitionError) result \<times> ResumeOnce" where
  "try_expire = transition Expired"

section \<open>Interleavings\<close>

datatype gate_op = Resume | Cancel | Expire

fun gate_target :: "gate_op \<Rightarrow> ContinuationState" where
  "gate_target Resume = Resumed"
| "gate_target Cancel = Cancelled"
| "gate_target Expire = Expired"

fun gate_call ::
  "gate_op \<Rightarrow> ResumeOnce \<Rightarrow> (unit, ContinuationTransitionError) result \<times> ResumeOnce" where
  "gate_call Resume g = try_resume g"
| "gate_call Cancel g = try_cancel g"
| "gate_call Expire g = try_expire g"

fun run_gate ::
  "gate_op list \<Rightarrow> ResumeOnce \<Rightarrow>
   (unit, ContinuationTransitionError) result list \<times> ResumeOnce" where
  "run_gate [] g = ([], g)"
| "run_gate (op # ops) g =
     (let (r, g1) = gate_call op g; (rs, g2) = run_gate ops g1 in (r # rs, g2))"

definition wf_gate :: "ResumeOnce \<Rightarrow> bool" where
  "wf_gate g \<longleftrightarrow> gate_state g \<in> range as_raw"

section \<open>One-shot objects\<close>

text \<open>
  The contract of the gate, stated over any object that an operation settles at most
  once: an unsettled object takes the first transition, a settled one refuses every
  transition and keeps its state.
\<close>

locale one_shot =
  fixes call :: "'op \<Rightarrow> 's \<Rightarrow> (unit, 'e) result \<times> 's"
    and settled :: "'s \<Rightarrow> bool"
    and run :: "'op list \<Rightarrow> 's \<Rightarrow> (unit, 'e) result list \<times> 's"
  assumes first_wins: "\<not> settled s \<Longrightarrow> fst (call op s) = Ok () \<and> settled (snd (call op s))"
    and later_lose: "settled s \<Longrightarrow> \<not> is_ok (fst (call op s)) \<and> snd (call op s) = s"
    and run_Nil: "run [] s = ([], s)"
    and run_Cons: "run (op # ops) s =
      (fst (call op s) # fst (run ops (snd (call op s))), snd (run ops (snd (call op s))))"
begin

lemma run_settled:
  "settled s \<Longrightarrow> snd (run ops s) = s \<and> (\<forall>r \<in> set (fst (run ops s)). \<not> is_ok r)"
proof (induction ops)
  case Nil
  then show ?case by (simp add: run_Nil)
next
  case (Cons op ops)
  then show ?case using later_lose [OF Cons.prems, of op] by (simp add: run_Cons)
qed

lemma run_winner:
  "\<not> settled s \<Longrightarrow>
   map is_ok (fst (run (op # ops) s)) = True # replicate (length ops) False \<and>
   snd (run (op # ops) s) = snd (call op s)"
proof -
  assume "\<not> settled s"
  then have win: "fst (call op s) = Ok ()" and settled: "settled (snd (call op s))"
    using first_wins by blast+
  have len: "length (fst (run ops t)) = length ops" for t
    by (induction ops arbitrary: t) (simp_all add: run_Nil run_Cons)
  have "map is_ok (fst (run ops (snd (call op s)))) = replicate (length ops) False"
    using run_settled [OF settled, of ops] len by (intro replicate_eqI) auto
  then show ?thesis
    using win run_settled [OF settled, of ops] by (simp add: run_Cons)
qed

lemma at_most_one_winner: "length (filter is_ok (fst (run ops s))) \<le> 1"
proof (cases "settled s")
  case True
  then have "filter is_ok (fst (run ops s)) = []"
    using run_settled [OF True, of ops] by (simp add: filter_empty_conv)
  then show ?thesis by simp
next
  case False
  show ?thesis
  proof (cases ops)
    case Nil
    then show ?thesis by (simp add: run_Nil)
  next
    case (Cons op ops')
    then have "length (filter id (map is_ok (fst (run ops s)))) = 1"
      using run_winner [OF False, of op ops'] by simp
    then show ?thesis by (simp add: filter_map comp_def)
  qed
qed

end

lemmas gate_defs = gate_call.simps try_resume_def try_cancel_def try_expire_def
  transition_def compare_exchange_def state_def

lemma gate_call_eq:
  "gate_call op g =
     (if gate_state g = PENDING then (Ok (), g\<lparr>gate_state := as_raw (gate_target op)\<rparr>)
      else (Err (AlreadyTerminal (state g) (gate_target op)), g))"
  by (cases op) (simp_all add: gate_defs)

interpretation gate: one_shot gate_call "\<lambda>g. gate_state g \<noteq> PENDING" run_gate
proof unfold_locales
  fix op g
  show "\<not> gate_state g \<noteq> PENDING \<Longrightarrow>
    fst (gate_call op g) = Ok () \<and> gate_state (snd (gate_call op g)) \<noteq> PENDING"
    by (cases op) (simp_all add: gate_call_eq raw_states)
  show "gate_state g \<noteq> PENDING \<Longrightarrow> \<not> is_ok (fst (gate_call op g)) \<and> snd (gate_call op g) = g"
    by (simp add: gate_call_eq)
  show "run_gate [] g = ([], g)" by simp
  fix ops
  show "run_gate (op # ops) g =
    (fst (gate_call op g) # fst (run_gate ops (snd (gate_call op g))),
     snd (run_gate ops (snd (gate_call op g))))"
    by (simp add: case_prod_beta Let_def)
qed

lemma state_pending [simp]: "state pending = Pending"
  by (simp add: state_def pending_def from_state_def from_raw_def raw_states)

lemma run_gate_losers:
  "gate_state g \<noteq> PENDING \<Longrightarrow>
   fst (run_gate ops g) = map (\<lambda>op. Err (AlreadyTerminal (state g) (gate_target op))) ops"
  by (induction ops) (simp_all add: gate_call_eq case_prod_beta)

section \<open>Properties\<close>

text \<open>
  C1. Exactly-once resumption: however the calls of any number of threads interleave on a
  pending gate, exactly the first call succeeds, its target is the final state, and every
  other call fails reporting that state together with what it asked for.
\<close>

theorem resume_exactly_once:
  "fst (run_gate (op # ops) pending) =
     Ok () # map (\<lambda>q. Err (AlreadyTerminal (gate_target op) (gate_target q))) ops \<and>
   state (snd (run_gate (op # ops) pending)) = gate_target op"
proof -
  have unsettled: "\<not> gate_state pending \<noteq> PENDING"
    by (simp add: pending_def from_state_def)
  let ?g = "snd (gate_call op pending)"
  have g: "gate_state ?g = as_raw (gate_target op)"
    using unsettled by (simp add: gate_call_eq)
  then have "gate_state ?g \<noteq> PENDING"
    by (cases op) (simp_all add: raw_states)
  then have "fst (run_gate ops ?g) =
      map (\<lambda>q. Err (AlreadyTerminal (gate_target op) (gate_target q))) ops"
    using g by (simp add: run_gate_losers state_def)
  then show ?thesis
    using gate.run_winner [OF unsettled, of op ops] g unsettled
    by (simp add: gate_call_eq state_def case_prod_beta)
qed

text \<open>
  A gate restored from durable state keeps the promise across the restart: from any
  restored state at most one call of any interleaving succeeds, and if the restored state
  is terminal none does and the state stays as it was stored.
\<close>

theorem restored_gate_at_most_once:
  "length (filter is_ok (fst (run_gate ops (from_state s)))) \<le> 1 \<and>
   (s = Pending \<or>
    (filter is_ok (fst (run_gate ops (from_state s))) = [] \<and>
     state (snd (run_gate ops (from_state s))) = s))"
proof (cases "s = Pending")
  case True
  then show ?thesis using gate.at_most_one_winner [of ops] by simp
next
  case False
  then have "gate_state (from_state s) \<noteq> PENDING"
    by (cases s) (simp_all add: from_state_def raw_states)
  then show ?thesis
    using gate.at_most_one_winner [of ops] gate.run_settled [of "from_state s" ops]
    by (auto simp: filter_empty_conv state_def from_state_def)
qed

end
