(* ===== verification/Event_Model.thy ===== *)
theory Event_Model
  imports Primitives
begin

text \<open>
  \<^verbatim>\<open>core/event-model/src/lib.rs\<close>: canonical event envelopes and artifact identifiers.
  \<^verbatim>\<open>serde_json\<close>, BLAKE3 and the UUID parser are arguments: \<open>canonical_json\<close> stands for the
  two serializer calls of \<^verbatim>\<open>checksum\<close> (\<^verbatim>\<open>to_value\<close> of metadata and payload, then
  \<^verbatim>\<open>to_vec\<close>), \<open>blake3\<close> for \<^verbatim>\<open>blake3::hash\<close>, \<open>uuid_parse\<close> and \<open>uuid_display\<close> for the
  textual form of a UUID.
\<close>

section \<open>Artifact identifiers\<close>

definition BLAKE3_ARTIFACT_PREFIX :: string where
  "BLAKE3_ARTIFACT_PREFIX = ''blake3:''"

definition BLAKE3_HEX_LENGTH :: nat where
  "BLAKE3_HEX_LENGTH = 64"

definition MAX_ARTIFACT_IDENTIFIER_BYTES :: nat where
  "MAX_ARTIFACT_IDENTIFIER_BYTES = length BLAKE3_ARTIFACT_PREFIX + BLAKE3_HEX_LENGTH"

lemmas artifact_limits =
  BLAKE3_ARTIFACT_PREFIX_def BLAKE3_HEX_LENGTH_def MAX_ARTIFACT_IDENTIFIER_BYTES_def

datatype ArtifactIdentifier = ArtifactIdentifier (as_str: string)

datatype ArtifactIdentifierError = ArtifactIdentifierError

definition is_lower_hex :: "char \<Rightarrow> bool" where
  "is_lower_hex c \<longleftrightarrow> is_ascii_digit c \<or> (97 \<le> char_code c \<and> char_code c \<le> 102)"

definition ArtifactIdentifier_parse ::
  "(string \<Rightarrow> uuid option) \<Rightarrow> (uuid \<Rightarrow> string) \<Rightarrow> string \<Rightarrow>
   (ArtifactIdentifier, ArtifactIdentifierError) result" where
  "ArtifactIdentifier_parse uuid_parse uuid_display value =
     (if value = [] \<or> MAX_ARTIFACT_IDENTIFIER_BYTES < length value then Err ArtifactIdentifierError
      else case uuid_parse value of
        Some u \<Rightarrow> Ok (ArtifactIdentifier (uuid_display u))
      | None \<Rightarrow>
          (case strip_prefix BLAKE3_ARTIFACT_PREFIX value of
             None \<Rightarrow> Err ArtifactIdentifierError
           | Some hash \<Rightarrow>
               if length hash \<noteq> BLAKE3_HEX_LENGTH \<or> \<not> list_all is_lower_hex hash
               then Err ArtifactIdentifierError
               else Ok (ArtifactIdentifier value)))"

definition ArtifactIdentifier_from_uuid :: "(uuid \<Rightarrow> string) \<Rightarrow> uuid \<Rightarrow> ArtifactIdentifier" where
  "ArtifactIdentifier_from_uuid uuid_display u = ArtifactIdentifier (uuid_display u)"

text \<open>The identifiers the type is meant to hold.\<close>

definition content_addressed :: "string \<Rightarrow> bool" where
  "content_addressed s \<longleftrightarrow>
     (\<exists>hash. s = BLAKE3_ARTIFACT_PREFIX @ hash \<and> length hash = BLAKE3_HEX_LENGTH \<and>
             list_all is_lower_hex hash)"

lemma content_addressed_length: "content_addressed s \<Longrightarrow> length s = MAX_ARTIFACT_IDENTIFIER_BYTES"
  by (auto simp: content_addressed_def MAX_ARTIFACT_IDENTIFIER_BYTES_def)

lemma content_addressed_nonempty: "content_addressed s \<Longrightarrow> s \<noteq> []"
  by (auto simp: content_addressed_def artifact_limits)

lemma parse_Ok_iff:
  "ArtifactIdentifier_parse up ud v = Ok i \<longleftrightarrow>
     v \<noteq> [] \<and> length v \<le> MAX_ARTIFACT_IDENTIFIER_BYTES \<and>
     ((\<exists>u. up v = Some u \<and> i = ArtifactIdentifier (ud u)) \<or>
      (up v = None \<and> content_addressed v \<and> i = ArtifactIdentifier v))"
proof (cases "v = [] \<or> MAX_ARTIFACT_IDENTIFIER_BYTES < length v")
  case True
  then show ?thesis by (auto simp: ArtifactIdentifier_parse_def)
next
  case False
  then show ?thesis
    by (auto simp: ArtifactIdentifier_parse_def content_addressed_def strip_prefix_Some not_less
        split: option.splits if_splits)
qed

lemma lower_hex_not_separator: "is_lower_hex c \<Longrightarrow> c \<noteq> CHR ''/'' \<and> c \<noteq> CHR 0x5C \<and> c \<noteq> CHR ''.''"
proof -
  assume hex: "is_lower_hex c"
  have "char_code (CHR ''/'') = 47" "char_code (CHR 0x5C) = 92" "char_code (CHR ''.'') = 46"
    by (simp_all add: char_code_def)
  with hex show ?thesis by (auto simp: is_lower_hex_def is_ascii_digit_def)
qed

lemma content_addressed_not_path:
  "content_addressed s \<Longrightarrow> CHR ''/'' \<notin> set s \<and> CHR 0x5C \<notin> set s \<and> CHR ''.'' \<notin> set s"
proof -
  assume "content_addressed s"
  then obtain hash where s: "s = BLAKE3_ARTIFACT_PREFIX @ hash" and hex: "list_all is_lower_hex hash"
    by (auto simp: content_addressed_def)
  have "CHR ''/'' \<notin> set hash \<and> CHR 0x5C \<notin> set hash \<and> CHR ''.'' \<notin> set hash"
    using hex lower_hex_not_separator unfolding list_all_iff by blast
  then show ?thesis by (simp add: s BLAKE3_ARTIFACT_PREFIX_def)
qed

section \<open>Envelopes\<close>

datatype EventScope = Scope_Runtime | Scope_Session uuid

datatype EventClassification = Proposal | DecisionEvent | Committed | Observation

record EventOrigin =
  subsystem :: string
  plugin :: "string option"

record ArtifactReference =
  reference_id :: ArtifactIdentifier
  content_hash :: ContentHash

record EventMetadata =
  event_id :: uuid
  scope :: EventScope
  sequence :: Sequence
  timestamp :: TimestampMillis
  event_type :: string
  event_version :: Version
  correlation_id :: uuid
  causation_id :: uuid
  parent_graph_node_id :: "string option"
  origin :: EventOrigin
  schema_version :: Version
  artifacts :: "ArtifactReference list"
  classification :: EventClassification

record 'p EventEnvelope =
  metadata :: EventMetadata
  payload :: 'p
  integrity_checksum :: ContentHash

datatype 'j EventModelError =
    Serialization 'j
  | ChecksumMismatch (expected: ContentHash) (actual: ContentHash)

definition checksum ::
  "(EventMetadata \<Rightarrow> 'p \<Rightarrow> (bytes, 'j) result) \<Rightarrow> (bytes \<Rightarrow> bytes) \<Rightarrow>
   EventMetadata \<Rightarrow> 'p \<Rightarrow> (ContentHash, 'j EventModelError) result" where
  "checksum canonical_json blake3 m p =
     rbind (map_err Serialization (canonical_json m p))
       (\<lambda>bs. Ok (ContentHash_digest blake3 bs))"

definition seal ::
  "(EventMetadata \<Rightarrow> 'p \<Rightarrow> (bytes, 'j) result) \<Rightarrow> (bytes \<Rightarrow> bytes) \<Rightarrow>
   EventMetadata \<Rightarrow> 'p \<Rightarrow> ('p EventEnvelope, 'j EventModelError) result" where
  "seal canonical_json blake3 m p =
     rbind (checksum canonical_json blake3 m p)
       (\<lambda>c. Ok \<lparr>metadata = m, payload = p, integrity_checksum = c\<rparr>)"

definition verify ::
  "(EventMetadata \<Rightarrow> 'p \<Rightarrow> (bytes, 'j) result) \<Rightarrow> (bytes \<Rightarrow> bytes) \<Rightarrow>
   'p EventEnvelope \<Rightarrow> (unit, 'j EventModelError) result" where
  "verify canonical_json blake3 e =
     rbind (checksum canonical_json blake3 (metadata e) (payload e))
       (\<lambda>c. if c = integrity_checksum e then Ok ()
            else Err (ChecksumMismatch (integrity_checksum e) c))"


lemmas envelope_defs = checksum_def seal_def verify_def ContentHash_digest_def

lemma seal_Ok_iff:
  "seal cj b3 m p = Ok e \<longleftrightarrow>
     (\<exists>bs. cj m p = Ok bs \<and>
           e = \<lparr>metadata = m, payload = p, integrity_checksum = ContentHash (b3 bs)\<rparr>)"
  by (auto simp: envelope_defs result_simps)


section \<open>Properties\<close>


definition sample_metadata :: EventMetadata where
  "sample_metadata = \<lparr>event_id = 1, scope = Scope_Session 2, sequence = Sequence_FIRST,
     timestamp = TimestampMillis 1700000000000, event_type = ''session.created'',
     event_version = Version_new 1 0, correlation_id = 3, causation_id = 4,
     parent_graph_node_id = None, origin = \<lparr>subsystem = ''runtime'', plugin = None\<rparr>,
     schema_version = Version_new 1 0, artifacts = [], classification = Committed\<rparr>"


text \<open>
  Tampering is detected: if the canonical JSON of a changed metadata or payload differs
  from what was sealed, and BLAKE3 does not collide on these two byte strings, the changed
  envelope is refused, and the error carries the stored and the recomputed checksum.
\<close>

theorem tampered_event_rejected:
  assumes "seal canonical_json blake3 m p = Ok e"
    and "canonical_json m p = Ok bs" and "canonical_json m' p' = Ok bs'"
    and "blake3 bs' \<noteq> blake3 bs"
  shows "verify canonical_json blake3 (e\<lparr>metadata := m', payload := p'\<rparr>) =
    Err (ChecksumMismatch (ContentHash (blake3 bs)) (ContentHash (blake3 bs')))"
  using assms by (auto simp: envelope_defs seal_Ok_iff)

theorem tampered_event_rejected_witness:
  "\<exists>e. seal (\<lambda>_ p. Ok p :: (bytes, unit) result) rev sample_metadata [1, 2] = Ok e \<and>
    verify (\<lambda>_ p. Ok p :: (bytes, unit) result) rev (e\<lparr>metadata := sample_metadata, payload := [1, 3]\<rparr>) =
    Err (ChecksumMismatch (ContentHash [2, 1]) (ContentHash [3, 1]))"
proof -
  let ?cj = "\<lambda>_ p. Ok p :: (bytes, unit) result"
  let ?e = "\<lparr>metadata = sample_metadata, payload = [1, 2], integrity_checksum = ContentHash [2, 1]\<rparr>"
  have "seal ?cj rev sample_metadata [1, 2] = Ok ?e" by (simp add: seal_Ok_iff)
  then show ?thesis
    using tampered_event_rejected [of ?cj rev sample_metadata "[1, 2]" ?e "[1, 2]" sample_metadata
        "[1, 3]" "[1, 3]"]
    by force
qed

text \<open>
  Artifact identifiers: \<open>parse\<close> accepts exactly the non-empty strings of at most 71 bytes
  that are UUIDs or \<^verbatim>\<open>blake3:\<close> followed by 64 lowercase hexadecimal digits, never returns
  a path-like content address, and is idempotent: parsing the text of an accepted
  identifier returns the same identifier, so stored identifiers stay stable.
\<close>

theorem artifact_identifier_canonical:
  assumes display: "\<And>u. uuid_parse v = Some u \<Longrightarrow>
      uuid_parse (uuid_display u) = Some u \<and> length (uuid_display u) = 36"
    and accepted: "ArtifactIdentifier_parse uuid_parse uuid_display v = Ok i"
  shows "ArtifactIdentifier_parse uuid_parse uuid_display (as_str i) = Ok i \<and>
    ((\<exists>u. as_str i = uuid_display u) \<or>
     content_addressed (as_str i) \<and> CHR ''/'' \<notin> set (as_str i) \<and> CHR 0x5C \<notin> set (as_str i))"
proof -
  from accepted consider (uuid) u where "uuid_parse v = Some u" "i = ArtifactIdentifier (uuid_display u)"
    | (hash) "uuid_parse v = None" "content_addressed v" "i = ArtifactIdentifier v"
    by (auto simp: parse_Ok_iff)
  then show ?thesis
  proof cases
    case uuid
    then have "uuid_display u \<noteq> [] \<and> length (uuid_display u) \<le> MAX_ARTIFACT_IDENTIFIER_BYTES"
      using display [of u] by (auto simp: artifact_limits)
    with uuid show ?thesis using display [of u] by (auto simp: parse_Ok_iff)
  next
    case hash
    then show ?thesis using accepted content_addressed_not_path [of v] by simp
  qed
qed

definition sample_uuid_text :: string where
  "sample_uuid_text = ''018f6f83-7b80-7000-8000-000000000005''"

definition sample_uuid_parse :: "string \<Rightarrow> uuid option" where
  "sample_uuid_parse s = (if s = sample_uuid_text then Some 5 else None)"

theorem artifact_identifier_canonical_witness:
  "ArtifactIdentifier_parse sample_uuid_parse (\<lambda>_. sample_uuid_text) sample_uuid_text =
     Ok (ArtifactIdentifier sample_uuid_text) \<and>
   ArtifactIdentifier_parse sample_uuid_parse (\<lambda>_. sample_uuid_text)
     (''blake3:'' @ replicate 64 (CHR ''a'')) =
     Ok (ArtifactIdentifier (''blake3:'' @ replicate 64 (CHR ''a'')))"
proof -
  let ?p = "ArtifactIdentifier_parse sample_uuid_parse (\<lambda>_. sample_uuid_text)"
  have uuid: "?p sample_uuid_text = Ok (ArtifactIdentifier sample_uuid_text)"
    by (simp add: parse_Ok_iff artifact_limits sample_uuid_parse_def sample_uuid_text_def)
  have hash: "?p (''blake3:'' @ replicate 64 (CHR ''a'')) =
      Ok (ArtifactIdentifier (''blake3:'' @ replicate 64 (CHR ''a'')))"
    by code_simp
  have law: "sample_uuid_parse v = Some u \<Longrightarrow>
      sample_uuid_parse sample_uuid_text = Some u \<and> length sample_uuid_text = 36" for v u
    by (simp add: sample_uuid_parse_def sample_uuid_text_def split: if_splits)
  show ?thesis
    using artifact_identifier_canonical [OF law uuid] artifact_identifier_canonical [OF law hash] by simp
qed

end
