(* ===== verification/Digraph.thy ===== *)
theory Digraph
  imports Prelude
begin

text \<open>
  Graph facts shared by the two topological sorts of the program, the handler order of
  the event pipeline (\<^verbatim>\<open>compile_order\<close>) and the cycle check of the graph compiler
  (\<^verbatim>\<open>validate_cycles\<close>), and by the breadth-first searches of the graph compiler.

  \<open>kahn_inv\<close> is the state both sorts keep: the nodes emitted so far, for each node the
  number of its predecessors not yet emitted, and the nodes whose number is zero. The
  locale \<open>kahn_graph\<close> proves once that a step of either sort keeps it and what it gives
  when no node is ready.
\<close>

section \<open>Topological sorting by counting predecessors\<close>

definition topo_prefix :: "('n \<times> 'n) set \<Rightarrow> 'n list \<Rightarrow> bool" where
  "topo_prefix E xs \<longleftrightarrow>
     distinct xs \<and> (\<forall>i < length xs. \<forall>s. (s, xs ! i) \<in> E \<longrightarrow> s \<in> set (take i xs))"

definition waiting :: "('n \<times> 'n) set \<Rightarrow> 'n list \<Rightarrow> 'n \<Rightarrow> 'n set" where
  "waiting E emitted t = {s. (s, t) \<in> E \<and> s \<notin> set emitted}"

definition kahn_inv ::
  "'n set \<Rightarrow> ('n \<times> 'n) set \<Rightarrow> 'n list \<Rightarrow> ('n \<Rightarrow> nat) \<Rightarrow> 'n set \<Rightarrow> bool" where
  "kahn_inv V E emitted inc ready \<longleftrightarrow>
     set emitted \<subseteq> V \<and> topo_prefix E emitted \<and>
     (\<forall>t \<in> V. inc t = card (waiting E emitted t)) \<and>
     ready = {t \<in> V. t \<notin> set emitted \<and> inc t = 0}"

lemma topo_prefix_snoc:
  "topo_prefix E xs \<Longrightarrow> n \<notin> set xs \<Longrightarrow> (\<And>s. (s, n) \<in> E \<Longrightarrow> s \<in> set xs) \<Longrightarrow>
   topo_prefix E (xs @ [n])"
  by (auto simp: topo_prefix_def nth_append less_Suc_eq)

lemma topo_prefix_order:
  assumes "topo_prefix E xs" and "(xs ! i, xs ! j) \<in> E" and "i < length xs" and "j < length xs"
  shows "i < j"
proof -
  have "xs ! i \<in> set (take j xs)" using assms by (simp add: topo_prefix_def)
  then obtain k where k: "k < j" "xs ! k = xs ! i" using assms(4) by (auto simp: in_set_conv_nth)
  then have "k = i" using assms by (metis nth_eq_iff_index_eq order_less_trans topo_prefix_def)
  with k show ?thesis by simp
qed

lemma topo_prefix_acyclic:
  assumes topo: "topo_prefix E xs" and sub: "E \<subseteq> set xs \<times> set xs"
  shows "acyclic E"
proof -
  have "E \<subseteq> measure (\<lambda>n. LEAST i. i < length xs \<and> xs ! i = n)"
  proof
    fix p assume p: "p \<in> E"
    obtain a b where ab: "p = (a, b)" by fastforce
    with p sub have "a \<in> set xs" "b \<in> set xs" by auto
    then obtain i j where ij: "i < length xs" "xs ! i = a" "j < length xs" "xs ! j = b"
      by (metis in_set_conv_nth)
    have least: "(LEAST k. k < length xs \<and> xs ! k = xs ! m) = m" if "m < length xs" for m
      using topo that by (auto intro!: Least_equality simp: topo_prefix_def nth_eq_iff_index_eq)
    have "i < j" using topo_prefix_order [OF topo _ ij(1,3)] p ab ij by simp
    then show "p \<in> measure (\<lambda>n. LEAST i. i < length xs \<and> xs ! i = n)"
      using ab ij least [of i] least [of j] by simp
  qed
  then show ?thesis using wf_acyclic wf_measure wf_subset by metis
qed

lemma waiting_snoc: "waiting E (xs @ [n]) t = waiting E xs t - {n}"
  by (auto simp: waiting_def)

locale kahn_graph =
  fixes V :: "'n set" and E :: "('n \<times> 'n) set"
  assumes finite_nodes: "finite V" and edges_within: "E \<subseteq> V \<times> V"
begin

lemma finite_waiting: "finite (waiting E xs t)"
  by (rule finite_subset [OF _ finite_nodes]) (use edges_within in \<open>auto simp: waiting_def\<close>)

lemma init:
  "(\<And>t. t \<in> V \<Longrightarrow> inc t = card {s. (s, t) \<in> E}) \<Longrightarrow> ready = {t \<in> V. inc t = 0} \<Longrightarrow>
   kahn_inv V E [] inc ready"
  by (simp add: kahn_inv_def topo_prefix_def waiting_def)

lemma no_underflow:
  assumes "kahn_inv V E xs inc ready" and "n \<in> ready" and "(n, t) \<in> E"
  shows "0 < inc t"
proof -
  have "n \<in> waiting E xs t" using assms by (auto simp: kahn_inv_def waiting_def)
  moreover have "t \<in> V" using assms(3) edges_within by auto
  ultimately show ?thesis using assms(1) finite_waiting [of xs t] by (auto simp: kahn_inv_def card_gt_0_iff)
qed

lemma ready_emittable:
  assumes "kahn_inv V E xs inc ready" and "n \<in> ready"
  shows "n \<in> V" "n \<notin> set xs" "\<And>s. (s, n) \<in> E \<Longrightarrow> s \<in> set xs"
proof -
  show V: "n \<in> V" and "n \<notin> set xs" using assms by (auto simp: kahn_inv_def)
  have "waiting E xs n = {}"
    using assms V finite_waiting [of xs n] by (auto simp: kahn_inv_def)
  then show "\<And>s. (s, n) \<in> E \<Longrightarrow> s \<in> set xs" by (auto simp: waiting_def)
qed

lemma step:
  assumes inv: "kahn_inv V E xs inc ready" and n: "n \<in> ready"
    and inc': "\<And>t. t \<in> V \<Longrightarrow> inc' t = (if (n, t) \<in> E then inc t - 1 else inc t)"
    and ready': "ready' = (ready - {n}) \<union> {t. (n, t) \<in> E \<and> inc t = 1}"
  shows "kahn_inv V E (xs @ [n]) inc' ready'"
proof -
  note emit = ready_emittable [OF inv n]
  have counts: "inc' t = card (waiting E (xs @ [n]) t)" if t: "t \<in> V" for t
  proof (cases "(n, t) \<in> E")
    case True
    then have "n \<in> waiting E xs t" using emit by (simp add: waiting_def)
    then show ?thesis
      using inv t True inc' [OF t] finite_waiting [of xs t]
      by (simp add: kahn_inv_def waiting_snoc)
  next
    case False
    then have "waiting E (xs @ [n]) t = waiting E xs t" by (auto simp: waiting_def)
    then show ?thesis using inv t False inc' [OF t] by (simp add: kahn_inv_def)
  qed
  have succ: "t \<in> V \<and> t \<notin> set xs \<and> t \<noteq> n \<and> 0 < inc t" if "(n, t) \<in> E" for t
  proof -
    have "0 < inc t" by (rule no_underflow [OF inv n that])
    moreover have "t \<in> V" using that edges_within by auto
    moreover have "t \<notin> set xs"
    proof
      assume "t \<in> set xs"
      then obtain i where "i < length xs" "xs ! i = t" by (auto simp: in_set_conv_nth)
      then have "n \<in> set (take i xs)" using inv that by (auto simp: kahn_inv_def topo_prefix_def)
      then show False using emit(2) by (auto dest: in_set_takeD)
    qed
    moreover have "t \<noteq> n" using emit(2,3) that by auto
    ultimately show ?thesis by simp
  qed
  have "ready' = {t \<in> V. t \<notin> set (xs @ [n]) \<and> inc' t = 0}"
  proof (intro equalityI subsetI)
    fix t assume "t \<in> ready'"
    then show "t \<in> {t \<in> V. t \<notin> set (xs @ [n]) \<and> inc' t = 0}"
      using inv inc' [of t] succ [of t] by (auto simp: ready' kahn_inv_def)
  next
    fix t assume "t \<in> {t \<in> V. t \<notin> set (xs @ [n]) \<and> inc' t = 0}"
    then show "t \<in> ready'"
      using inv inc' [of t] succ [of t] by (auto simp: ready' kahn_inv_def split: if_splits)
  qed
  moreover have "topo_prefix E (xs @ [n])"
    using inv emit by (intro topo_prefix_snoc) (auto simp: kahn_inv_def)
  ultimately show ?thesis using inv counts emit by (auto simp: kahn_inv_def)
qed

lemma stuck_complete:
  assumes inv: "kahn_inv V E xs inc {}"
  shows "V - set xs = {t \<in> V. 0 < inc t}"
    and "t \<in> V - set xs \<Longrightarrow> \<exists>s \<in> V - set xs. (s, t) \<in> E"
proof -
  have emitted: "inc t = 0" if t: "t \<in> set xs" for t
  proof -
    obtain i where "i < length xs" "xs ! i = t" using t by (auto simp: in_set_conv_nth)
    then have "\<And>s. (s, t) \<in> E \<Longrightarrow> s \<in> set xs"
      using inv by (auto simp: kahn_inv_def topo_prefix_def dest: in_set_takeD)
    then have "waiting E xs t = {}" by (auto simp: waiting_def)
    moreover have "t \<in> V" using inv t by (auto simp: kahn_inv_def)
    ultimately show ?thesis using inv by (simp add: kahn_inv_def)
  qed
  show "V - set xs = {t \<in> V. 0 < inc t}"
    using inv emitted by (auto simp: kahn_inv_def)
  show "\<exists>s \<in> V - set xs. (s, t) \<in> E" if t: "t \<in> V - set xs"
  proof -
    have "inc t = card (waiting E xs t)" "inc t \<noteq> 0" using inv t by (auto simp: kahn_inv_def)
    then obtain s where "s \<in> waiting E xs t" by (metis card.empty ex_in_conv)
    then show ?thesis using edges_within by (auto simp: waiting_def)
  qed
qed

lemma stuck_cyclic:
  assumes inv: "kahn_inv V E xs inc {}" and left: "V - set xs \<noteq> {}"
  shows "\<not> acyclic (E \<inter> (V - set xs) \<times> (V - set xs))"
proof
  let ?U = "V - set xs" and ?R = "E \<inter> (V - set xs) \<times> (V - set xs)"
  assume "acyclic ?R"
  moreover have "finite ?R"
    by (rule finite_subset [of _ "V \<times> V"]) (auto simp: finite_nodes)
  ultimately have "wf ?R" by (simp add: finite_acyclic_wf)
  then obtain m where "m \<in> ?U" "\<And>s. (s, m) \<in> ?R \<Longrightarrow> s \<notin> ?U"
    using left by (meson wf_eq_minimal all_not_in_conv)
  then show False using stuck_complete(2) [OF inv, of m] by auto
qed

lemma emitted_closed:
  assumes "kahn_inv V E xs inc ready" and "(a, b) \<in> E" and "b \<in> set xs"
  shows "a \<in> set xs"
proof -
  obtain i where "i < length xs" "xs ! i = b" using assms(3) by (auto simp: in_set_conv_nth)
  then have "a \<in> set (take i xs)" using assms(1,2) by (auto simp: kahn_inv_def topo_prefix_def)
  then show ?thesis by (rule in_set_takeD)
qed

text \<open>The nodes left over are those that a cycle leads to.\<close>

lemma stuck_downstream:
  assumes inv: "kahn_inv V E xs inc {}"
  shows "V - set xs = {n \<in> V. \<exists>m. (m, m) \<in> E\<^sup>+ \<and> (m, n) \<in> E\<^sup>*}"
proof (intro equalityI subsetI)
  fix n assume n: "n \<in> V - set xs"
  let ?R = "E \<inter> (V - set xs) \<times> (V - set xs)"
  let ?A = "{m. (m, n) \<in> ?R\<^sup>*}"
  have A: "?A \<subseteq> V - set xs"
  proof
    fix m assume "m \<in> ?A"
    then have "(m, n) \<in> ?R\<^sup>*" by simp
    then show "m \<in> V - set xs" using n by (cases rule: converse_rtranclE) auto
  qed
  have pred: "\<exists>s \<in> ?A. (s, m) \<in> ?R" if m: "m \<in> ?A" for m
  proof -
    obtain s where "s \<in> V - set xs" "(s, m) \<in> E" using stuck_complete(2) [OF inv, of m] A m by auto
    then have "(s, m) \<in> ?R" using A m by auto
    then show ?thesis using m by (auto intro: converse_rtrancl_into_rtrancl)
  qed
  have "\<not> acyclic (?R \<inter> ?A \<times> ?A)"
  proof
    assume "acyclic (?R \<inter> ?A \<times> ?A)"
    moreover have "finite (?R \<inter> ?A \<times> ?A)"
      by (rule finite_subset [of _ "V \<times> V"]) (auto simp: finite_nodes)
    ultimately have "wf (?R \<inter> ?A \<times> ?A)" by (simp add: finite_acyclic_wf)
    moreover have "n \<in> ?A" by simp
    ultimately obtain m where "m \<in> ?A" "\<And>s. (s, m) \<in> ?R \<inter> ?A \<times> ?A \<Longrightarrow> s \<notin> ?A"
      by (metis (no_types, lifting) wf_eq_minimal)
    then show False using pred [of m] by blast
  qed
  then obtain m where m: "(m, m) \<in> (?R \<inter> ?A \<times> ?A)\<^sup>+" by (auto simp: acyclic_def)
  then have "m \<in> ?A" by (cases rule: tranclE) auto
  moreover have "?R\<^sup>* \<subseteq> E\<^sup>*" by (rule rtrancl_mono) auto
  moreover have "(?R \<inter> ?A \<times> ?A)\<^sup>+ \<subseteq> E\<^sup>+" by (auto intro: trancl_mono)
  ultimately show "n \<in> {n \<in> V. \<exists>m. (m, m) \<in> E\<^sup>+ \<and> (m, n) \<in> E\<^sup>*}" using m n by blast
next
  fix n assume "n \<in> {n \<in> V. \<exists>m. (m, m) \<in> E\<^sup>+ \<and> (m, n) \<in> E\<^sup>*}"
  then obtain m where n: "n \<in> V" and m: "(m, m) \<in> E\<^sup>+" "(m, n) \<in> E\<^sup>*" by auto
  note closed = emitted_closed [OF inv]
  have "n \<notin> set xs"
  proof
    assume "n \<in> set xs"
    with m(2) have "m \<in> set xs" by (induction rule: converse_rtrancl_induct) (auto intro: closed)
    moreover have "(a, b) \<in> (E \<inter> set xs \<times> set xs)\<^sup>+" if "(a, b) \<in> E\<^sup>+" "b \<in> set xs" for a b
      using that
    proof (induction rule: converse_trancl_induct)
      case (base a)
      then show ?case by (auto intro: closed)
    next
      case (step a c)
      then have "(c, b) \<in> (E \<inter> set xs \<times> set xs)\<^sup>+" by simp
      moreover from this have "c \<in> set xs" by (cases rule: converse_tranclE) auto
      ultimately show ?case using step.hyps(1) by (auto intro: closed trancl_into_trancl2)
    qed
    ultimately have "(m, m) \<in> (E \<inter> set xs \<times> set xs)\<^sup>+" using m(1) by blast
    moreover have "topo_prefix (E \<inter> set xs \<times> set xs) xs" using inv by (auto simp: kahn_inv_def topo_prefix_def)
    then have "acyclic (E \<inter> set xs \<times> set xs)" by (rule topo_prefix_acyclic) auto
    ultimately show False by (simp add: acyclic_def)
  qed
  then show "n \<in> V - set xs" using n by simp
qed

lemma stuck_iff:
  assumes inv: "kahn_inv V E xs inc {}"
  shows "set xs = V \<longleftrightarrow> acyclic E"
proof
  assume "set xs = V"
  then show "acyclic E" using inv edges_within by (auto simp: kahn_inv_def intro: topo_prefix_acyclic)
next
  assume "acyclic E"
  then have "acyclic (E \<inter> (V - set xs) \<times> (V - set xs))" by (rule acyclic_subset) auto
  then show "set xs = V" using stuck_cyclic [OF inv] inv by (auto simp: kahn_inv_def)
qed

end

section \<open>Least-first topological orders\<close>

definition greedy_prefix ::
  "'n set \<Rightarrow> ('n \<times> 'n) set \<Rightarrow> ('n \<Rightarrow> 'k::linorder) \<Rightarrow> 'n list \<Rightarrow> bool" where
  "greedy_prefix V E key xs \<longleftrightarrow>
     (\<forall>i < length xs. \<forall>h \<in> V - set (take i xs).
        (\<forall>s. (s, h) \<in> E \<longrightarrow> s \<in> set (take i xs)) \<longrightarrow> key (xs ! i) \<le> key h)"

lemma greedy_prefix_snoc:
  "greedy_prefix V E key xs \<Longrightarrow>
   (\<And>h. h \<in> V - set xs \<Longrightarrow> (\<forall>s. (s, h) \<in> E \<longrightarrow> s \<in> set xs) \<Longrightarrow> key n \<le> key h) \<Longrightarrow>
   greedy_prefix V E key (xs @ [n])"
  by (auto simp: greedy_prefix_def nth_append less_Suc_eq)

lemma topo_greedy_next:
  assumes "topo_prefix E xs" "set xs = V" "greedy_prefix V E key ys"
    and "i < length xs" "i < length ys" "take i xs = take i ys"
  shows "key (ys ! i) \<le> key (xs ! i)"
proof -
  have "xs ! i \<notin> set (take i ys)"
    using assms(1,4,6) by (metis append_take_drop_id distinct_append id_take_nth_drop
        not_distinct_conv_prefix take_Suc_conv_app_nth topo_prefix_def)
  moreover have "xs ! i \<in> V" using assms(2,4) by auto
  moreover have "\<forall>s. (s, xs ! i) \<in> E \<longrightarrow> s \<in> set (take i ys)"
    using assms(1,4) unfolding assms(6) [symmetric] by (auto simp: topo_prefix_def)
  ultimately show ?thesis using assms(3,5) by (auto simp: greedy_prefix_def)
qed

text \<open>A least-first topological order of all nodes is unique.\<close>

lemma greedy_topo_unique:
  assumes xs: "topo_prefix E xs" "set xs = V" "greedy_prefix V E key xs"
    and ys: "topo_prefix E ys" "set ys = V" "greedy_prefix V E key ys"
    and inj: "inj_on key V"
  shows "xs = ys"
proof (rule nth_equalityI)
  show len: "length xs = length ys"
    using xs(1,2) ys(1,2) by (metis distinct_card topo_prefix_def)
  have "take i xs = take i ys" if "i \<le> length xs" for i
    using that
  proof (induction i)
    case 0
    then show ?case by simp
  next
    case (Suc i)
    then have i: "i < length xs" "i < length ys" and eq: "take i xs = take i ys" using len by auto
    have "key (ys ! i) = key (xs ! i)"
      using topo_greedy_next [OF xs(1,2) ys(3) i eq] topo_greedy_next [OF ys(1,2) xs(3) i(2,1) eq [symmetric]]
      by simp
    then have "ys ! i = xs ! i" using inj xs(2) ys(2) i by (metis inj_onD nth_mem)
    then show ?case using i eq by (simp add: take_Suc_conv_app_nth)
  qed
  then have "xs = ys" using len by (metis order_refl take_all)
  then show "\<And>i. i < length xs \<Longrightarrow> xs ! i = ys ! i" by simp
qed

section \<open>Closed paths\<close>

definition closed_path :: "('n \<times> 'n) set \<Rightarrow> 'n list \<Rightarrow> bool" where
  "closed_path E p \<longleftrightarrow> 2 \<le> length p \<and> hd p = last p \<and> successively (\<lambda>a b. (a, b) \<in> E) p"

lemma successively_trancl:
  "successively (\<lambda>a b. (a, b) \<in> E) p \<Longrightarrow> 2 \<le> length p \<Longrightarrow> (hd p, last p) \<in> E\<^sup>+"
proof (induction p rule: induct_list012)
  case (3 x y zs)
  then show ?case by (cases zs) (auto intro: trancl_into_trancl2)
qed auto

lemma closed_path_cyclic: "closed_path E p \<Longrightarrow> \<not> acyclic E"
  using successively_trancl [of E p] by (auto simp: closed_path_def acyclic_def)

lemma closed_path_mono: "closed_path E p \<Longrightarrow> E \<subseteq> F \<Longrightarrow> closed_path F p"
  by (auto simp: closed_path_def intro: successively_mono)

lemma closed_path_map:
  assumes "closed_path E p"
    and "\<And>a b. a \<in> set p \<Longrightarrow> b \<in> set p \<Longrightarrow> (a, b) \<in> E \<Longrightarrow> (f a, f b) \<in> F"
  shows "closed_path F (map f p)"
proof -
  have "p \<noteq> []" using assms(1) by (auto simp: closed_path_def)
  moreover have "successively (\<lambda>a b. (f a, f b) \<in> F) p"
    using assms by (auto simp: closed_path_def elim!: successively_mono)
  ultimately show ?thesis
    using assms(1) by (simp add: closed_path_def successively_map hd_map last_map)
qed

lemma acyclic_insert_source:
  assumes ac: "acyclic (R \<inter> F \<times> F)" and closed: "R `` F \<subseteq> F" and succ: "R `` {n} \<subseteq> F"
  shows "acyclic (R \<inter> insert n F \<times> insert n F)"
proof (rule acyclicI, rule allI, rule notI)
  let ?S = "R \<inter> insert n F \<times> insert n F"
  fix x assume "(x, x) \<in> ?S\<^sup>+"
  moreover have range: "b \<in> F" if "(a, b) \<in> ?S\<^sup>+" for a b
    using that closed succ by (induction rule: trancl_induct) auto
  moreover have "(a, b) \<in> (R \<inter> F \<times> F)\<^sup>+" if "(a, b) \<in> ?S\<^sup>+" "a \<in> F" for a b
    using that
  proof (induction rule: trancl_induct)
    case (base b)
    then show ?case using closed by (intro r_into_trancl) auto
  next
    case (step b c)
    then have "b \<in> F" using range by blast
    with step show ?case using closed by (intro trancl_into_trancl [OF step.IH]) auto
  qed
  ultimately have "(x, x) \<in> (R \<inter> F \<times> F)\<^sup>+" by blast
  then show False using ac by (simp add: acyclic_def)
qed

end
