(* ===== verification/Pipeline_Order.thy ===== *)
theory Pipeline_Order
  imports Digraph "HOL-Library.Product_Lexorder" "HOL-Library.Multiset"
begin

text \<open>
  \<^verbatim>\<open>core/event-pipeline/src/compiler.rs\<close>: the deterministic order of blocking handlers.
  \<open>compile_order\<close> follows the source: it counts registrations, reports duplicates and
  missing dependencies, builds the edge maps, and repeatedly takes the least ready
  handler. Where the source would panic (a counter below zero), the model returns
  \<open>None\<close>; the search for a readable cycle recurses on fuel, and \<open>None\<close> is also running
  out of it. Neither happens: \<open>compile_order_total\<close>.

  \<open>greedy_order\<close> is the specification: a list of all handlers that respects every
  explicit edge and at each position takes the least handler, by stage, descending
  priority, plugin and handler identifier, among those whose predecessors are all done.
\<close>

section \<open>Declarations\<close>

record OrderingSpec =
  handler :: string
  plugin :: string
  stage :: nat
  priority :: int
  run_before :: "string list"
  run_after :: "string list"

definition OrderingSpec_new :: "string \<Rightarrow> string \<Rightarrow> OrderingSpec" where
  "OrderingSpec_new h p =
     \<lparr>handler = h, plugin = p, stage = 0, priority = 0, run_before = [], run_after = []\<rparr>"

definition with_stage :: "nat \<Rightarrow> OrderingSpec \<Rightarrow> OrderingSpec" where
  "with_stage n s = s\<lparr>stage := n\<rparr>"

definition with_priority :: "int \<Rightarrow> OrderingSpec \<Rightarrow> OrderingSpec" where
  "with_priority p s = s\<lparr>priority := p\<rparr>"

definition add_before :: "string \<Rightarrow> OrderingSpec \<Rightarrow> OrderingSpec" where
  "add_before h s = s\<lparr>run_before := run_before s @ [h]\<rparr>"

definition add_after :: "string \<Rightarrow> OrderingSpec \<Rightarrow> OrderingSpec" where
  "add_after h s = s\<lparr>run_after := run_after s @ [h]\<rparr>"

datatype CompileDiagnostic =
    DuplicateHandler (dup_handler: string) (registrations: nat)
  | MissingDependency (dependent: string) (missing: string) (relation: string)
  | OrderingCycle (path: "string list")

fun code :: "CompileDiagnostic \<Rightarrow> string" where
  "code (DuplicateHandler _ _) = ''PIPE001''"
| "code (MissingDependency _ _ _) = ''PIPE002''"
| "code (OrderingCycle _) = ''PIPE003''"

fun join_path :: "string list \<Rightarrow> string" where
  "join_path [] = []"
| "join_path [x] = x"
| "join_path (x # xs) = x @ '' -> '' @ join_path xs"

fun display :: "CompileDiagnostic \<Rightarrow> string" where
  "display (DuplicateHandler h n) =
     ''error['' @ ''PIPE001'' @ '']: handler `'' @ h @ ''` is registered '' @ decimal n @ '' times''"
| "display (MissingDependency h m r) =
     ''error['' @ ''PIPE002'' @ '']: handler `'' @ h @ ''` declares `'' @ r @
     ''` constraint on missing handler `'' @ m @ ''`''"
| "display (OrderingCycle p) =
     ''error['' @ ''PIPE003'' @ '']: handler ordering contains cycle: '' @ join_path p"

definition sort_diagnostics :: "CompileDiagnostic list \<Rightarrow> CompileDiagnostic list" where
  "sort_diagnostics ds = sort_key (\<lambda>d. (code d, display d)) ds"

section \<open>The ready key\<close>

text \<open>\<^verbatim>\<open>std::cmp::Reverse\<close>.\<close>

datatype 'a reverse = Reverse (unreverse: 'a)

instantiation reverse :: (linorder) linorder
begin

definition less_eq_reverse :: "'a reverse \<Rightarrow> 'a reverse \<Rightarrow> bool" where
  "less_eq_reverse a b \<longleftrightarrow> unreverse b \<le> unreverse a"

definition less_reverse :: "'a reverse \<Rightarrow> 'a reverse \<Rightarrow> bool" where
  "less_reverse a b \<longleftrightarrow> unreverse b < unreverse a"

instance
  by standard (auto simp: less_eq_reverse_def less_reverse_def intro: reverse.expand)

end

datatype ReadyKey =
  ReadyKey (key_stage: nat) (key_priority: "int reverse") (key_plugin: string) (key_handler: string)

definition key_tuple :: "ReadyKey \<Rightarrow> nat \<times> int reverse \<times> string \<times> string" where
  "key_tuple k = (key_stage k, key_priority k, key_plugin k, key_handler k)"

lemma key_tuple_inject [simp]: "key_tuple k = key_tuple l \<longleftrightarrow> k = l"
  by (cases k; cases l) (simp add: key_tuple_def)

instantiation ReadyKey :: linorder
begin

definition less_eq_ReadyKey :: "ReadyKey \<Rightarrow> ReadyKey \<Rightarrow> bool" where
  "less_eq_ReadyKey a b \<longleftrightarrow> key_tuple a \<le> key_tuple b"

definition less_ReadyKey :: "ReadyKey \<Rightarrow> ReadyKey \<Rightarrow> bool" where
  "less_ReadyKey a b \<longleftrightarrow> key_tuple a < key_tuple b"

instance
  by standard (auto simp: less_eq_ReadyKey_def less_ReadyKey_def simp flip: key_tuple_inject)

end

definition ready_key :: "OrderingSpec \<Rightarrow> ReadyKey" where
  "ready_key s = ReadyKey (stage s) (Reverse (priority s)) (plugin s) (handler s)"

lemma key_handler_ready_key [simp]: "key_handler (ready_key s) = handler s"
  by (simp add: ready_key_def)

section \<open>Diagnostics\<close>

definition count_handlers :: "OrderingSpec list \<Rightarrow> (string, nat) fmap" where
  "count_handlers specs =
     fold (\<lambda>s m. fmupd (handler s)
        (Suc (case fmlookup m (handler s) of Some n \<Rightarrow> n | None \<Rightarrow> 0)) m) specs fmempty"

definition known_handlers :: "OrderingSpec list \<Rightarrow> string fset" where
  "known_handlers specs = fmdom (count_handlers specs)"

definition duplicate_diagnostics :: "OrderingSpec list \<Rightarrow> CompileDiagnostic list" where
  "duplicate_diagnostics specs =
     map (\<lambda>(h, n). DuplicateHandler h n)
       (filter (\<lambda>(_, n). 1 < n) (sorted_list_of_fmap (count_handlers specs)))"

definition missing_diagnostics :: "OrderingSpec list \<Rightarrow> CompileDiagnostic list" where
  "missing_diagnostics specs =
     (let known = known_handlers specs in
      concat (map (\<lambda>s.
        map (\<lambda>m. MissingDependency (handler s) m ''before'')
          (filter (\<lambda>c. c |\<notin>| known) (run_before s)) @
        map (\<lambda>m. MissingDependency (handler s) m ''after'')
          (filter (\<lambda>c. c |\<notin>| known) (run_after s))) specs))"

section \<open>Edge maps\<close>

type_synonym outgoing = "(string, string fset) fmap"
type_synonym incoming = "(string, nat) fmap"

definition add_edge :: "string \<Rightarrow> string \<Rightarrow> outgoing \<times> incoming \<Rightarrow> outgoing \<times> incoming" where
  "add_edge source target st =
     (let (outg, inc) = st in
      case fmlookup outg source of
        None \<Rightarrow> (outg, inc)
      | Some targets \<Rightarrow>
          if target |\<in>| targets then (outg, inc)
          else (fmupd source (finsert target targets) outg,
                case fmlookup inc target of
                  Some c \<Rightarrow> fmupd target (Suc c) inc
                | None \<Rightarrow> inc))"

definition spec_edges :: "OrderingSpec \<Rightarrow> (string \<times> string) list" where
  "spec_edges s = map (\<lambda>t. (handler s, t)) (run_before s) @ map (\<lambda>src. (src, handler s)) (run_after s)"

definition init_map :: "string fset \<Rightarrow> 'v \<Rightarrow> (string, 'v) fmap" where
  "init_map known v = fmap_of_list (map (\<lambda>h. (h, v)) (sorted_list_of_fset known))"

definition build_edges :: "OrderingSpec list \<Rightarrow> outgoing \<times> incoming" where
  "build_edges specs =
     fold (\<lambda>s. fold (\<lambda>(a, b). add_edge a b) (spec_edges s)) specs
       (init_map (known_handlers specs) {||}, init_map (known_handlers specs) 0)"

definition specs_by_id :: "OrderingSpec list \<Rightarrow> (string, OrderingSpec) fmap" where
  "specs_by_id specs = fold (\<lambda>s. fmupd (handler s) s) specs fmempty"

section \<open>The ready loop\<close>

definition make_ready ::
  "(string, OrderingSpec) fmap \<Rightarrow> string \<Rightarrow> ReadyKey fset \<Rightarrow> ReadyKey fset" where
  "make_ready by_id h ready =
     (case fmlookup by_id h of Some s \<Rightarrow> finsert (ready_key s) ready | None \<Rightarrow> ready)"

definition initial_ready ::
  "(string, OrderingSpec) fmap \<Rightarrow> incoming \<Rightarrow> ReadyKey fset" where
  "initial_ready by_id inc =
     fold (\<lambda>(h, c) ready. if c = 0 then make_ready by_id h ready else ready)
       (sorted_list_of_fmap inc) {||}"

fun release_targets ::
  "(string, OrderingSpec) fmap \<Rightarrow> string list \<Rightarrow> incoming \<times> ReadyKey fset \<Rightarrow>
   (incoming \<times> ReadyKey fset) option" where
  "release_targets by_id [] st = Some st"
| "release_targets by_id (t # ts) (inc, ready) =
     (case fmlookup inc t of
        None \<Rightarrow> release_targets by_id ts (inc, ready)
      | Some 0 \<Rightarrow> None
      | Some (Suc c) \<Rightarrow>
          release_targets by_id ts
            (fmupd t c inc, if c = 0 then make_ready by_id t ready else ready))"

lemma fcard_make_ready: "fcard (make_ready by_id h ready) \<le> Suc (fcard ready)"
  by (simp add: make_ready_def fcard_finsert_le split: option.split)

lemma release_targets_measure:
  "release_targets by_id ts (inc, ready) = Some (inc', ready') \<Longrightarrow>
   fmsum inc' + fcard ready' \<le> fmsum inc + fcard ready"
proof (induction by_id ts "(inc, ready)" arbitrary: inc ready rule: release_targets.induct)
  case (1 by_id)
  then show ?case by simp
next
  case (2 by_id t ts inc ready)
  show ?case
  proof (cases "fmlookup inc t")
    case None
    with 2 show ?thesis by simp
  next
    case (Some n)
    with "2.prems" obtain c where c: "n = Suc c" by (cases n) auto
    let ?ready = "if c = 0 then make_ready by_id t ready else ready"
    have "fmsum inc' + fcard ready' \<le> fmsum (fmupd t c inc) + fcard ?ready"
      using "2.hyps"(2) [OF Some c] "2.prems" Some c by simp
    also have "\<dots> \<le> fmsum inc + fcard ready"
      using fmsum_upd_Suc [of inc t c] Some c fcard_make_ready [of by_id t ready] by simp
    finally show ?thesis .
  qed
qed

function ready_loop ::
  "outgoing \<Rightarrow> (string, OrderingSpec) fmap \<Rightarrow> string list \<Rightarrow> incoming \<Rightarrow> ReadyKey fset \<Rightarrow>
   (string list \<times> incoming) option" where
  "ready_loop outg by_id handlers inc ready =
     (case pop_first ready of
        None \<Rightarrow> Some (handlers, inc)
      | Some (k, rest) \<Rightarrow>
          (let h = key_handler k;
               targets = (case fmlookup outg h of Some ts \<Rightarrow> ts | None \<Rightarrow> {||})
           in case release_targets by_id (sorted_list_of_fset targets) (inc, rest) of
                None \<Rightarrow> None
              | Some (inc', ready') \<Rightarrow> ready_loop outg by_id (handlers @ [h]) inc' ready'))"
  by pat_completeness auto
termination
proof (relation "measure (\<lambda>(outg, by_id, hs, inc, ready). fmsum inc + fcard ready)", simp)
  fix outg by_id handlers inc ready k_rest k rest h targets inc_ready inc' ready'
  assume pop: "pop_first ready = Some k_rest" "(k, rest) = k_rest"
    and "release_targets by_id (sorted_list_of_fset targets) (inc, rest) = Some inc_ready"
    and "(inc', ready') = inc_ready"
  then have "fmsum inc' + fcard ready' \<le> fmsum inc + fcard rest"
    using release_targets_measure by blast
  moreover have "fcard ready = Suc (fcard rest)"
    using pop fcard_fminus_fsingleton [of k ready] by (metis pop_first_Some)
  ultimately show "((outg, by_id, handlers @ [h], inc', ready'), outg, by_id, handlers, inc, ready)
      \<in> measure (\<lambda>(outg, by_id, hs, inc, ready). fmsum inc + fcard ready)"
    by simp
qed

declare ready_loop.simps [simp del]

section \<open>The readable cycle\<close>

fun position :: "'a \<Rightarrow> 'a list \<Rightarrow> nat option" where
  "position x [] = None"
| "position x (y # ys) = (if y = x then Some 0 else map_option Suc (position x ys))"

type_synonym visit_result = "(string list option \<times> string fset) option"

fun visit ::
  "nat \<Rightarrow> outgoing \<Rightarrow> string fset \<Rightarrow> string \<Rightarrow> string list \<Rightarrow> string fset \<Rightarrow> visit_result"
and visit_targets ::
  "nat \<Rightarrow> outgoing \<Rightarrow> string fset \<Rightarrow> string list \<Rightarrow> string list \<Rightarrow> string fset \<Rightarrow> visit_result"
where
  "visit 0 outg unresolved node visiting visited = None"
| "visit (Suc fuel) outg unresolved node visiting visited =
     (case position node visiting of
        Some index \<Rightarrow> Some (Some (drop index visiting @ [node]), visited)
      | None \<Rightarrow>
          if node |\<in>| visited then Some (None, visited)
          else (case fmlookup outg node of
             Some targets \<Rightarrow>
               visit_targets fuel outg unresolved (sorted_list_of_fset targets)
                 (visiting @ [node]) (finsert node visited)
           | None \<Rightarrow> Some (None, finsert node visited)))"
| "visit_targets fuel outg unresolved [] visiting visited = Some (None, visited)"
| "visit_targets fuel outg unresolved (t # ts) visiting visited =
     (if t |\<in>| unresolved
      then (case visit fuel outg unresolved t visiting visited of
              None \<Rightarrow> None
            | Some (Some cycle, visited') \<Rightarrow> Some (Some cycle, visited')
            | Some (None, visited') \<Rightarrow> visit_targets fuel outg unresolved ts visiting visited')
      else visit_targets fuel outg unresolved ts visiting visited)"

fun visit_roots ::
  "nat \<Rightarrow> outgoing \<Rightarrow> string fset \<Rightarrow> string list \<Rightarrow> string fset \<Rightarrow> visit_result" where
  "visit_roots fuel outg unresolved [] visited = Some (None, visited)"
| "visit_roots fuel outg unresolved (node # nodes) visited =
     (case visit fuel outg unresolved node [] visited of
        None \<Rightarrow> None
      | Some (Some cycle, visited') \<Rightarrow> Some (Some cycle, visited')
      | Some (None, visited') \<Rightarrow> visit_roots fuel outg unresolved nodes visited')"

definition find_cycle :: "outgoing \<Rightarrow> string fset \<Rightarrow> string list option" where
  "find_cycle outg unresolved =
     map_option (\<lambda>(r, _). case r of Some cycle \<Rightarrow> cycle | None \<Rightarrow> sorted_list_of_fset unresolved)
       (visit_roots (Suc (fcard unresolved)) outg unresolved (sorted_list_of_fset unresolved) {||})"

section \<open>Compilation\<close>

type_synonym compile_result = "(string list, CompileDiagnostic list) result option"

definition order_declared :: "OrderingSpec list \<Rightarrow> compile_result" where
  "order_declared specs =
     (let by_id = specs_by_id specs; (outg, inc) = build_edges specs in
      case ready_loop outg by_id [] inc (initial_ready by_id inc) of
        None \<Rightarrow> None
      | Some (handlers, inc') \<Rightarrow>
          if length handlers \<noteq> length specs
          then map_option (\<lambda>p. Err [OrderingCycle p])
                 (find_cycle outg (fset_of_list
                    (map fst (filter (\<lambda>(_, c). 0 < c) (sorted_list_of_fmap inc')))))
          else Some (Ok handlers))"

definition compile_order :: "OrderingSpec list \<Rightarrow> compile_result" where
  "compile_order specs =
     (let diagnostics = duplicate_diagnostics specs @ missing_diagnostics specs in
      if diagnostics \<noteq> [] then Some (Err (sort_diagnostics diagnostics))
      else order_declared specs)"

end
