(* ===== verification/Order_Correct.thy ===== *)
theory Order_Correct
  imports Pipeline_Order
begin

text \<open>
  Correctness of \<open>compile_order\<close>: the maps it builds mean what they should, the ready loop
  keeps the invariant of \<open>kahn_graph\<close> and the least-first rule, the cycle search finds a
  closed path whenever the loop is stuck, and the result is the order \<open>greedy_order\<close>
  specifies, independent of the order of registration.
\<close>

section \<open>What the maps hold\<close>

lemma count_handlers_snoc:
  "count_handlers (specs @ [s]) = fmupd (handler s)
     (Suc (case fmlookup (count_handlers specs) (handler s) of Some n \<Rightarrow> n | None \<Rightarrow> 0))
     (count_handlers specs)"
  by (simp add: count_handlers_def)

lemma fmlookup_count_handlers:
  "fmlookup (count_handlers specs) h =
     (let n = count_list (map handler specs) h in if n = 0 then None else Some n)"
proof (induction specs rule: rev_induct)
  case Nil
  then show ?case by (simp add: count_handlers_def)
next
  case (snoc s specs)
  then show ?case by (auto simp: count_handlers_snoc Let_def split: option.splits)
qed

lemma known_handlers_set [simp]: "fset (known_handlers specs) = handler ` set specs"
proof -
  have "h |\<in>| known_handlers specs \<longleftrightarrow> h \<in> handler ` set specs" for h
    unfolding known_handlers_def fmdom_notI
    by (auto simp: fmlookup_dom_iff fmlookup_count_handlers Let_def count_list_0_iff)
  then show ?thesis by blast
qed

lemma duplicate_diagnostics_set:
  "set (duplicate_diagnostics specs) =
     {DuplicateHandler h (count_list (map handler specs) h) | h.
        1 < count_list (map handler specs) h}"
proof -
  have "set (duplicate_diagnostics specs) =
      {DuplicateHandler h n | h n. fmlookup (count_handlers specs) h = Some n \<and> 1 < n}"
    unfolding duplicate_diagnostics_def
    by (auto simp: sorted_list_of_fmap_iff image_iff split: prod.splits)
  moreover have "fmlookup (count_handlers specs) h = Some n \<and> 1 < n \<longleftrightarrow>
      n = count_list (map handler specs) h \<and> 1 < count_list (map handler specs) h" for h n
    by (auto simp: fmlookup_count_handlers Let_def)
  ultimately show ?thesis by simp
qed

lemma duplicate_diagnostics_Nil: "duplicate_diagnostics specs = [] \<longleftrightarrow> distinct (map handler specs)"
proof -
  have "duplicate_diagnostics specs = [] \<longleftrightarrow> (\<forall>h. count_list (map handler specs) h \<le> 1)"
    using duplicate_diagnostics_set [of specs] by (fastforce simp flip: set_empty simp: not_less)
  also have "\<dots> \<longleftrightarrow> distinct (map handler specs)"
  proof -
    have "(\<forall>h. count_list xs h \<le> 1) \<longleftrightarrow> distinct xs" for xs :: "string list"
      by (metis count_mset distinct_count_atmost_1 le_zero_eq count_eq_zero_iff set_mset_mset
          nat_le_linear le_less One_nat_def less_one)
    then show ?thesis by blast
  qed
  finally show ?thesis .
qed

definition declared :: "OrderingSpec list \<Rightarrow> bool" where
  "declared specs \<longleftrightarrow>
     (\<forall>s \<in> set specs. set (run_before s) \<union> set (run_after s) \<subseteq> handler ` set specs)"

lemma missing_diagnostics_set:
  "set (missing_diagnostics specs) =
     {MissingDependency (handler s) m ''before'' | s m.
        s \<in> set specs \<and> m \<in> set (run_before s) \<and> m \<notin> handler ` set specs} \<union>
     {MissingDependency (handler s) m ''after'' | s m.
        s \<in> set specs \<and> m \<in> set (run_after s) \<and> m \<notin> handler ` set specs}"
  unfolding missing_diagnostics_def Let_def by (auto simp: image_iff)

lemma missing_diagnostics_Nil: "missing_diagnostics specs = [] \<longleftrightarrow> declared specs"
  unfolding declared_def set_empty [symmetric] missing_diagnostics_set by auto

text \<open>The explicit constraints, as a relation between known handlers.\<close>

definition order_edges :: "OrderingSpec list \<Rightarrow> (string \<times> string) set" where
  "order_edges specs =
     (\<Union>s \<in> set specs. set (spec_edges s)) \<inter> (handler ` set specs) \<times> (handler ` set specs)"

interpretation order_graph: kahn_graph "handler ` set specs" "order_edges specs" for specs
  by unfold_locales (auto simp: order_edges_def)

lemma declared_edges:
  "declared specs \<Longrightarrow> (\<Union>s \<in> set specs. set (spec_edges s)) = order_edges specs"
  by (auto simp: declared_def order_edges_def spec_edges_def)

lemma fmlookup_init_map: "fmlookup (init_map K v) h = (if h |\<in>| K then Some v else None)"
  by (auto simp: init_map_def fmlookup_of_list map_of_map_restrict)

definition edge_maps :: "string set \<Rightarrow> (string \<times> string) set \<Rightarrow> outgoing \<times> incoming \<Rightarrow> bool" where
  "edge_maps K F st \<longleftrightarrow>
     (\<forall>h. fmlookup (fst st) h = None \<longleftrightarrow> h \<notin> K) \<and>
     (\<forall>h ts. fmlookup (fst st) h = Some ts \<longrightarrow> fset ts = {t. (h, t) \<in> F}) \<and>
     (\<forall>h. fmlookup (snd st) h = (if h \<in> K then Some (card {s. (s, h) \<in> F}) else None))"

lemma edge_maps_insert:
  assumes st: "edge_maps K F st" and K: "a \<in> K" "b \<in> K" and fin: "finite F"
  shows "edge_maps K (insert (a, b) F) (add_edge a b st)"
proof -
  obtain outg inc where [simp]: "st = (outg, inc)" by fastforce
  from st K obtain ts where ts: "fmlookup outg a = Some ts" "fset ts = {t. (a, t) \<in> F}"
    unfolding edge_maps_def by fastforce
  have preds: "{s. (s, h) \<in> insert (a, b) F} = (if h = b then insert a {s. (s, b) \<in> F} else {s. (s, h) \<in> F})"
    and succs: "{t. (h, t) \<in> insert (a, b) F} = (if h = a then insert b {t. (a, t) \<in> F} else {t. (h, t) \<in> F})"
    for h by auto
  have "finite {s. (s, b) \<in> F}"
    by (rule finite_subset [OF _ finite_imageI [OF fin, of fst]]) force
  then have card: "card (insert a {s. (s, b) \<in> F}) =
      (if (a, b) \<in> F then card {s. (s, b) \<in> F} else Suc (card {s. (s, b) \<in> F}))"
    by (simp add: insert_absorb)
  show ?thesis
  proof (cases "(a, b) \<in> F")
    case True
    then have "b |\<in>| ts" and "insert (a, b) F = F" using ts by auto
    then show ?thesis using st ts by (simp add: add_edge_def)
  next
    case False
    then have "b |\<notin>| ts" using ts by auto
    then show ?thesis
      using st ts K False unfolding edge_maps_def preds succs
      by (simp add: add_edge_def card)
  qed
qed

lemma edge_maps_fold:
  "edge_maps K F st \<Longrightarrow> set es \<subseteq> K \<times> K \<Longrightarrow> finite F \<Longrightarrow>
   edge_maps K (F \<union> set es) (fold (\<lambda>(a, b). add_edge a b) es st)"
proof (induction es arbitrary: F st)
  case Nil
  then show ?case by simp
next
  case (Cons e es)
  obtain a b where e: "e = (a, b)" by fastforce
  then have "edge_maps K (insert (a, b) F) (add_edge a b st)"
    using Cons.prems by (intro edge_maps_insert) auto
  then have "edge_maps K (insert (a, b) F \<union> set es) (fold (\<lambda>(a, b). add_edge a b) es (add_edge a b st))"
    using Cons.prems by (intro Cons.IH) auto
  then show ?case by (simp add: e)
qed

lemma fold_fold_concat: "fold (\<lambda>s. fold f (g s)) xs = fold f (concat (map g xs))"
  by (induction xs) (auto simp: fold_append)

lemma build_edges_maps:
  assumes "declared specs"
  shows "edge_maps (handler ` set specs) (order_edges specs) (build_edges specs)"
proof -
  let ?K = "handler ` set specs"
  have "set (concat (map spec_edges specs)) = order_edges specs"
    using declared_edges [OF assms] by simp
  moreover have "edge_maps ?K {} (init_map (known_handlers specs) {||}, init_map (known_handlers specs) 0)"
    by (auto simp: edge_maps_def fmlookup_init_map)
  moreover have "order_edges specs \<subseteq> ?K \<times> ?K" by (auto simp: order_edges_def)
  ultimately show ?thesis
    using edge_maps_fold [of ?K "{}" _ "concat (map spec_edges specs)"]
    unfolding build_edges_def fold_fold_concat by simp
qed

lemma specs_by_id_snoc: "specs_by_id (specs @ [s]) = fmupd (handler s) s (specs_by_id specs)"
  by (simp add: specs_by_id_def)

lemma specs_by_id_Some: "fmlookup (specs_by_id specs) h = Some s \<Longrightarrow> s \<in> set specs \<and> handler s = h"
  by (induction specs rule: rev_induct) (auto simp: specs_by_id_snoc specs_by_id_def split: if_splits)

lemma specs_by_id_None: "fmlookup (specs_by_id specs) h = None \<longleftrightarrow> h \<notin> handler ` set specs"
  by (induction specs rule: rev_induct) (auto simp: specs_by_id_snoc specs_by_id_def)

text \<open>The key under which a known handler waits.\<close>

definition handler_key :: "OrderingSpec list \<Rightarrow> string \<Rightarrow> ReadyKey" where
  "handler_key specs h = ready_key (the (fmlookup (specs_by_id specs) h))"

lemma key_handler_handler_key:
  "h \<in> handler ` set specs \<Longrightarrow> key_handler (handler_key specs h) = h"
  using specs_by_id_None [of specs h] specs_by_id_Some [of specs h]
  by (cases "fmlookup (specs_by_id specs) h") (auto simp: handler_key_def)

lemma inj_on_handler_key: "inj_on (handler_key specs) (handler ` set specs)"
  by (rule inj_onI) (metis key_handler_handler_key)

lemma make_ready_known:
  "h \<in> handler ` set specs \<Longrightarrow>
   make_ready (specs_by_id specs) h ready = finsert (handler_key specs h) ready"
  using specs_by_id_None [of specs h]
  by (cases "fmlookup (specs_by_id specs) h") (auto simp: make_ready_def handler_key_def)

section \<open>The ready loop\<close>

lemma release_targets_Some:
  assumes "distinct ts" and "set ts \<subseteq> handler ` set specs"
    and "\<And>t. t \<in> set ts \<Longrightarrow> \<exists>n. fmlookup inc t = Some (Suc n)"
  shows "\<exists>inc' ready'. release_targets (specs_by_id specs) ts (inc, ready) = Some (inc', ready') \<and>
    (\<forall>h. fmlookup inc' h =
       (if h \<in> set ts then map_option (\<lambda>n. n - 1) (fmlookup inc h) else fmlookup inc h)) \<and>
    fset ready' = fset ready \<union> handler_key specs ` {t \<in> set ts. fmlookup inc t = Some 1}"
  using assms
proof (induction ts arbitrary: inc ready)
  case Nil
  then show ?case by simp
next
  case (Cons t ts)
  then obtain n where n: "fmlookup inc t = Some (Suc n)" by (metis list.set_intros(1))
  let ?ready = "if n = 0 then finsert (handler_key specs t) ready else ready"
  have key: "make_ready (specs_by_id specs) t ready = finsert (handler_key specs t) ready"
    using Cons.prems by (intro make_ready_known) auto
  have other: "fmlookup (fmupd t n inc) u = fmlookup inc u" if "u \<in> set ts" for u
    using that Cons.prems(1) by auto
  obtain inc' ready' where
    run: "release_targets (specs_by_id specs) ts (fmupd t n inc, ?ready) = Some (inc', ready')"
    and inc': "\<And>h. fmlookup inc' h = (if h \<in> set ts then map_option (\<lambda>n. n - 1) (fmlookup (fmupd t n inc) h)
        else fmlookup (fmupd t n inc) h)"
    and ready': "fset ready' = fset ?ready \<union>
        handler_key specs ` {u \<in> set ts. fmlookup (fmupd t n inc) u = Some 1}"
    using Cons.IH [of "fmupd t n inc" ?ready] Cons.prems other by force
  have "{u \<in> set ts. fmlookup (fmupd t n inc) u = Some 1} = {u \<in> set ts. fmlookup inc u = Some 1}"
    by (intro Collect_cong conj_cong) (simp_all only: other)
  then have "fset ready' = fset ready \<union> handler_key specs ` {u \<in> set (t # ts). fmlookup inc u = Some 1}"
    using ready' n by (auto split: if_splits)
  moreover have "release_targets (specs_by_id specs) (t # ts) (inc, ready) = Some (inc', ready')"
    using run n key by (simp split: if_splits)
  moreover have "fmlookup inc' h = (if h \<in> set (t # ts) then map_option (\<lambda>n. n - 1) (fmlookup inc h)
      else fmlookup inc h)" for h
    using inc' [of h] n Cons.prems(1) by auto
  ultimately show ?case by blast
qed

definition loop_inv ::
  "OrderingSpec list \<Rightarrow> string list \<Rightarrow> incoming \<Rightarrow> ReadyKey fset \<Rightarrow> bool" where
  "loop_inv specs hs inc ready \<longleftrightarrow>
     (\<exists>R. kahn_inv (handler ` set specs) (order_edges specs) hs (\<lambda>h. the (fmlookup inc h)) R \<and>
          fset ready = handler_key specs ` R) \<and>
     (\<forall>h. fmlookup inc h = None \<longleftrightarrow> h \<notin> handler ` set specs) \<and>
     greedy_prefix (handler ` set specs) (order_edges specs) (handler_key specs) hs"

lemma loop_inv_init:
  assumes "declared specs"
  shows "loop_inv specs [] (snd (build_edges specs))
    (initial_ready (specs_by_id specs) (snd (build_edges specs)))"
proof -
  let ?K = "handler ` set specs" and ?inc = "snd (build_edges specs)"
  have inc: "fmlookup ?inc h = (if h \<in> ?K then Some (card {s. (s, h) \<in> order_edges specs}) else None)" for h
    using build_edges_maps [OF assms] unfolding edge_maps_def by blast
  have "fset (fold (\<lambda>(h, c) ready. if c = 0 then make_ready (specs_by_id specs) h ready else ready) xs r) =
      fset r \<union> handler_key specs ` {h. (h, 0) \<in> set xs}"
    if "fst ` set xs \<subseteq> ?K" for xs :: "(string \<times> nat) list" and r
    using that
  proof (induction xs arbitrary: r)
    case Nil
    then show ?case by simp
  next
    case (Cons x xs)
    obtain h c where "x = (h, c)" by fastforce
    with Cons show ?case by (auto simp: make_ready_known)
  qed
  moreover have "fst ` set (sorted_list_of_fmap ?inc) \<subseteq> ?K"
    using inc by (auto simp: sorted_list_of_fmap_iff split: if_splits)
  ultimately have "fset (initial_ready (specs_by_id specs) ?inc) =
      handler_key specs ` {h. fmlookup ?inc h = Some 0}"
    unfolding initial_ready_def by (simp add: sorted_list_of_fmap_iff)
  also have "{h. fmlookup ?inc h = Some 0} = {h \<in> ?K. the (fmlookup ?inc h) = 0}"
    using inc by (auto split: if_splits)
  finally have ready: "fset (initial_ready (specs_by_id specs) ?inc) =
      handler_key specs ` {h \<in> ?K. the (fmlookup ?inc h) = 0}" .
  have "kahn_inv ?K (order_edges specs) [] (\<lambda>h. the (fmlookup ?inc h)) {h \<in> ?K. the (fmlookup ?inc h) = 0}"
    by (rule order_graph.init) (simp_all add: inc)
  moreover have "greedy_prefix ?K (order_edges specs) (handler_key specs) []"
    by (simp add: greedy_prefix_def)
  ultimately show ?thesis using ready inc unfolding loop_inv_def by auto
qed

lemma loop_inv_step:
  assumes maps: "edge_maps (handler ` set specs) (order_edges specs) (outg, inc0)"
    and inv: "loop_inv specs hs inc ready" and pop: "pop_first ready = Some (k, rest)"
  shows "\<exists>ts inc' ready'. fmlookup outg (key_handler k) = Some ts \<and>
    release_targets (specs_by_id specs) (sorted_list_of_fset ts) (inc, rest) = Some (inc', ready') \<and>
    loop_inv specs (hs @ [key_handler k]) inc' ready'"
proof -
  let ?K = "handler ` set specs" and ?E = "order_edges specs" and ?key = "handler_key specs"
  obtain R where kahn: "kahn_inv ?K ?E hs (\<lambda>h. the (fmlookup inc h)) R" and ready: "fset ready = ?key ` R"
    and dom: "\<And>h. fmlookup inc h = None \<longleftrightarrow> h \<notin> ?K"
    and greedy: "greedy_prefix ?K ?E ?key hs"
    using inv unfolding loop_inv_def by blast
  have k: "k |\<in>| ready" and least: "\<And>l. l |\<in>| ready \<Longrightarrow> k \<le> l" and rest: "rest = ready |-| {|k|}"
    using pop by (auto simp: pop_first_Some)
  then obtain n where n: "n \<in> R" "k = ?key n" using ready by auto
  note emit = order_graph.ready_emittable [OF kahn n(1)]
  have R: "R \<subseteq> ?K" using kahn by (auto simp: kahn_inv_def)
  have h: "key_handler k = n" using n emit by (simp add: key_handler_handler_key)
  obtain ts where ts: "fmlookup outg n = Some ts" "fset ts = {t. (n, t) \<in> ?E}"
    using maps emit(1) unfolding edge_maps_def by fastforce
  have pos: "\<exists>m. fmlookup inc t = Some (Suc m)" if "(n, t) \<in> ?E" for t
  proof -
    have "t \<in> ?K" using that by (auto simp: order_edges_def)
    then obtain m where "fmlookup inc t = Some m" using dom by (metis option.exhaust)
    moreover have "0 < the (fmlookup inc t)" by (rule order_graph.no_underflow [OF kahn n(1) that])
    ultimately show ?thesis by (cases m) auto
  qed
  obtain inc' ready' where
    run: "release_targets (specs_by_id specs) (sorted_list_of_fset ts) (inc, rest) = Some (inc', ready')"
    and inc': "\<And>h. fmlookup inc' h = (if (n, h) \<in> ?E then map_option (\<lambda>m. m - 1) (fmlookup inc h) else fmlookup inc h)"
    and ready': "fset ready' = fset rest \<union> ?key ` {t. (n, t) \<in> ?E \<and> fmlookup inc t = Some 1}"
    using release_targets_Some [of "sorted_list_of_fset ts" specs inc rest] ts(2) pos
    by (force simp: order_edges_def sorted_list_of_fset.rep_eq)
  let ?R' = "(R - {n}) \<union> {t. (n, t) \<in> ?E \<and> the (fmlookup inc t) = 1}"
  have "kahn_inv ?K ?E (hs @ [n]) (\<lambda>h. the (fmlookup inc' h)) ?R'"
    by (rule order_graph.step [OF kahn n(1)]) (auto simp: inc' dest: pos)
  moreover have "fset ready' = ?key ` ?R'"
  proof -
    have "fset rest = ?key ` (R - {n})"
      using rest ready n R inj_on_handler_key [of specs] by (auto dest: inj_onD)
    moreover have "{t. (n, t) \<in> ?E \<and> fmlookup inc t = Some 1} = {t. (n, t) \<in> ?E \<and> the (fmlookup inc t) = 1}"
      using pos by fastforce
    ultimately show ?thesis using ready' by (simp add: image_Un)
  qed
  moreover have "fmlookup inc' h = None \<longleftrightarrow> h \<notin> ?K" for h using dom [of h] inc' [of h] by simp
  moreover have "greedy_prefix ?K ?E ?key (hs @ [n])"
  proof (rule greedy_prefix_snoc [OF greedy])
    fix g assume g: "g \<in> ?K - set hs" "\<forall>s. (s, g) \<in> ?E \<longrightarrow> s \<in> set hs"
    then have "waiting ?E hs g = {}" by (auto simp: waiting_def)
    moreover have "the (fmlookup inc g) = card (waiting ?E hs g)" and "R = {t \<in> ?K. t \<notin> set hs \<and> the (fmlookup inc t) = 0}"
      using kahn g(1) unfolding kahn_inv_def by blast+
    ultimately have "g \<in> R" using g(1) by simp
    then show "?key n \<le> ?key g" using least [of "?key g"] ready n(2) by auto
  qed
  ultimately have "loop_inv specs (hs @ [n]) inc' ready'" unfolding loop_inv_def by blast
  with ts(1) run h show ?thesis by blast
qed

lemma ready_loop_correct:
  assumes "edge_maps (handler ` set specs) (order_edges specs) (outg, inc0)"
    and "loop_inv specs hs inc ready"
  shows "\<exists>hs' inc'. ready_loop outg (specs_by_id specs) hs inc ready = Some (hs', inc') \<and>
    loop_inv specs hs' inc' {||}"
  using assms
proof (induction outg "specs_by_id specs" hs inc ready rule: ready_loop.induct)
  case (1 outg hs inc ready)
  show ?case
  proof (cases "pop_first ready")
    case None
    then have "ready = {||}" by (simp add: pop_first_def split: if_splits)
    with "1.prems"(2) show ?thesis by (simp add: ready_loop.simps [of outg] pop_first_def)
  next
    case (Some kr)
    obtain k rest where kr: "kr = (k, rest)" by fastforce
    from loop_inv_step [OF "1.prems"] Some kr obtain ts inc' ready' where
      step: "fmlookup outg (key_handler k) = Some ts"
        "release_targets (specs_by_id specs) (sorted_list_of_fset ts) (inc, rest) = Some (inc', ready')"
        "loop_inv specs (hs @ [key_handler k]) inc' ready'"
      by blast
    then have "\<exists>hs' inc''. ready_loop outg (specs_by_id specs) (hs @ [key_handler k]) inc' ready' = Some (hs', inc'') \<and>
        loop_inv specs hs' inc'' {||}"
      using "1.hyps" [OF Some kr [symmetric] refl refl] "1.prems"(1) by simp
    then show ?thesis
      using Some kr step by (simp add: ready_loop.simps [of outg _ hs inc])
  qed
qed

section \<open>The cycle search\<close>

definition out_rel :: "outgoing \<Rightarrow> string fset \<Rightarrow> (string \<times> string) set" where
  "out_rel outg U =
     {(a, b). a |\<in>| U \<and> b |\<in>| U \<and> (\<exists>ts. fmlookup outg a = Some ts \<and> b |\<in>| ts)}"

text \<open>
  The state of the depth-first search: \<open>visiting\<close> is a path, and the nodes that are
  visited but no longer on it are closed under edges and contain no cycle.
\<close>

definition dfs_inv :: "(string \<times> string) set \<Rightarrow> string fset \<Rightarrow> string list \<Rightarrow> string fset \<Rightarrow> bool" where
  "dfs_inv R U visiting visited \<longleftrightarrow>
     distinct visiting \<and> set visiting \<subseteq> fset U \<and> set visiting \<subseteq> fset visited \<and>
     successively (\<lambda>a b. (a, b) \<in> R) visiting \<and>
     (let F = fset visited - set visiting in R `` F \<subseteq> F \<and> acyclic (R \<inter> F \<times> F))"

fun found_or :: "(string \<times> string) set \<Rightarrow> (string fset \<Rightarrow> bool) \<Rightarrow> visit_result \<Rightarrow> bool" where
  "found_or R Q None = False"
| "found_or R Q (Some (Some p, visited)) = closed_path R p"
| "found_or R Q (Some (None, visited)) = Q visited"

lemma found_or_mono: "found_or R P r \<Longrightarrow> (\<And>v. P v \<Longrightarrow> Q v) \<Longrightarrow> found_or R Q r"
  by (cases "(R, P, r)" rule: found_or.cases) auto

lemma position_None: "position x xs = None \<longleftrightarrow> x \<notin> set xs"
  by (induction xs) auto

lemma position_Some: "position x xs = Some i \<Longrightarrow> i < length xs \<and> xs ! i = x"
  by (induction xs arbitrary: i) (auto split: if_splits)

lemma dfs_length: "dfs_inv R U visiting visited \<Longrightarrow> length visiting \<le> fcard U"
  by (metis card_mono dfs_inv_def distinct_card fcard.rep_eq finite_fset)

lemma successively_drop: "successively P xs \<Longrightarrow> successively P (drop i xs)"
  by (metis append_take_drop_id successively_append_iff)

lemma dfs_closes:
  assumes inv: "dfs_inv R U visiting visited" and edge: "(last visiting, node) \<in> R"
    and pos: "position node visiting = Some i"
  shows "closed_path R (drop i visiting @ [node])"
proof -
  have i: "i < length visiting" "visiting ! i = node" using position_Some [OF pos] by auto
  then have "drop i visiting \<noteq> []" "hd (drop i visiting) = node" by (auto simp: hd_drop_conv_nth)
  moreover have "successively (\<lambda>a b. (a, b) \<in> R) (drop i visiting)"
    using inv by (auto simp: dfs_inv_def intro: successively_drop)
  ultimately show ?thesis
    using edge i(1) by (auto simp: closed_path_def successively_append_iff Suc_le_eq)
qed

lemma dfs_enter:
  assumes "dfs_inv R U visiting visited" and "node |\<in>| U" and "node |\<notin>| visited"
    and "visiting \<noteq> [] \<Longrightarrow> (last visiting, node) \<in> R"
  shows "dfs_inv R U (visiting @ [node]) (finsert node visited)"
proof -
  have "insert node (fset visited) - set (visiting @ [node]) = fset visited - set visiting"
    using assms(3) by auto
  then show ?thesis
    using assms unfolding dfs_inv_def by (auto simp: successively_append_iff Let_def)
qed

lemma dfs_leave:
  assumes inv: "dfs_inv R U (visiting @ [node]) visited"
    and succs: "R `` {node} \<subseteq> fset visited - set (visiting @ [node])"
  shows "dfs_inv R U visiting visited" and "node \<in> fset visited - set visiting"
proof -
  let ?F = "fset visited - set (visiting @ [node])"
  show node: "node \<in> fset visited - set visiting" using inv by (auto simp: dfs_inv_def)
  then have F: "fset visited - set visiting = insert node ?F" by auto
  have "R `` ?F \<subseteq> ?F" "acyclic (R \<inter> ?F \<times> ?F)" using inv by (auto simp: dfs_inv_def Let_def)
  then have "acyclic (R \<inter> insert node ?F \<times> insert node ?F)"
    using succs by (intro acyclic_insert_source)
  moreover have "R `` insert node ?F \<subseteq> insert node ?F"
    using \<open>R `` ?F \<subseteq> ?F\<close> succs by blast
  ultimately show "dfs_inv R U visiting visited"
    using inv unfolding dfs_inv_def F Let_def by (auto simp: successively_append_iff)
qed

lemma visit_correct:
  shows "dfs_inv (out_rel outg U) U visiting visited \<Longrightarrow> node |\<in>| U \<Longrightarrow>
      (visiting \<noteq> [] \<Longrightarrow> (last visiting, node) \<in> out_rel outg U) \<Longrightarrow>
      fcard U < fuel + length visiting \<Longrightarrow>
      found_or (out_rel outg U) (\<lambda>visited'. dfs_inv (out_rel outg U) U visiting visited' \<and>
        fset visited \<subseteq> fset visited' \<and> node \<in> fset visited' - set visiting)
        (visit fuel outg U node visiting visited)"
    and "dfs_inv (out_rel outg U) U visiting visited \<Longrightarrow> visiting \<noteq> [] \<Longrightarrow>
      (\<And>t. t \<in> set ts \<Longrightarrow> t |\<in>| U \<Longrightarrow> (last visiting, t) \<in> out_rel outg U) \<Longrightarrow>
      fcard U < fuel + length visiting \<Longrightarrow>
      found_or (out_rel outg U) (\<lambda>visited'. dfs_inv (out_rel outg U) U visiting visited' \<and>
        fset visited \<subseteq> fset visited' \<and> set ts \<inter> fset U \<subseteq> fset visited' - set visiting)
        (visit_targets fuel outg U ts visiting visited)"
proof (induction fuel outg U node visiting visited and fuel outg U ts visiting visited
    rule: visit_visit_targets.induct)
  case (1 outg U node visiting visited)
  then show ?case using dfs_length by fastforce
next
  case (2 fuel outg U node visiting visited)
  show ?case
  proof (cases "position node visiting")
    case (Some i)
    then have "visiting \<noteq> []" by auto
    with Some 2 show ?thesis by (simp add: dfs_closes)
  next
    case None
    then have node: "node \<notin> set visiting" by (simp add: position_None)
    show ?thesis
    proof (cases "node |\<in>| visited")
      case True
      with None node 2 show ?thesis by simp
    next
      case False
      note enter = dfs_enter [OF "2.prems"(1,2) False "2.prems"(3)]
      show ?thesis
      proof (cases "fmlookup outg node")
        case None': None
        have "dfs_inv (out_rel outg U) U visiting (finsert node visited)"
          "node \<in> fset (finsert node visited) - set visiting"
          using dfs_leave [OF enter] None' by (auto simp: out_rel_def)
        then show ?thesis using None None' False by auto
      next
        case (Some targets)
        let ?post = "\<lambda>visited'. dfs_inv (out_rel outg U) U (visiting @ [node]) visited' \<and>
          fset (finsert node visited) \<subseteq> fset visited' \<and>
          set (sorted_list_of_fset targets) \<inter> fset U \<subseteq> fset visited' - set (visiting @ [node])"
        have found: "found_or (out_rel outg U) ?post (visit_targets fuel outg U (sorted_list_of_fset targets)
            (visiting @ [node]) (finsert node visited))"
        proof (rule "2.IH" [OF None False Some enter])
          show "(last (visiting @ [node]), t) \<in> out_rel outg U"
            if "t \<in> set (sorted_list_of_fset targets)" "t |\<in>| U" for t
            using that Some "2.prems"(2) by (simp add: out_rel_def)
        qed (use "2.prems"(4) in simp_all)
        have succs: "out_rel outg U `` {node} \<subseteq> set (sorted_list_of_fset targets) \<inter> fset U"
          using Some by (auto simp: out_rel_def)
        have post: "dfs_inv (out_rel outg U) U visiting visited' \<and>
            fset visited \<subseteq> fset visited' \<and> node \<in> fset visited' - set visiting" if v: "?post visited'" for visited'
        proof -
          have "out_rel outg U `` {node} \<subseteq> fset visited' - set (visiting @ [node])"
            using v succs by blast
          from dfs_leave [OF conjunct1 [OF v] this] v show ?thesis by simp
        qed
        have "visit (Suc fuel) outg U node visiting visited =
            visit_targets fuel outg U (sorted_list_of_fset targets) (visiting @ [node]) (finsert node visited)"
          using None False Some by simp
        then show ?thesis using found_or_mono [OF found post] by simp
      qed
    qed
  qed
next
  case (3 fuel outg U visiting visited)
  then show ?case by simp
next
  case (4 fuel outg U t ts visiting visited)
  show ?case
  proof (cases "t |\<in>| U")
    case False
    then have "set (t # ts) \<inter> fset U = set ts \<inter> fset U" by auto
    with False 4 show ?thesis by simp
  next
    case True
    have head: "found_or (out_rel outg U) (\<lambda>visited'. dfs_inv (out_rel outg U) U visiting visited' \<and>
        fset visited \<subseteq> fset visited' \<and> t \<in> fset visited' - set visiting)
        (visit fuel outg U t visiting visited)"
      using "4.prems" True by (intro "4.IH"(1)) auto
    show ?thesis
    proof (cases "visit fuel outg U t visiting visited")
      case None
      with head show ?thesis by simp
    next
      case (Some r)
      obtain c visited' where r: "r = (c, visited')" by fastforce
      show ?thesis
      proof (cases c)
        case None
        have "found_or (out_rel outg U) (\<lambda>v. dfs_inv (out_rel outg U) U visiting v \<and>
            fset visited' \<subseteq> fset v \<and> set ts \<inter> fset U \<subseteq> fset v - set visiting)
            (visit_targets fuel outg U ts visiting visited')"
          using "4.prems" head Some r None by (intro "4.IH"(2) [OF True]) auto
        then have "found_or (out_rel outg U) (\<lambda>v. dfs_inv (out_rel outg U) U visiting v \<and>
            fset visited \<subseteq> fset v \<and> set (t # ts) \<inter> fset U \<subseteq> fset v - set visiting)
            (visit_targets fuel outg U ts visiting visited')"
          by (rule found_or_mono) (use head Some r None in auto)
        then show ?thesis using Some r None True by simp
      next
        case (Some p)
        with head \<open>visit fuel outg U t visiting visited = Some r\<close> r True show ?thesis by simp
      qed
    qed
  qed
qed

lemma visit_roots_correct:
  assumes "dfs_inv (out_rel outg U) U [] visited" and "set nodes \<subseteq> fset U" and "fcard U < fuel"
  shows "found_or (out_rel outg U) (\<lambda>visited'. dfs_inv (out_rel outg U) U [] visited' \<and>
      fset visited \<union> set nodes \<subseteq> fset visited') (visit_roots fuel outg U nodes visited)"
  using assms
proof (induction nodes arbitrary: visited)
  case Nil
  then show ?case by simp
next
  case (Cons node nodes)
  have head: "found_or (out_rel outg U) (\<lambda>v. dfs_inv (out_rel outg U) U [] v \<and>
      fset visited \<subseteq> fset v \<and> node \<in> fset v - set []) (visit fuel outg U node [] visited)"
    using Cons.prems by (intro visit_correct(1)) auto
  show ?case
  proof (cases "visit fuel outg U node [] visited")
    case None
    with head show ?thesis by simp
  next
    case (Some r)
    obtain c v where r: "r = (c, v)" by fastforce
    show ?thesis
    proof (cases c)
      case None
      have "found_or (out_rel outg U) (\<lambda>v'. dfs_inv (out_rel outg U) U [] v' \<and>
          fset v \<union> set nodes \<subseteq> fset v') (visit_roots fuel outg U nodes v)"
        using Cons.prems head Some r None by (intro Cons.IH) auto
      then have "found_or (out_rel outg U) (\<lambda>v'. dfs_inv (out_rel outg U) U [] v' \<and>
          fset visited \<union> set (node # nodes) \<subseteq> fset v') (visit_roots fuel outg U nodes v)"
        by (rule found_or_mono) (use head Some r None in auto)
      then show ?thesis using Some r None by simp
    next
      case (Some p)
      with head \<open>visit fuel outg U node [] visited = Some r\<close> r show ?thesis by simp
    qed
  qed
qed

lemma find_cycle_correct:
  assumes "\<not> acyclic (out_rel outg U)"
  shows "\<exists>p. find_cycle outg U = Some p \<and> closed_path (out_rel outg U) p"
proof -
  let ?r = "visit_roots (Suc (fcard U)) outg U (sorted_list_of_fset U) {||}"
  have found: "found_or (out_rel outg U) (\<lambda>v. dfs_inv (out_rel outg U) U [] v \<and>
      fset {||} \<union> set (sorted_list_of_fset U) \<subseteq> fset v) ?r"
    by (rule visit_roots_correct) (auto simp: dfs_inv_def acyclic_def)
  have "\<not> (dfs_inv (out_rel outg U) U [] v \<and> fset {||} \<union> set (sorted_list_of_fset U) \<subseteq> fset v)" for v
  proof
    assume *: "dfs_inv (out_rel outg U) U [] v \<and> fset {||} \<union> set (sorted_list_of_fset U) \<subseteq> fset v"
    then have "out_rel outg U \<subseteq> out_rel outg U \<inter> fset v \<times> fset v" by (auto simp: out_rel_def)
    moreover have "acyclic (out_rel outg U \<inter> fset v \<times> fset v)" using * by (simp add: dfs_inv_def Let_def)
    ultimately show False using assms acyclic_subset by blast
  qed
  with found obtain p v where "?r = Some (Some p, v)" "closed_path (out_rel outg U) p"
    by (cases "(out_rel outg U, \<lambda>v::string fset. False, ?r)" rule: found_or.cases) auto
  then show ?thesis by (simp add: find_cycle_def)
qed

section \<open>The specification\<close>

text \<open>
  The order the pipeline promises: every registered handler once, every explicit
  constraint respected, and at each position the least handler, by stage, descending
  priority, plugin and handler identifier, among those all of whose predecessors ran.
\<close>

definition greedy_order :: "OrderingSpec list \<Rightarrow> string list \<Rightarrow> bool" where
  "greedy_order specs xs \<longleftrightarrow>
     set xs = handler ` set specs \<and> topo_prefix (order_edges specs) xs \<and>
     (\<forall>i < length xs. \<forall>s \<in> set specs. \<forall>t \<in> set specs.
        handler s = xs ! i \<and> handler t \<notin> set (take i xs) \<and>
        (\<forall>u. (u, handler t) \<in> order_edges specs \<longrightarrow> u \<in> set (take i xs)) \<longrightarrow>
        ready_key s \<le> ready_key t)"

lemma handler_key_eq:
  assumes "distinct (map handler specs)" and "s \<in> set specs"
  shows "handler_key specs (handler s) = ready_key s"
proof -
  obtain t where t: "fmlookup (specs_by_id specs) (handler s) = Some t"
    using specs_by_id_None [of specs "handler s"] assms(2) by fastforce
  then have "t = s"
    using specs_by_id_Some [OF t] assms by (metis distinct_map inj_onD)
  with t show ?thesis by (simp add: handler_key_def)
qed

lemma greedy_order_iff:
  assumes dist: "distinct (map handler specs)"
  shows "greedy_order specs xs \<longleftrightarrow> set xs = handler ` set specs \<and> topo_prefix (order_edges specs) xs \<and>
    greedy_prefix (handler ` set specs) (order_edges specs) (handler_key specs) xs"
proof -
  have least: "(\<forall>s \<in> set specs. \<forall>t \<in> set specs. handler s = x \<and> handler t \<notin> D \<and> P (handler t) \<longrightarrow>
        ready_key s \<le> ready_key t) \<longleftrightarrow>
      (\<forall>h \<in> handler ` set specs - D. P h \<longrightarrow> handler_key specs x \<le> handler_key specs h)"
    if x: "x \<in> handler ` set specs" for x D P
  proof -
    obtain s where s: "s \<in> set specs" "handler s = x" using x by blast
    then have "u = s" if "u \<in> set specs" "handler u = x" for u
      using dist that by (metis distinct_map inj_onD)
    then have "(\<forall>s \<in> set specs. \<forall>t \<in> set specs. handler s = x \<and> handler t \<notin> D \<and> P (handler t) \<longrightarrow>
        ready_key s \<le> ready_key t) \<longleftrightarrow>
      (\<forall>t \<in> set specs. handler t \<notin> D \<and> P (handler t) \<longrightarrow> ready_key s \<le> ready_key t)"
      using s by blast
    also have "\<dots> \<longleftrightarrow> (\<forall>t \<in> set specs. handler t \<notin> D \<and> P (handler t) \<longrightarrow>
        handler_key specs x \<le> handler_key specs (handler t))"
      using s handler_key_eq [OF dist] by auto
    finally show ?thesis by blast
  qed
  have "(\<forall>s \<in> set specs. \<forall>t \<in> set specs. handler s = xs ! i \<and> handler t \<notin> set (take i xs) \<and>
        (\<forall>u. (u, handler t) \<in> order_edges specs \<longrightarrow> u \<in> set (take i xs)) \<longrightarrow> ready_key s \<le> ready_key t) \<longleftrightarrow>
      (\<forall>h \<in> handler ` set specs - set (take i xs). (\<forall>u. (u, h) \<in> order_edges specs \<longrightarrow> u \<in> set (take i xs)) \<longrightarrow>
        handler_key specs (xs ! i) \<le> handler_key specs h)"
    if "set xs = handler ` set specs" "i < length xs" for i
    by (rule least [of "xs ! i"]) (metis nth_mem that)
  then show ?thesis
    unfolding greedy_order_def greedy_prefix_def by (intro conj_cong refl all_cong1 imp_cong) simp_all
qed

lemma greedy_order_unique:
  "distinct (map handler specs) \<Longrightarrow> greedy_order specs xs \<Longrightarrow> greedy_order specs ys \<Longrightarrow> xs = ys"
  unfolding greedy_order_iff
  by (rule greedy_topo_unique [OF _ _ _ _ _ _ inj_on_handler_key [of specs]]) auto

lemma greedy_order_mset: "mset specs = mset specs' \<Longrightarrow> greedy_order specs = greedy_order specs'"
  unfolding greedy_order_def order_edges_def fun_eq_iff by (drule mset_eq_setD) (simp only: simp_thms)

section \<open>Compilation\<close>

lemma order_declared_cases:
  assumes dist: "distinct (map handler specs)" and decl: "declared specs"
  shows "if acyclic (order_edges specs) then \<exists>xs. order_declared specs = Some (Ok xs) \<and> greedy_order specs xs
    else \<exists>p. order_declared specs = Some (Err [OrderingCycle p]) \<and> closed_path (order_edges specs) p"
proof -
  let ?K = "handler ` set specs" and ?E = "order_edges specs"
  obtain outg inc where maps: "build_edges specs = (outg, inc)" by fastforce
  then have edges: "edge_maps ?K ?E (outg, inc)" using build_edges_maps [OF decl] by simp
  obtain hs inc' where loop: "ready_loop outg (specs_by_id specs) [] inc (initial_ready (specs_by_id specs) inc) = Some (hs, inc')"
    and inv: "loop_inv specs hs inc' {||}"
    using ready_loop_correct [OF edges] loop_inv_init [OF decl] maps by force
  then have kahn: "kahn_inv ?K ?E hs (\<lambda>h. the (fmlookup inc' h)) {}"
    and dom: "\<And>h. fmlookup inc' h = None \<longleftrightarrow> h \<notin> ?K"
    and greedy: "greedy_prefix ?K ?E (handler_key specs) hs"
    unfolding loop_inv_def by auto
  have hs: "set hs \<subseteq> ?K" "distinct hs" "topo_prefix ?E hs"
    using kahn by (auto simp: kahn_inv_def topo_prefix_def)
  have "card ?K = length specs" using dist by (metis distinct_card length_map list.set_map)
  then have full: "length hs = length specs \<longleftrightarrow> set hs = ?K"
    using hs by (metis card_subset_eq distinct_card finite_imageI List.finite_set)
  let ?U = "fset_of_list (map fst (filter (\<lambda>(_, c). 0 < c) (sorted_list_of_fmap inc')))"
  have "fset ?U = {h. \<exists>c. fmlookup inc' h = Some c \<and> 0 < c}"
    by (force simp: fset_of_list.rep_eq sorted_list_of_fmap_iff)
  also have "\<dots> = {t \<in> ?K. 0 < the (fmlookup inc' t)}"
  proof (intro Collect_cong)
    show "(\<exists>c. fmlookup inc' h = Some c \<and> 0 < c) \<longleftrightarrow> h \<in> ?K \<and> 0 < the (fmlookup inc' h)" for h
      using dom [of h] by (cases "fmlookup inc' h") (simp_all del: image_iff)
  qed
  also have "\<dots> = ?K - set hs" using order_graph.stuck_complete(1) [OF kahn] by simp
  finally have U: "fset ?U = ?K - set hs" .
  have rel: "out_rel outg ?U = ?E \<inter> (?K - set hs) \<times> (?K - set hs)"
    using edges unfolding out_rel_def U edge_maps_def by fastforce
  show ?thesis
  proof (cases "set hs = ?K")
    case True
    then show ?thesis
      using order_graph.stuck_iff [OF kahn] loop maps full hs greedy
      by (simp add: order_declared_def greedy_order_iff [OF dist])
  next
    case False
    then have "?K - set hs \<noteq> {}" using hs(1) by blast
    then have "\<not> acyclic (out_rel outg ?U)"
      unfolding rel by (rule order_graph.stuck_cyclic [OF kahn])
    then obtain p where p: "find_cycle outg ?U = Some p" "closed_path (out_rel outg ?U) p"
      using find_cycle_correct by blast
    then have "closed_path ?E p" using rel by (auto intro: closed_path_mono)
    then show ?thesis
      using p(1) False full loop maps order_graph.stuck_iff [OF kahn] by (simp add: order_declared_def)
  qed
qed

lemma compile_order_Ok:
  "(\<exists>r. compile_order specs = Some r) \<and>
   (compile_order specs = Some (Ok xs) \<longleftrightarrow>
      distinct (map handler specs) \<and> declared specs \<and> greedy_order specs xs)"
proof (cases "distinct (map handler specs) \<and> declared specs")
  case False
  then show ?thesis
    by (auto simp: compile_order_def Let_def duplicate_diagnostics_Nil missing_diagnostics_Nil)
next
  case True
  then have run: "compile_order specs = order_declared specs"
    by (simp add: compile_order_def duplicate_diagnostics_Nil missing_diagnostics_Nil)
  note cases = order_declared_cases [OF conjunct1 [OF True] conjunct2 [OF True]]
  show ?thesis
  proof (cases "acyclic (order_edges specs)")
    case True': True
    then obtain ys where ys: "order_declared specs = Some (Ok ys)" "greedy_order specs ys"
      using cases by (simp only: if_True) blast
    then have "greedy_order specs xs \<longleftrightarrow> xs = ys" using greedy_order_unique True by blast
    then show ?thesis using ys(1) True by (simp add: run eq_commute)
  next
    case False
    then obtain p where p: "order_declared specs = Some (Err [OrderingCycle p])"
      using cases by (simp only: if_False) blast
    have "\<not> greedy_order specs xs"
    proof
      assume "greedy_order specs xs"
      then have "acyclic (order_edges specs)"
        by (intro topo_prefix_acyclic [of _ xs]) (auto simp: greedy_order_def order_edges_def)
      with False show False ..
    qed
    then show ?thesis using p by (simp add: run)
  qed
qed

text \<open>
  C3. The compiler of the handler order always answers, never underflowing a counter or
  exhausting the depth of its cycle search, and accepts a list of registrations exactly
  when handler identifiers are distinct, every constraint names a registered handler and
  there is an order satisfying the specification; it then returns that order.
\<close>

theorem compile_order_accepts:
  "(\<exists>r. compile_order specs = Some r) \<and>
   (compile_order specs = Some (Ok xs) \<longleftrightarrow>
      distinct (map handler specs) \<and> declared specs \<and> greedy_order specs xs)"
  by (rule compile_order_Ok)

text \<open>
  When the registrations are distinct and declared, the compiler reports a cycle
  exactly when the explicit constraints contain one, and the path it reports is a closed
  walk along explicit constraints.
\<close>

theorem compile_order_cycle:
  assumes "distinct (map handler specs)" and "declared specs"
  shows "(\<not> acyclic (order_edges specs) \<longleftrightarrow>
      (\<exists>p. compile_order specs = Some (Err [OrderingCycle p]))) \<and>
    (\<forall>ds. compile_order specs = Some (Err ds) \<longrightarrow>
      (\<exists>p. ds = [OrderingCycle p] \<and> closed_path (order_edges specs) p))"
proof -
  have "compile_order specs = order_declared specs"
    using assms by (simp add: compile_order_def duplicate_diagnostics_Nil missing_diagnostics_Nil)
  then show ?thesis using order_declared_cases [OF assms] by (auto split: if_splits)
qed

text \<open>
  Diagnostics are complete and precise: when a handler is registered twice or a
  constraint names an unknown handler, the compiler reports one diagnostic for each such
  handler, with its number of registrations, and for each such constraint, and no other,
  sorted by code and text.
\<close>

theorem compile_order_diagnostics:
  assumes "\<not> (distinct (map handler specs) \<and> declared specs)"
  shows "\<exists>ds. compile_order specs = Some (Err ds) \<and>
    set ds = {DuplicateHandler h (count_list (map handler specs) h) | h.
        1 < count_list (map handler specs) h} \<union>
      {MissingDependency (handler s) m ''before'' | s m.
        s \<in> set specs \<and> m \<in> set (run_before s) \<and> m \<notin> handler ` set specs} \<union>
      {MissingDependency (handler s) m ''after'' | s m.
        s \<in> set specs \<and> m \<in> set (run_after s) \<and> m \<notin> handler ` set specs} \<and>
    sorted (map (\<lambda>d. (code d, display d)) ds)"
proof -
  have "compile_order specs =
      Some (Err (sort_diagnostics (duplicate_diagnostics specs @ missing_diagnostics specs)))"
    using assms by (auto simp: compile_order_def Let_def duplicate_diagnostics_Nil missing_diagnostics_Nil)
  then show ?thesis
    using duplicate_diagnostics_set [of specs] missing_diagnostics_set [of specs]
    by (simp add: sort_diagnostics_def Un_assoc)
qed

text \<open>
  The compiled order does not depend on the order in which handlers were registered:
  two lists with the same registrations compile to the same order, or both fail.
\<close>

theorem compile_order_deterministic:
  assumes "mset specs = mset specs'"
  shows "compile_order specs = Some (Ok xs) \<longleftrightarrow> compile_order specs' = Some (Ok xs)"
proof -
  have "distinct (map handler specs) \<longleftrightarrow> distinct (map handler specs')"
    using assms by (metis mset_eq_imp_distinct_iff mset_map)
  moreover have "declared specs \<longleftrightarrow> declared specs'"
    unfolding declared_def mset_eq_setD [OF assms] by (rule refl)
  ultimately show ?thesis
    using compile_order_Ok [of specs xs] compile_order_Ok [of specs' xs]
      greedy_order_mset [OF assms] by simp
qed

section \<open>Witnesses\<close>

definition demo_specs :: "OrderingSpec list" where
  "demo_specs =
     [add_before ''c'' (OrderingSpec_new ''a'' ''p''),
      with_priority 5 (OrderingSpec_new ''b'' ''p''),
      add_after ''b'' (OrderingSpec_new ''c'' ''q'')]"

lemmas demo_simps = demo_specs_def add_before_def add_after_def with_priority_def OrderingSpec_new_def

definition demo_cycle :: "OrderingSpec list" where
  "demo_cycle =
     [add_before ''b'' (OrderingSpec_new ''a'' ''p''), add_before ''a'' (OrderingSpec_new ''b'' ''p'')]"

theorem compile_order_cycle_witness:
  "compile_order demo_cycle = Some (Err [OrderingCycle [''a'', ''b'', ''a'']]) \<and>
   \<not> acyclic (order_edges demo_cycle)"
proof -
  have run: "compile_order demo_cycle = Some (Err [OrderingCycle [''a'', ''b'', ''a'']])" by code_simp
  moreover have "distinct (map handler demo_cycle)" "declared demo_cycle"
    by (auto simp: demo_cycle_def declared_def demo_simps)
  ultimately show ?thesis using compile_order_cycle [of demo_cycle] by blast
qed

theorem compile_order_diagnostics_witness:
  "\<exists>ds. compile_order (demo_specs @ [OrderingSpec_new ''a'' ''z'']) = Some (Err ds) \<and>
     DuplicateHandler ''a'' 2 \<in> set ds"
proof -
  let ?specs = "demo_specs @ [OrderingSpec_new ''a'' ''z'']"
  have "\<not> (distinct (map handler ?specs) \<and> declared ?specs)"
    and n: "count_list (map handler ?specs) ''a'' = 2" by (simp_all add: demo_simps)
  from compile_order_diagnostics [OF this(1)] obtain ds where
    "compile_order ?specs = Some (Err ds)"
    "DuplicateHandler ''a'' (count_list (map handler ?specs) ''a'') \<in> set ds"
    using n by fastforce
  then show ?thesis using n by auto
qed

theorem compile_order_deterministic_witness:
  "compile_order (rev demo_specs) = Some (Ok [''b'', ''a'', ''c''])"
proof -
  have "compile_order demo_specs = Some (Ok [''b'', ''a'', ''c''])" by code_simp
  then show ?thesis using compile_order_deterministic [of "rev demo_specs" demo_specs] by simp
qed

end
