(* ===== verification/Execution.thy ===== *)
theory Execution
  imports Order_Correct "HOL-Library.Word"
begin

text \<open>
  \<^verbatim>\<open>core/event-pipeline/src/decision.rs\<close> and \<^verbatim>\<open>execution.rs\<close>: typed decisions, the bit
  set of capabilities an action supports, and the blocking pipeline that runs handlers in
  compiled order. A handler is code of an embedder: the field \<open>intercept\<close> of a
  registration takes the state of the world and the proposal and returns what the
  \<^verbatim>\<open>timeout\<close> around it yields, with the next state of the world. Durations are only
  measured and recorded by the source and are left out.
\<close>

unbundle bit_operations_syntax

section \<open>Decisions\<close>

datatype ContinuationId = ContinuationId string

datatype ApprovalRequest = ApprovalRequest (summary: string)

datatype WakeCondition = AtUnixMilliseconds "64 word" | CommittedEvent string | Explicit

datatype JoinPolicy = JoinAll | JoinAny | FirstSuccess

datatype 'T Decision =
    Continue 'T
  | Replace 'T
  | Reject (reason: string)
  | RequireApproval ApprovalRequest ContinuationId
  | Defer ContinuationId WakeCondition
  | Cancel (reason: string)
  | Fork "'T list" JoinPolicy

fun decision_kind :: "'T Decision \<Rightarrow> string" where
  "decision_kind (Continue _) = ''continue''"
| "decision_kind (Replace _) = ''replace''"
| "decision_kind (Reject _) = ''reject''"
| "decision_kind (RequireApproval _ _) = ''require-approval''"
| "decision_kind (Defer _ _) = ''defer''"
| "decision_kind (Cancel _) = ''cancel''"
| "decision_kind (Fork _ _) = ''fork''"

datatype DecisionCapability = CapReplace | CapApproval | CapDefer | CapCancel | CapFork

fun capability_bit :: "DecisionCapability \<Rightarrow> u8" where
  "capability_bit CapReplace = push_bit 0 1"
| "capability_bit CapApproval = push_bit 1 1"
| "capability_bit CapDefer = push_bit 2 1"
| "capability_bit CapCancel = push_bit 3 1"
| "capability_bit CapFork = push_bit 4 1"

datatype ActionCapabilities = ActionCapabilities (supported: u8)

definition caps_all :: ActionCapabilities where
  "caps_all = ActionCapabilities
     (capability_bit CapReplace OR capability_bit CapApproval OR capability_bit CapDefer OR
      capability_bit CapCancel OR capability_bit CapFork)"

definition caps_minimal :: ActionCapabilities where
  "caps_minimal = ActionCapabilities 0"

definition caps_with :: "DecisionCapability \<Rightarrow> ActionCapabilities \<Rightarrow> ActionCapabilities" where
  "caps_with c s = ActionCapabilities (supported s OR capability_bit c)"

definition supports :: "ActionCapabilities \<Rightarrow> DecisionCapability \<Rightarrow> bool" where
  "supports s c \<longleftrightarrow> supported s AND capability_bit c \<noteq> 0"

datatype DecisionCapabilityError = DecisionCapabilityError (unsupported: string)

definition capability_error_display :: "DecisionCapabilityError \<Rightarrow> string" where
  "capability_error_display e =
     ''decision `'' @ unsupported e @ ''` is not supported by this action''"

fun decision_supported :: "ActionCapabilities \<Rightarrow> 'T Decision \<Rightarrow> bool" where
  "decision_supported s (Continue _) = True"
| "decision_supported s (Reject _) = True"
| "decision_supported s (Replace _) = supports s CapReplace"
| "decision_supported s (RequireApproval _ _) = supports s CapApproval"
| "decision_supported s (Defer _ _) = supports s CapDefer"
| "decision_supported s (Cancel _) = supports s CapCancel"
| "decision_supported s (Fork _ _) = supports s CapFork"

definition validate :: "ActionCapabilities \<Rightarrow> 'T Decision \<Rightarrow> (unit, DecisionCapabilityError) result" where
  "validate s d =
     (if decision_supported s d then Ok () else Err (DecisionCapabilityError (decision_kind d)))"

text \<open>The interface of a set of capabilities, and the bit set as an instance.\<close>

locale capability_set =
  fixes none :: 's and add :: "'c \<Rightarrow> 's \<Rightarrow> 's" and has :: "'s \<Rightarrow> 'c \<Rightarrow> bool"
  assumes none_empty: "\<not> has none c" and add_has: "has (add c s) d \<longleftrightarrow> c = d \<or> has s d"
begin

lemma has_fold: "has (fold add cs s) d \<longleftrightarrow> d \<in> set cs \<or> has s d"
  by (induction cs arbitrary: s) (auto simp: add_has)

lemma has_exactly: "has (fold add cs none) d \<longleftrightarrow> d \<in> set cs"
  by (simp add: has_fold none_empty)

end

lemma capability_bits: "capability_bit c AND capability_bit d = (if c = d then capability_bit c else 0)"
  by (cases c; cases d) simp_all

lemma capability_bit_nonzero: "capability_bit c \<noteq> 0"
  by (cases c) simp_all

interpretation caps: capability_set caps_minimal caps_with supports
proof
  show "\<not> supports caps_minimal c" for c by (simp add: supports_def caps_minimal_def)
  show "supports (caps_with c s) d \<longleftrightarrow> c = d \<or> supports s d" for c s d
  proof (cases "c = d")
    case True
    have "(supported s OR capability_bit d) AND capability_bit d = capability_bit d"
      by (simp add: bit_eq_iff bit_simps)
    then show ?thesis using True by (simp add: supports_def caps_with_def capability_bit_nonzero)
  next
    case False
    have "(supported s OR capability_bit c) AND capability_bit d = supported s AND capability_bit d"
      using capability_bits [of c d] False by (simp add: bit.conj_disj_distrib2)
    then show ?thesis using False by (simp add: supports_def caps_with_def)
  qed
qed

lemma caps_all_fold: "caps_all = fold caps_with [CapReplace, CapApproval, CapDefer, CapCancel, CapFork] caps_minimal"
  by (simp add: caps_all_def caps_with_def caps_minimal_def)

lemma supports_all [simp]: "supports caps_all c"
  unfolding caps_all_fold caps.has_exactly by (cases c) simp_all

section \<open>Registrations\<close>

datatype InterceptorError = InterceptorError (message: string)

datatype 'T invocation = Returned "('T Decision, InterceptorError) result" | Elapsed

datatype FailurePolicy = PolicyAbort | PolicyReject | PolicyCancel | ContinueUnchanged

record ('T, 'w) InterceptorRegistration =
  ordering :: OrderingSpec
  timeout :: nat
  failure_policy :: FailurePolicy
  intercept :: "'w \<Rightarrow> 'T \<Rightarrow> 'T invocation \<times> 'w"

definition as_millis :: "nat \<Rightarrow> nat" where
  "as_millis nanoseconds = nanoseconds div 1000000"

definition reg_handler :: "('T, 'w) InterceptorRegistration \<Rightarrow> string" where
  "reg_handler r = handler (ordering r)"

definition builder_new :: "('T, 'w) InterceptorRegistration list" where
  "builder_new = []"

definition register ::
  "('T, 'w) InterceptorRegistration \<Rightarrow> ('T, 'w) InterceptorRegistration list \<Rightarrow>
   ('T, 'w) InterceptorRegistration list" where
  "register r regs = regs @ [r]"

definition registrations_by_id ::
  "('T, 'w) InterceptorRegistration list \<Rightarrow> (string, ('T, 'w) InterceptorRegistration) fmap" where
  "registrations_by_id regs = fold (\<lambda>r. fmupd (reg_handler r) r) regs fmempty"

fun remove_in_order :: "string list \<Rightarrow> (string, 'r) fmap \<Rightarrow> 'r list" where
  "remove_in_order [] by_id = []"
| "remove_in_order (h # hs) by_id =
     (case fmlookup by_id h of
        Some r \<Rightarrow> r # remove_in_order hs (fmdrop h by_id)
      | None \<Rightarrow> remove_in_order hs by_id)"

definition compile_pipeline ::
  "('T, 'w) InterceptorRegistration list \<Rightarrow>
   (('T, 'w) InterceptorRegistration list, CompileDiagnostic list) result option" where
  "compile_pipeline regs =
     (case compile_order (map ordering regs) of
        None \<Rightarrow> None
      | Some (Err e) \<Rightarrow> Some (Err e)
      | Some (Ok order) \<Rightarrow> Some (Ok (remove_in_order order (registrations_by_id regs))))"

section \<open>Execution\<close>

datatype HandlerFailureKind = HandlerError | Timeout | UnsupportedDecision

record HandlerFailure =
  failure_kind :: HandlerFailureKind
  failure_message :: string

datatype 'T ExecutionStepResult = StepDecision "'T Decision" | StepFailure HandlerFailure

record 'T ExecutionStep =
  step_handler :: string
  step_input :: 'T
  step_result :: "'T ExecutionStepResult"

datatype 'T ExecutionOutcome = OutcomeDecision "'T Decision" | Aborted string HandlerFailure

record 'T ExecutionReport =
  steps :: "'T ExecutionStep list"
  outcome :: "'T ExecutionOutcome"

definition classify ::
  "ActionCapabilities \<Rightarrow> ('T, 'w) InterceptorRegistration \<Rightarrow> 'T invocation \<Rightarrow>
   'T Decision + HandlerFailure" where
  "classify capabilities r invocation =
     (case invocation of
        Returned (Ok d) \<Rightarrow>
          (case validate capabilities d of
             Ok _ \<Rightarrow> Inl d
           | Err e \<Rightarrow> Inr \<lparr>failure_kind = UnsupportedDecision,
                            failure_message = capability_error_display e\<rparr>)
      | Returned (Err e) \<Rightarrow> Inr \<lparr>failure_kind = HandlerError, failure_message = message e\<rparr>
      | Elapsed \<Rightarrow> Inr \<lparr>failure_kind = Timeout,
           failure_message = ''handler `'' @ reg_handler r @ ''` exceeded timeout of '' @
             decimal (as_millis (timeout r)) @ '' ms''\<rparr>)"

definition failure_reason :: "('T, 'w) InterceptorRegistration \<Rightarrow> HandlerFailure \<Rightarrow> string" where
  "failure_reason r failure =
     ''interceptor `'' @ reg_handler r @ ''` failed: '' @ failure_message failure"

fun execute_loop ::
  "ActionCapabilities \<Rightarrow> ('T, 'w) InterceptorRegistration list \<Rightarrow> 'T \<Rightarrow> 'T ExecutionStep list \<Rightarrow> 'w \<Rightarrow>
   'T ExecutionReport \<times> 'w" where
  "execute_loop capabilities [] current log w =
     (\<lparr>steps = log, outcome = OutcomeDecision (Continue current)\<rparr>, w)"
| "execute_loop capabilities (r # rs) current log w =
     (let (invocation, w') = intercept r w current in
      case classify capabilities r invocation of
        Inl d \<Rightarrow>
          (let log' = log @ [\<lparr>step_handler = reg_handler r, step_input = current,
                                step_result = StepDecision d\<rparr>] in
           case d of
             Continue v \<Rightarrow> execute_loop capabilities rs v log' w'
           | Replace v \<Rightarrow> execute_loop capabilities rs v log' w'
           | _ \<Rightarrow> (\<lparr>steps = log', outcome = OutcomeDecision d\<rparr>, w'))
      | Inr failure \<Rightarrow>
          (let log' = log @ [\<lparr>step_handler = reg_handler r, step_input = current,
                                step_result = StepFailure failure\<rparr>];
               why = failure_reason r failure in
           case failure_policy r of
             ContinueUnchanged \<Rightarrow> execute_loop capabilities rs current log' w'
           | PolicyReject \<Rightarrow> (\<lparr>steps = log', outcome = OutcomeDecision (Reject why)\<rparr>, w')
           | PolicyCancel \<Rightarrow> (\<lparr>steps = log', outcome = OutcomeDecision (Cancel why)\<rparr>, w')
           | PolicyAbort \<Rightarrow> (\<lparr>steps = log', outcome = Aborted (reg_handler r) failure\<rparr>, w')))"

definition execute ::
  "('T, 'w) InterceptorRegistration list \<Rightarrow> 'T \<Rightarrow> ActionCapabilities \<Rightarrow> 'w \<Rightarrow> 'T ExecutionReport \<times> 'w" where
  "execute regs proposal capabilities w = execute_loop capabilities regs proposal [] w"

section \<open>Auditing a report\<close>

text \<open>
  A report can be checked without calling a handler: each step names the next registration
  and the proposal the earlier steps left, a step that does not let the proposal pass is
  the last one, and the outcome follows from the steps.
\<close>

fun advance :: "'T ExecutionStepResult \<Rightarrow> 'T \<Rightarrow> 'T" where
  "advance (StepDecision (Continue v)) current = v"
| "advance (StepDecision (Replace v)) current = v"
| "advance _ current = current"


fun passes :: "FailurePolicy \<Rightarrow> 'T ExecutionStepResult \<Rightarrow> bool" where
  "passes policy (StepDecision (Continue v)) = True"
| "passes policy (StepDecision (Replace v)) = True"
| "passes policy (StepDecision d) = False"
| "passes policy (StepFailure f) = (policy = ContinueUnchanged)"

fun stop_outcome :: "('T, 'w) InterceptorRegistration \<Rightarrow> 'T ExecutionStepResult \<Rightarrow> 'T ExecutionOutcome" where
  "stop_outcome r (StepDecision d) = OutcomeDecision d"
| "stop_outcome r (StepFailure f) =
     (case failure_policy r of
        PolicyReject \<Rightarrow> OutcomeDecision (Reject (failure_reason r f))
      | PolicyCancel \<Rightarrow> OutcomeDecision (Cancel (failure_reason r f))
      | _ \<Rightarrow> Aborted (reg_handler r) f)"

fun step_supported :: "ActionCapabilities \<Rightarrow> 'T ExecutionStepResult \<Rightarrow> bool" where
  "step_supported c (StepDecision d) = decision_supported c d"
| "step_supported c (StepFailure f) = True"

fun audit ::
  "ActionCapabilities \<Rightarrow> ('T, 'w) InterceptorRegistration list \<Rightarrow> 'T \<Rightarrow> 'T ExecutionStep list \<Rightarrow>
   'T ExecutionOutcome \<Rightarrow> bool" where
  "audit c [] current ss out \<longleftrightarrow> ss = [] \<and> out = OutcomeDecision (Continue current)"
| "audit c (r # rs) current [] out \<longleftrightarrow> False"
| "audit c (r # rs) current (s # ss) out \<longleftrightarrow>
     step_handler s = reg_handler r \<and> step_input s = current \<and> step_supported c (step_result s) \<and>
     (if passes (failure_policy r) (step_result s) then audit c rs (advance (step_result s) current) ss out
      else ss = [] \<and> out = stop_outcome r (step_result s))"

lemma classify_Inl: "classify c r ivk = Inl d \<Longrightarrow> decision_supported c d"
  by (auto simp: classify_def validate_def split: invocation.splits result.splits if_splits)

lemma execute_loop_audit:
  "execute_loop c rs current log w = (rep, w') \<Longrightarrow>
   \<exists>new. steps rep = log @ new \<and> audit c rs current new (outcome rep)"
proof (induction rs arbitrary: current log w)
  case Nil
  then show ?case by auto
next
  case (Cons r rs)
  obtain ivk w1 where ivk: "intercept r w current = (ivk, w1)" by fastforce
  have more: "\<exists>new. steps rep = log @ new \<and> audit c (r # rs) current new (outcome rep)"
    if "execute_loop c rs (advance res current) (log @ [s]) w1 = (rep, w')"
      and s: "s = \<lparr>step_handler = reg_handler r, step_input = current, step_result = res\<rparr>"
      and "step_supported c res" "passes (failure_policy r) res" for res s
    using Cons.IH [OF that(1)] that(2-4) by (metis audit.simps(3) append_Cons append_Nil append_assoc ExecutionStep.select_convs)
  have stop: "\<exists>new. steps rep = log @ new \<and> audit c (r # rs) current new (outcome rep)"
    if "rep = \<lparr>steps = log @ [s], outcome = stop_outcome r res\<rparr>"
      and "s = \<lparr>step_handler = reg_handler r, step_input = current, step_result = res\<rparr>"
      and "step_supported c res" "\<not> passes (failure_policy r) res" for res s
    using that by auto
  show ?case
  proof (cases "classify c r ivk")
    case (Inl d)
    note sup = classify_Inl [OF Inl]
    show ?thesis
      using Cons.prems ivk Inl sup more [of "StepDecision d"] stop [of _ "StepDecision d"]
      by (cases d) (auto simp: Let_def)
  next
    case (Inr f)
    show ?thesis
      using Cons.prems ivk Inr more [of "StepFailure f"] stop [of _ "StepFailure f"]
      by (cases "failure_policy r") (auto simp: Let_def)
  qed
qed

lemma execute_audit:
  "execute rs p c w = (rep, w') \<Longrightarrow> audit c rs p (steps rep) (outcome rep)"
  unfolding execute_def using execute_loop_audit by fastforce



section \<open>The compiled pipeline\<close>

lemma registrations_by_id_snoc:
  "registrations_by_id (rs @ [r]) = fmupd (reg_handler r) r (registrations_by_id rs)"
  by (simp add: registrations_by_id_def)

lemma registrations_by_id_lookup:
  assumes "distinct (map reg_handler rs)"
  shows "fmlookup (registrations_by_id rs) h = Some r \<longleftrightarrow> r \<in> set rs \<and> reg_handler r = h"
  using assms
  by (induction rs rule: rev_induct)
    (auto simp: registrations_by_id_snoc registrations_by_id_def intro: rev_image_eqI split: if_splits)

lemma remove_in_order_map:
  assumes "distinct hs" and "\<And>h. h \<in> set hs \<Longrightarrow> fmlookup m h = Some (f h)"
  shows "remove_in_order hs m = map f hs"
  using assms
proof (induction hs arbitrary: m)
  case Nil
  then show ?case by simp
next
  case (Cons h hs)
  then have "remove_in_order hs (fmdrop h m) = map f hs" by (intro Cons.IH) auto
  with Cons.prems(2) [of h] show ?case by simp
qed

lemma compile_pipeline_Ok:
  "compile_pipeline regs = Some (Ok rs) \<longleftrightarrow>
   distinct (map reg_handler regs) \<and> declared (map ordering regs) \<and>
   mset rs = mset regs \<and> greedy_order (map ordering regs) (map reg_handler rs)"
  (is "?L \<longleftrightarrow> ?R")
proof -
  have handlers: "map handler (map ordering regs) = map reg_handler regs" for regs :: "('T, 'w) InterceptorRegistration list"
    by (simp add: reg_handler_def)
  define find where "find h = the (fmlookup (registrations_by_id regs) h)" for h
  have found: "fmlookup (registrations_by_id regs) h = Some (find h) \<and> find h \<in> set regs \<and> reg_handler (find h) = h"
    if dist: "distinct (map reg_handler regs)" and h: "h \<in> reg_handler ` set regs" for h
  proof -
    from h obtain r where r: "fmlookup (registrations_by_id regs) h = Some r"
      using registrations_by_id_lookup [OF dist] by blast
    then have "find h = r" by (simp add: find_def)
    then show ?thesis using r registrations_by_id_lookup [OF dist, of h r] by blast
  qed
  have order: "remove_in_order hs (registrations_by_id regs) = rs \<longleftrightarrow>
      mset rs = mset regs \<and> map reg_handler rs = hs"
    if dist: "distinct (map reg_handler regs)" and hs: "distinct hs" "set hs = reg_handler ` set regs" for hs
  proof -
    have rem: "remove_in_order hs (registrations_by_id regs) = map find hs"
      by (rule remove_in_order_map [OF hs(1)]) (use found [OF dist] hs(2) in auto)
    have "map reg_handler (map find hs) = hs"
      unfolding map_map by (rule map_idI) (use found [OF dist] hs(2) in simp)
    moreover have "set (map find hs) = set regs"
    proof -
      have "find (reg_handler r) = r" if "r \<in> set regs" for r
        using found [OF dist, of "reg_handler r"] that dist by (metis distinct_map imageI inj_onD)
      then show ?thesis using hs(2) by (force simp: image_iff)
    qed
    moreover have "distinct (map find hs)" using calculation(1) hs(1) by (metis distinct_map)
    ultimately have ok: "mset (map find hs) = mset regs" "map reg_handler (map find hs) = hs"
      using dist by (metis distinct_map set_eq_iff_mset_eq_distinct)+
    moreover have "map find hs = rs" if "mset rs = mset regs" "map reg_handler rs = hs"
    proof -
      have "find (reg_handler r) = r" if "r \<in> set rs" for r
      proof -
        have "r \<in> set regs" using \<open>mset rs = mset regs\<close> that by (metis mset_eq_setD)
        then show ?thesis using found [OF dist, of "reg_handler r"] dist by (metis distinct_map imageI inj_onD)
      qed
      then show ?thesis using that(2) by (auto simp: map_idI)
    qed
    ultimately show ?thesis using rem by metis
  qed
  have nodup: "distinct hs \<and> set hs = reg_handler ` set regs" if "greedy_order (map ordering regs) hs" for hs
    using that by (auto simp: greedy_order_def topo_prefix_def reg_handler_def image_image)
  show ?thesis
  proof
    assume L: ?L
    then obtain hs where hs: "compile_order (map ordering regs) = Some (Ok hs)"
        "remove_in_order hs (registrations_by_id regs) = rs"
      by (auto simp: compile_pipeline_def split: option.splits result.splits)
    then have "distinct (map reg_handler regs)" "declared (map ordering regs)" "greedy_order (map ordering regs) hs"
      using compile_order_Ok [of "map ordering regs" hs] unfolding handlers by auto
    then show ?R using order [of hs] nodup hs(2) by metis
  next
    assume R: ?R
    then have "compile_order (map ordering regs) = Some (Ok (map reg_handler rs))"
      using compile_order_Ok [of "map ordering regs"] handlers by metis
    moreover have "remove_in_order (map reg_handler rs) (registrations_by_id regs) = rs"
      using order [of "map reg_handler rs"] nodup R by metis
    ultimately show ?L by (simp add: compile_pipeline_def)
  qed
qed

text \<open>
  C4. Compiling a pipeline succeeds exactly when the handler order compiles, and then the
  compiled pipeline holds every registration once, in the specified order; registering the
  same interceptors in another order gives the same pipeline.
\<close>

theorem compile_pipeline_order:
  "(compile_pipeline regs = Some (Ok rs) \<longleftrightarrow>
      distinct (map reg_handler regs) \<and> declared (map ordering regs) \<and>
      mset rs = mset regs \<and> greedy_order (map ordering regs) (map reg_handler rs)) \<and>
   (mset regs = mset regs' \<longrightarrow>
      (compile_pipeline regs = Some (Ok rs) \<longleftrightarrow> compile_pipeline regs' = Some (Ok rs)))"
proof -
  have "compile_pipeline regs = Some (Ok rs) \<longleftrightarrow> compile_pipeline regs' = Some (Ok rs)"
    if perm: "mset regs = mset regs'"
  proof -
    have "mset (map ordering regs) = mset (map ordering regs')" using perm by simp
    note specs = this greedy_order_mset [OF this] mset_eq_setD [OF this]
    have "distinct (map reg_handler regs) \<longleftrightarrow> distinct (map reg_handler regs')"
      using perm by (metis mset_eq_imp_distinct_iff mset_map)
    moreover have "declared (map ordering regs) \<longleftrightarrow> declared (map ordering regs')"
      unfolding declared_def specs(3) by (rule refl)
    ultimately show ?thesis using perm specs(2) unfolding compile_pipeline_Ok by simp
  qed
  then show ?thesis using compile_pipeline_Ok by blast
qed

section \<open>Properties of execution\<close>


text \<open>
  C6. No decision the action does not support takes effect: every decision recorded in
  a step is supported, and so is a decision the pipeline ends with, except for the
  cancellation a registration with the cancel policy turns a failure into.
\<close>

theorem execution_capability_safe:
  assumes "execute rs p c w = (rep, w')"
  shows "(\<forall>s \<in> set (steps rep). \<forall>d. step_result s = StepDecision d \<longrightarrow> validate c d = Ok ()) \<and>
    (\<forall>d. outcome rep = OutcomeDecision d \<longrightarrow> validate c d = Ok () \<or>
      (\<exists>r \<in> set rs. \<exists>f. failure_policy r = PolicyCancel \<and> d = Cancel (failure_reason r f)))"
proof -
  have steps: "(\<forall>s \<in> set ss. step_supported c (step_result s)) \<and>
      (\<forall>d. out = OutcomeDecision d \<longrightarrow> decision_supported c d \<or>
        (\<exists>r \<in> set rs. \<exists>f. failure_policy r = PolicyCancel \<and> d = Cancel (failure_reason r f)))"
    if "audit c rs p ss out" for rs :: "('a, 'b) InterceptorRegistration list" and p ss out
    using that
  proof (induction c rs p ss out rule: audit.induct)
    case (3 c r rs current s ss out)
    then show ?case
      by (cases "step_result s"; cases "failure_policy r") (auto split: if_splits)
  qed auto
  then show ?thesis
    using steps [OF execute_audit [OF assms]] unfolding validate_def
    by (metis step_supported.simps(1))
qed


section \<open>Witnesses\<close>

text \<open>
  A pipeline of two handlers over integers: the first replaces the proposal by its
  successor, the second returns an error on proposals above 10.
\<close>

definition demo_regs :: "FailurePolicy \<Rightarrow> (int, unit) InterceptorRegistration list" where
  "demo_regs policy =
     [\<lparr>ordering = OrderingSpec_new ''inc'' ''p'', timeout = 1000000, failure_policy = policy,
       intercept = (\<lambda>w v. (Returned (Ok (Replace (v + 1))), w))\<rparr>,
      \<lparr>ordering = add_after ''inc'' (OrderingSpec_new ''bound'' ''p''), timeout = 1000000,
       failure_policy = policy,
       intercept = (\<lambda>w v. (Returned (if v > 10 then Err (InterceptorError ''big'') else Ok (Continue v)), w))\<rparr>]"

lemmas demo_run = demo_regs_def execute_def classify_def validate_def reg_handler_def
  add_after_def OrderingSpec_new_def failure_reason_def


theorem execution_capability_safe_witness:
  "validate caps_all (Replace (4 :: int)) = Ok ()"
proof -
  obtain rep w' where run: "execute (demo_regs PolicyAbort) 3 caps_all () = (rep, w')" by (meson surj_pair)
  then have "step_result (hd (steps rep)) = StepDecision (Replace 4)" "hd (steps rep) \<in> set (steps rep)"
    by (simp_all add: demo_run) auto
  then show ?thesis using execution_capability_safe [OF run] by blast
qed


theorem compile_pipeline_order_witness:
  "compile_pipeline (rev (demo_regs PolicyAbort)) = Some (Ok (demo_regs PolicyAbort))"
proof -
  have "compile_order (map ordering (demo_regs PolicyAbort)) = Some (Ok [''inc'', ''bound''])"
    unfolding demo_regs_def list.map InterceptorRegistration.select_convs by code_simp
  then have "compile_pipeline (demo_regs PolicyAbort) = Some (Ok (demo_regs PolicyAbort))"
    by (simp add: compile_pipeline_def registrations_by_id_def demo_regs_def reg_handler_def add_after_def OrderingSpec_new_def)
  then show ?thesis
    using compile_pipeline_order [of "rev (demo_regs PolicyAbort)" "demo_regs PolicyAbort" "demo_regs PolicyAbort"]
    by (metis mset_rev)
qed

end
