(* ===== verification/Observer.thy ===== *)
theory Observer
  imports Prelude "HOL-Library.Sublist"
begin

text \<open>
  \<^verbatim>\<open>core/event-pipeline/src/observer.rs\<close>: the bounded queue between committed events and
  an asynchronous observer. Every access to the queue happens under its mutex, so an
  execution with any number of dispatching tasks and the worker is a sequence of atomic
  steps: one iteration of the dispatch loop, one iteration of the worker's inner loop, the
  end of one observer call, the closing of the queue, and the abort of the worker when the
  dispatcher is dropped. A notification only lets a waiting loop start its next iteration,
  so waiting is an iteration that changes nothing and may be repeated at any time. The
  observer is code of an embedder; whether a call of it succeeds is part of the step.
\<close>

datatype BackpressurePolicy = Block | DropNewest | DropOldest

datatype DispatchOutcome = Enqueued | DroppedNewest | DroppedOldest | Closed

datatype ObserverConfigError = ObserverConfigError

record ObserverStats =
  st_enqueued :: u64
  st_dropped_newest :: u64
  st_dropped_oldest :: u64
  st_delivered :: u64
  st_failed :: u64

record 'E SharedQueue =
  events :: "'E list"
  closed :: bool
  capacity :: nat
  policy :: BackpressurePolicy
  enqueued :: u64
  dropped_newest :: u64
  dropped_oldest :: u64
  delivered :: u64
  failed :: u64

definition stats :: "'E SharedQueue \<Rightarrow> ObserverStats" where
  "stats q = \<lparr>st_enqueued = enqueued q, st_dropped_newest = dropped_newest q,
     st_dropped_oldest = dropped_oldest q, st_delivered = delivered q, st_failed = failed q\<rparr>"

text \<open>The worker: between calls, inside a call with an event, returned, or aborted.\<close>

datatype 'E Worker = Idle | Observing 'E | Exited | WorkerAborted

record 'E ObserverDispatcher =
  shared :: "'E SharedQueue"
  worker :: "'E Worker"

definition new_dispatcher ::
  "nat \<Rightarrow> BackpressurePolicy \<Rightarrow> ('E ObserverDispatcher, ObserverConfigError) result" where
  "new_dispatcher cap pol =
     (if cap = 0 then Err ObserverConfigError
      else Ok \<lparr>shared = \<lparr>events = [], closed = False, capacity = cap, policy = pol, enqueued = 0,
                 dropped_newest = 0, dropped_oldest = 0, delivered = 0, failed = 0\<rparr>,
               worker = Idle\<rparr>)"

text \<open>One iteration of the dispatch loop; \<open>None\<close> is waiting for capacity.\<close>

definition dispatch :: "'E \<Rightarrow> 'E SharedQueue \<Rightarrow> DispatchOutcome option \<times> 'E SharedQueue" where
  "dispatch event q =
     (if closed q then (Some Closed, q)
      else if length (events q) < capacity q then
        (Some Enqueued, q\<lparr>events := events q @ [event], enqueued := enqueued q + 1\<rparr>)
      else case policy q of
        Block \<Rightarrow> (None, q)
      | DropNewest \<Rightarrow> (Some DroppedNewest, q\<lparr>dropped_newest := dropped_newest q + 1\<rparr>)
      | DropOldest \<Rightarrow>
          (Some DroppedOldest,
           q\<lparr>events := tl (events q) @ [event], dropped_oldest := dropped_oldest q + 1,
             enqueued := enqueued q + 1\<rparr>))"

definition close :: "'E SharedQueue \<Rightarrow> 'E SharedQueue" where
  "close q = q\<lparr>closed := True\<rparr>"

text \<open>One iteration of the worker's inner loop, and the end of an observer call.\<close>

definition worker_take :: "'E SharedQueue \<Rightarrow> 'E Worker \<times> 'E SharedQueue" where
  "worker_take q =
     (case events q of
        e # es \<Rightarrow> (Observing e, q\<lparr>events := es\<rparr>)
      | [] \<Rightarrow> if closed q then (Exited, q) else (Idle, q))"

definition worker_finish :: "bool \<Rightarrow> 'E SharedQueue \<Rightarrow> 'E SharedQueue" where
  "worker_finish ok q =
     (if ok then q\<lparr>delivered := delivered q + 1\<rparr> else q\<lparr>failed := failed q + 1\<rparr>)"

definition abort_worker :: "'E Worker \<Rightarrow> 'E Worker" where
  "abort_worker w = (if w = Exited then Exited else WorkerAborted)"

section \<open>Executions\<close>

datatype 'E action =
    Dispatch 'E "DispatchOutcome option"
  | Take
  | Observe 'E bool
  | Shutdown
  | DropDispatcher

inductive step :: "'E ObserverDispatcher \<Rightarrow> 'E action \<Rightarrow> 'E ObserverDispatcher \<Rightarrow> bool" where
  dispatch: "dispatch e (shared d) = (out, q) \<Longrightarrow> step d (Dispatch e out) (d\<lparr>shared := q\<rparr>)"
| take: "worker d = Idle \<Longrightarrow> worker_take (shared d) = (w, q) \<Longrightarrow>
    step d Take (d\<lparr>shared := q, worker := w\<rparr>)"
| observe: "worker d = Observing e \<Longrightarrow>
    step d (Observe e ok) (d\<lparr>shared := worker_finish ok (shared d), worker := Idle\<rparr>)"
| shutdown: "step d Shutdown (d\<lparr>shared := close (shared d)\<rparr>)"
| drop: "step d DropDispatcher (d\<lparr>worker := abort_worker (worker d)\<rparr>)"

inductive_cases stepE: "step d a d'"

inductive run :: "'E ObserverDispatcher \<Rightarrow> 'E action list \<Rightarrow> 'E ObserverDispatcher \<Rightarrow> bool" where
  start: "run d [] d"
| more: "run d tr d1 \<Longrightarrow> step d1 a d2 \<Longrightarrow> run d (tr @ [a]) d2"

fun accepted :: "'E action list \<Rightarrow> 'E list" where
  "accepted [] = []"
| "accepted (Dispatch e out # tr) =
     (if out = Some Enqueued \<or> out = Some DroppedOldest then e # accepted tr else accepted tr)"
| "accepted (_ # tr) = accepted tr"

fun observed :: "'E action list \<Rightarrow> 'E list" where
  "observed [] = []"
| "observed (Observe e ok # tr) = e # observed tr"
| "observed (_ # tr) = observed tr"

definition count_action :: "('E action \<Rightarrow> bool) \<Rightarrow> 'E action list \<Rightarrow> nat" where
  "count_action P tr = length (filter P tr)"

fun in_flight :: "'E Worker \<Rightarrow> 'E list" where
  "in_flight (Observing e) = [e]"
| "in_flight _ = []"

fun is_drop_oldest :: "'E action \<Rightarrow> bool" where
  "is_drop_oldest (Dispatch e (Some DroppedOldest)) = True"
| "is_drop_oldest _ = False"

fun is_drop_newest :: "'E action \<Rightarrow> bool" where
  "is_drop_newest (Dispatch e (Some DroppedNewest)) = True"
| "is_drop_newest _ = False"

fun is_observed :: "bool \<Rightarrow> 'E action \<Rightarrow> bool" where
  "is_observed b (Observe e ok) = (ok = b)"
| "is_observed b _ = False"

lemma accepted_append [simp]: "accepted (xs @ ys) = accepted xs @ accepted ys"
  by (induction xs rule: accepted.induct) auto

lemma observed_append [simp]: "observed (xs @ ys) = observed xs @ observed ys"
  by (induction xs rule: observed.induct) auto

lemma count_action_append [simp]: "count_action P (xs @ ys) = count_action P xs + count_action P ys"
  by (simp add: count_action_def)

lemma count_action_single [simp]: "count_action P [a] = (if P a then 1 else 0)" "count_action P [] = 0"
  by (simp_all add: count_action_def)

section \<open>Invariants\<close>

definition queue_inv :: "'E ObserverDispatcher \<Rightarrow> 'E ObserverDispatcher \<Rightarrow> bool" where
  "queue_inv d0 d \<longleftrightarrow>
     capacity (shared d) = capacity (shared d0) \<and> policy (shared d) = policy (shared d0) \<and>
     0 < capacity (shared d) \<and> length (events (shared d)) \<le> capacity (shared d) \<and>
     (worker d = Exited \<longrightarrow> closed (shared d) \<and> events (shared d) = [])"

lemma queue_inv_step: "queue_inv d0 d \<Longrightarrow> step d a d' \<Longrightarrow> queue_inv d0 d'"
  by (erule stepE)
    (auto simp: queue_inv_def dispatch_def worker_take_def worker_finish_def close_def abort_worker_def
      split: if_splits BackpressurePolicy.splits list.splits)

text \<open>
  What was observed, what is being observed and what is queued is, in this order, what was
  accepted less what was dropped from the front.
\<close>

definition order_inv :: "'E action list \<Rightarrow> 'E ObserverDispatcher \<Rightarrow> bool" where
  "order_inv tr d \<longleftrightarrow>
     (\<exists>mid. subseq (observed tr @ mid @ events (shared d)) (accepted tr) \<and>
        length (accepted tr) =
          length (observed tr @ mid @ events (shared d)) + count_action is_drop_oldest tr \<and>
        (worker d \<noteq> WorkerAborted \<longrightarrow> mid = in_flight (worker d)) \<and> length mid \<le> 1)"

definition counter_inv :: "'E action list \<Rightarrow> 'E ObserverDispatcher \<Rightarrow> bool" where
  "counter_inv tr d \<longleftrightarrow>
     stats (shared d) =
       \<lparr>st_enqueued = of_nat (length (accepted tr)),
        st_dropped_newest = of_nat (count_action is_drop_newest tr),
        st_dropped_oldest = of_nat (count_action is_drop_oldest tr),
        st_delivered = of_nat (count_action (is_observed True) tr),
        st_failed = of_nat (count_action (is_observed False) tr)\<rparr>"

lemma subseq_snoc_both: "subseq xs ys \<Longrightarrow> subseq (xs @ [e]) (ys @ [e])"
  by (simp add: list_emb_append_mono)

lemma subseq_drop_middle: "subseq (xs @ x # zs) ys \<Longrightarrow> subseq (xs @ zs) ys"
  by (meson list_emb_append_mono list_emb_Cons subseq_order.order_refl subseq_order.trans)

lemma counter_inv_step: "counter_inv tr d \<Longrightarrow> step d a d' \<Longrightarrow> counter_inv (tr @ [a]) d'"
  by (erule stepE)
    (auto simp: counter_inv_def stats_def dispatch_def worker_take_def worker_finish_def close_def
      split: if_splits BackpressurePolicy.splits list.splits)

lemma order_inv_step:
  assumes inv: "order_inv tr d" and cap: "queue_inv d0 d" and st: "step d a d'"
  shows "order_inv (tr @ [a]) d'"
proof -
  obtain mid where mid: "subseq (observed tr @ mid @ events (shared d)) (accepted tr)"
    "length (accepted tr) = length (observed tr @ mid @ events (shared d)) + count_action is_drop_oldest tr"
    "worker d \<noteq> WorkerAborted \<longrightarrow> mid = in_flight (worker d)" "length mid \<le> 1"
    using inv unfolding order_inv_def by blast
  have keep: ?thesis
    if "events (shared d') = events (shared d)" "worker d' = worker d" "accepted [a] = []" "observed [a] = []"
      "\<not> is_drop_oldest a"
    using mid that unfolding order_inv_def by (intro exI [of _ mid]) simp
  from st show ?thesis
  proof cases
    case (dispatch e out q)
    consider (enq) "out = Some Enqueued" "events q = events (shared d) @ [e]"
      | (old) "out = Some DroppedOldest" "events q = tl (events (shared d)) @ [e]"
          "\<not> length (events (shared d)) < capacity (shared d)"
      | (none) "events q = events (shared d)" "out \<noteq> Some Enqueued" "out \<noteq> Some DroppedOldest"
      using dispatch(3) by (auto simp: dispatch_def split: if_splits BackpressurePolicy.splits)
    then show ?thesis
    proof cases
      case enq
      then show ?thesis
        using dispatch mid subseq_snoc_both [OF mid(1), of e]
        unfolding order_inv_def by (intro exI [of _ mid]) simp
    next
      case old
      then obtain x xs where ev: "events (shared d) = x # xs"
        using cap by (cases "events (shared d)") (auto simp: queue_inv_def)
      then have "subseq (observed tr @ mid @ xs) (accepted tr)"
        using subseq_drop_middle [of "observed tr @ mid" x xs] mid(1) by simp
      then show ?thesis
        using dispatch old ev mid subseq_snoc_both [of "observed tr @ mid @ xs" _ e]
        unfolding order_inv_def by (intro exI [of _ mid]) simp
    next
      case none
      then have "\<not> is_drop_oldest (Dispatch e out)"
        by (cases "(Dispatch e out)" rule: is_drop_oldest.cases) auto
      with none show ?thesis using dispatch by (intro keep) auto
    qed
  next
    case (take w q)
    then show ?thesis
      using mid unfolding order_inv_def
      by (intro exI [of _ "in_flight w"]) (auto simp: worker_take_def split: list.splits if_splits)
  next
    case (observe e ok)
    then show ?thesis
      using mid unfolding order_inv_def by (intro exI [of _ "[]"]) (simp add: worker_finish_def)
  next
    case shutdown
    then show ?thesis by (intro keep) (simp_all add: close_def)
  next
    case drop
    then show ?thesis
      using mid unfolding order_inv_def by (intro exI [of _ mid]) (auto simp: abort_worker_def)
  qed
qed

lemma run_inv:
  assumes "run d0 tr d" and "new_dispatcher cap pol = Ok d0"
  shows "queue_inv d0 d \<and> order_inv tr d \<and> counter_inv tr d"
  using assms
proof (induction rule: run.induct)
  case (start d)
  then show ?case
    by (auto simp: new_dispatcher_def queue_inv_def order_inv_def counter_inv_def stats_def split: if_splits)
next
  case (more d tr d1 a d2)
  then show ?case using queue_inv_step order_inv_step counter_inv_step by metis
qed

lemma no_drop_oldest:
  assumes "run d0 tr d" and "policy (shared d0) \<noteq> DropOldest"
  shows "count_action is_drop_oldest tr = 0 \<and> policy (shared d) = policy (shared d0)"
  using assms
proof (induction rule: run.induct)
  case (more d tr d1 a d2)
  have "\<not> is_drop_oldest a \<and> policy (shared d2) = policy (shared d1)"
    using more.hyps(2) more.IH more.prems
    by (cases rule: step.cases)
      (auto simp: dispatch_def worker_take_def worker_finish_def close_def
        split: if_splits BackpressurePolicy.splits list.splits)
  with more show ?case by auto
qed simp

lemma length_observed: "length (observed tr) = count_action (is_observed True) tr + count_action (is_observed False) tr"
  by (induction tr rule: observed.induct) (auto simp: count_action_def)

section \<open>Properties\<close>

text \<open>
  C8. The queue never holds more events than its capacity, and events are observed in
  the order in which they were accepted: at every point of an execution, what was observed,
  the event in the worker's hands, and the queue form a subsequence of what was accepted,
  short of it by exactly the number of events dropped as oldest; with the other two
  policies, they are everything that was accepted.
\<close>

theorem observer_order:
  assumes "new_dispatcher cap pol = Ok d0" and "run d0 tr d" and "worker d \<noteq> WorkerAborted"
  shows "length (events (shared d)) \<le> cap \<and>
    (let kept = observed tr @ in_flight (worker d) @ events (shared d) in
     subseq kept (accepted tr) \<and>
     length (accepted tr) = length kept + count_action is_drop_oldest tr \<and>
     (pol \<noteq> DropOldest \<longrightarrow> kept = accepted tr))"
proof -
  have inv: "queue_inv d0 d" "order_inv tr d" using run_inv [OF assms(2,1)] by auto
  have d0: "capacity (shared d0) = cap" "policy (shared d0) = pol"
    using assms(1) by (auto simp: new_dispatcher_def split: if_splits)
  have kept: "subseq (observed tr @ in_flight (worker d) @ events (shared d)) (accepted tr)"
      "length (accepted tr) = length (observed tr @ in_flight (worker d) @ events (shared d)) +
         count_action is_drop_oldest tr"
    using inv(2) assms(3) unfolding order_inv_def by auto
  moreover have "observed tr @ in_flight (worker d) @ events (shared d) = accepted tr" if "pol \<noteq> DropOldest"
    using kept no_drop_oldest [OF assms(2)] that d0 by (metis add.right_neutral subseq_same_length)
  moreover have "length (events (shared d)) \<le> cap" using inv(1) d0 by (simp add: queue_inv_def)
  ultimately show ?thesis by (simp add: Let_def)
qed

text \<open>
  The counters conserve events, also when they wrap around: accepted equals dropped
  as oldest, delivered, failed, in the worker's hands and queued, modulo two to the 64.
\<close>

theorem observer_counters:
  assumes "new_dispatcher cap pol = Ok d0" and "run d0 tr d" and "worker d \<noteq> WorkerAborted"
  shows "st_enqueued (stats (shared d)) =
      st_dropped_oldest (stats (shared d)) + st_delivered (stats (shared d)) + st_failed (stats (shared d)) +
      of_nat (length (in_flight (worker d)) + length (events (shared d))) \<and>
    st_enqueued (stats (shared d)) = of_nat (length (accepted tr))"
proof -
  have "counter_inv tr d" "order_inv tr d" using run_inv [OF assms(2,1)] by auto
  then show ?thesis
    using assms(3) unfolding order_inv_def counter_inv_def by (auto simp: length_observed)
qed

text \<open>
  Shutting down drains: once the worker returns, the queue is closed and empty and
  every accepted event that was not dropped as oldest has been observed, in order; from
  then on every dispatch is refused.
\<close>

theorem observer_drained:
  assumes "new_dispatcher cap pol = Ok d0" and "run d0 tr d" and "worker d = Exited"
  shows "closed (shared d) \<and> events (shared d) = [] \<and> subseq (observed tr) (accepted tr) \<and>
    length (accepted tr) = length (observed tr) + count_action is_drop_oldest tr \<and>
    dispatch e (shared d) = (Some Closed, shared d)"
proof -
  have "queue_inv d0 d" "order_inv tr d" using run_inv [OF assms(2,1)] by auto
  then show ?thesis
    using assms(3) unfolding order_inv_def queue_inv_def by (auto simp: dispatch_def)
qed






section \<open>Witnesses\<close>

text \<open>Executing a list of actions, where each is what the state allows.\<close>

definition exec :: "'E action \<Rightarrow> 'E ObserverDispatcher \<Rightarrow> 'E ObserverDispatcher option" where
  "exec a d =
     (case a of
        Dispatch e out \<Rightarrow>
          (let (out', q) = dispatch e (shared d) in
           if out' = out then Some (d\<lparr>shared := q\<rparr>) else None)
      | Take \<Rightarrow>
          (if worker d = Idle then let (w, q) = worker_take (shared d) in Some (d\<lparr>shared := q, worker := w\<rparr>)
           else None)
      | Observe e ok \<Rightarrow>
          (if worker d = Observing e
           then Some (d\<lparr>shared := worker_finish ok (shared d), worker := Idle\<rparr>) else None)
      | Shutdown \<Rightarrow> Some (d\<lparr>shared := close (shared d)\<rparr>)
      | DropDispatcher \<Rightarrow> Some (d\<lparr>worker := abort_worker (worker d)\<rparr>))"

lemma exec_step: "exec a d = Some d' \<Longrightarrow> step d a d'"
  by (cases a) (auto simp: exec_def case_prod_beta intro: step.intros split: if_splits)

fun exec_all :: "'E action list \<Rightarrow> 'E ObserverDispatcher \<Rightarrow> 'E ObserverDispatcher option" where
  "exec_all [] d = Some d"
| "exec_all (a # as) d = (case exec a d of None \<Rightarrow> None | Some d' \<Rightarrow> exec_all as d')"

lemma run_append: "run d2 tr' d3 \<Longrightarrow> run d1 tr d2 \<Longrightarrow> run d1 (tr @ tr') d3"
  by (induction rule: run.induct) (auto simp: run.more simp flip: append_assoc)

lemma exec_all_run: "exec_all tr d = Some d' \<Longrightarrow> run d tr d'"
proof (induction tr arbitrary: d)
  case Nil
  then show ?case by (auto intro: run.start)
next
  case (Cons a tr)
  then obtain d1 where "exec a d = Some d1" "run d1 tr d'" by (auto split: option.splits)
  then show ?case using run_append [of d1 tr d' d "[a]"] run.more [OF run.start exec_step] by fastforce
qed

definition demo_start :: "nat ObserverDispatcher" where
  "demo_start = (case new_dispatcher 1 DropOldest of Ok d \<Rightarrow> d)"

definition demo_trace :: "nat action list" where
  "demo_trace =
     [Dispatch 1 (Some Enqueued), Take, Dispatch 2 (Some Enqueued), Dispatch 3 (Some DroppedOldest),
      Observe 1 True, Shutdown, Take, Observe 3 False, Take]"

definition demo_end :: "nat ObserverDispatcher" where
  "demo_end = (case exec_all demo_trace demo_start of Some d \<Rightarrow> d)"

lemma demo_new: "new_dispatcher 1 DropOldest = Ok demo_start"
  by (simp add: demo_start_def new_dispatcher_def)

lemma demo_reached: "run demo_start demo_trace demo_end"
proof (rule exec_all_run)
  show "exec_all demo_trace demo_start = Some demo_end" unfolding demo_end_def by code_simp
qed

lemma demo_worker: "worker demo_end = Exited"
  by code_simp

theorem observer_order_witness: "subseq (observed demo_trace) (accepted demo_trace) \<and> observed demo_trace = [1, 3]"
  using observer_order [OF demo_new demo_reached] demo_worker by (simp add: Let_def demo_trace_def)

theorem observer_counters_witness: "st_enqueued (stats (shared demo_end)) = 3"
proof -
  have "st_enqueued (stats (shared demo_end)) = of_nat (length (accepted demo_trace))"
    using observer_counters [OF demo_new demo_reached] demo_worker by (metis Worker.distinct(11))
  then show ?thesis by (simp add: demo_trace_def)
qed

theorem observer_drained_witness: "closed (shared demo_end) \<and> dispatch 9 (shared demo_end) = (Some Closed, shared demo_end)"
  using observer_drained [OF demo_new demo_reached demo_worker] by simp


end
