(* ===== verification/Expr_Syntax.thy ===== *)
theory Expr_Syntax
  imports Prelude
begin

text \<open>
  \<^verbatim>\<open>core/expression-engine/src/lib.rs\<close>, first part: limits, the expression type, the lexer
  and the recursive-descent parser. JSON string and number decoding belong to
  \<^verbatim>\<open>serde_json\<close>; they and the number type \<open>'n\<close> are arguments, in a record \<open>json_ops\<close>.

  Strings are UTF-8, byte by byte, so offsets and lengths are those of the source. The
  lexer and parser return \<open>None\<close> where the source would panic (an index out of range, no
  character at an offset) and where the fuel of the mutually recursive parser functions
  is exhausted; \<open>Expr_Parse\<close> shows that neither happens.
\<close>

section \<open>Types\<close>

record ExpressionLimits =
  max_input_bytes :: nat
  max_depth :: nat
  max_nodes :: nat
  max_string_bytes :: nat
  max_path_segments :: nat

definition ExpressionLimits_default :: ExpressionLimits where
  "ExpressionLimits_default =
     \<lparr>max_input_bytes = 16 * 1024, max_depth = 64, max_nodes = 1024,
      max_string_bytes = 4 * 1024, max_path_segments = 64\<rparr>"

datatype PathSegment = Key string | Index nat

datatype EnvironmentPath = EnvironmentPath (segments: "PathSegment list")

datatype 'n Literal = LNull | LBoolean bool | LNumber 'n | LString string

datatype 'n Operand = Literal "'n Literal" | Path EnvironmentPath

datatype ComparisonOperator = Equal | NotEqual | Less | LessOrEqual | Greater | GreaterOrEqual

datatype 'n Expression =
    Value "'n Operand"
  | Not "'n Expression"
  | And "'n Expression" "'n Expression"
  | Or "'n Expression" "'n Expression"
  | Compare "'n Operand" ComparisonOperator "'n Operand"
  | Exists EnvironmentPath

fun segment_text :: "nat \<Rightarrow> PathSegment \<Rightarrow> string" where
  "segment_text i (Key key) = (if i = 0 then key else CHR ''.'' # key)"
| "segment_text i (Index n) = ''['' @ decimal n @ '']''"

definition path_text :: "EnvironmentPath \<Rightarrow> string" where
  "path_text p = concat (map (\<lambda>(i, s). segment_text i s) (enumerate 0 (segments p)))"

datatype ParseError =
    InputTooLong nat nat
  | InvalidLimits
  | StringTooLong nat nat
  | UnterminatedString nat
  | InvalidString nat
  | InvalidNumber nat
  | UnexpectedCharacter nat nat
  | UnexpectedToken nat string string
  | TrailingInput nat
  | NodeLimitExceeded nat
  | DepthExceeded nat
  | PathSegmentsExceeded nat nat
  | InvalidArrayIndex nat

datatype 'n TokenKind =
    TIdentifier string
  | TString string
  | TNumber 'n
  | TTrue | TFalse | TNull | is_exists: TExists | is_and: TAnd | is_or: TOr
  | TEqual | TNotEqual | TLess | TLessOrEqual | TGreater | TGreaterOrEqual
  | is_bang: TBang | is_left_paren: TLeftParen | TRightParen | is_dot: TDot
  | is_left_bracket: TLeftBracket | TRightBracket | is_end: TEnd

record 'n Token =
  kind :: "'n TokenKind"
  position :: nat

fun description :: "'n TokenKind \<Rightarrow> string" where
  "description (TIdentifier v) = ''identifier `'' @ v @ ''`''"
| "description (TString _) = ''string''"
| "description (TNumber _) = ''number''"
| "description TTrue = ''`true`''"
| "description TFalse = ''`false`''"
| "description TNull = ''`null`''"
| "description TExists = ''`exists`''"
| "description TAnd = ''`&&`''"
| "description TOr = ''`||`''"
| "description TEqual = ''`==`''"
| "description TNotEqual = ''`!=`''"
| "description TLess = ''`<`''"
| "description TLessOrEqual = ''`<=`''"
| "description TGreater = ''`>`''"
| "description TGreaterOrEqual = ''`>=`''"
| "description TBang = ''`!`''"
| "description TLeftParen = ''`(`''"
| "description TRightParen = ''`)`''"
| "description TDot = ''`.`''"
| "description TLeftBracket = ''`[`''"
| "description TRightBracket = ''`]`''"
| "description TEnd = ''end of input''"

text \<open>What the engine uses of \<^verbatim>\<open>serde_json\<close>; a double is its 64 bits.\<close>

record 'n json_ops =
  decode_string :: "string \<Rightarrow> string option"
  decode_number :: "string \<Rightarrow> 'n option"
  as_i64 :: "'n \<Rightarrow> u64 option"
  as_u64 :: "'n \<Rightarrow> u64 option"
  as_f64 :: "'n \<Rightarrow> u64 option"

section \<open>Lexer\<close>

text \<open>
  The longest prefix of characters that satisfy a predicate on scalar values, and the rest:
  the shape of the three scanning loops of the lexer.
\<close>

function span_chars :: "(nat \<Rightarrow> bool) \<Rightarrow> string \<Rightarrow> string \<times> string" where
  "span_chars P s =
     (case next_char s of
        None \<Rightarrow> ([], s)
      | Some (ch, n) \<Rightarrow>
          if P ch then let (a, b) = span_chars P (drop n s) in (take n s @ a, b) else ([], s))"
  by pat_completeness auto
termination
  by (relation "measure (\<lambda>(P, s). length s)") (auto dest: next_char_drop_less simp del: length_drop)

declare span_chars.simps [simp del]

lemma span_chars_append: "span_chars P s = (a, b) \<Longrightarrow> s = a @ b"
proof (induction P s arbitrary: a b rule: span_chars.induct)
  case (1 P s)
  show ?case
  proof (cases "next_char s")
    case None
    with "1.prems" show ?thesis by (simp add: span_chars.simps [of P s])
  next
    case (Some cn)
    obtain ch n where cn: "cn = (ch, n)" by fastforce
    obtain a' b' where ab: "span_chars P (drop n s) = (a', b')" by fastforce
    show ?thesis
    proof (cases "P ch")
      case True
      then have "drop n s = a' @ b'" using "1.IH" [OF Some cn [symmetric] _ ab] by simp
      moreover have "a = take n s @ a'" "b = b'"
        using True "1.prems" Some cn ab by (simp_all add: span_chars.simps [of P s])
      ultimately show ?thesis by (metis append_assoc append_take_drop_id)
    next
      case False
      with "1.prems" Some cn show ?thesis by (simp add: span_chars.simps [of P s])
    qed
  qed
qed

definition skip_whitespace :: "string \<Rightarrow> string" where
  "skip_whitespace rest = snd (span_chars is_whitespace rest)"

definition identifier_char :: "nat \<Rightarrow> bool" where
  "identifier_char ch \<longleftrightarrow> (48 \<le> ch \<and> ch \<le> 57) \<or> (65 \<le> ch \<and> ch \<le> 90) \<or> (97 \<le> ch \<and> ch \<le> 122) \<or>
     ch = char_code (CHR ''_'') \<or> ch = char_code (CHR ''-'')"

definition number_char :: "nat \<Rightarrow> bool" where
  "number_char ch \<longleftrightarrow> (48 \<le> ch \<and> ch \<le> 57) \<or> ch \<in> char_code ` {CHR ''-'', CHR ''+'', CHR ''.'', CHR ''e'', CHR ''E''}"

definition identifier_token :: "nat \<Rightarrow> string \<Rightarrow> 'n Token \<times> string" where
  "identifier_token pos rest =
     (let (v, rest') = span_chars identifier_char rest;
          k = (if v = ''true'' then TTrue else if v = ''false'' then TFalse
               else if v = ''null'' then TNull else if v = ''exists'' then TExists
               else TIdentifier v)
      in (\<lparr>kind = k, position = pos\<rparr>, rest'))"

fun scan_string :: "bool \<Rightarrow> string \<Rightarrow> nat option" where
  "scan_string escaped [] = None"
| "scan_string escaped (b # bs) =
     (if escaped then map_option Suc (scan_string False bs)
      else if b = CHR 92 then map_option Suc (scan_string True bs)
      else if b = CHR 34 then Some 1
      else map_option Suc (scan_string False bs))"

type_synonym 'n lex_result = "('n Token \<times> string, ParseError) result option"

definition string_token :: "'n json_ops \<Rightarrow> ExpressionLimits \<Rightarrow> nat \<Rightarrow> string \<Rightarrow> ('n Token \<times> string, ParseError) result" where
  "string_token ops limits pos rest =
     (case scan_string False (tl rest) of
        None \<Rightarrow> Err (UnterminatedString pos)
      | Some n \<Rightarrow>
          (case decode_string ops (take (Suc n) rest) of
             None \<Rightarrow> Err (InvalidString pos)
           | Some decoded \<Rightarrow>
               if max_string_bytes limits < length decoded
               then Err (StringTooLong pos (max_string_bytes limits))
               else Ok (\<lparr>kind = TString decoded, position = pos\<rparr>, drop (Suc n) rest)))"

definition number_token :: "'n json_ops \<Rightarrow> nat \<Rightarrow> string \<Rightarrow> ('n Token \<times> string, ParseError) result" where
  "number_token ops pos rest =
     (let (encoded, rest') = span_chars number_char rest in
      case decode_number ops encoded of
        None \<Rightarrow> Err (InvalidNumber pos)
      | Some number \<Rightarrow> Ok (\<lparr>kind = TNumber number, position = pos\<rparr>, rest'))"

definition two_char_tokens :: "(string \<times> 'n TokenKind) list" where
  "two_char_tokens = [(''&&'', TAnd), (''||'', TOr), (''=='', TEqual), (''!='', TNotEqual),
     (''<='', TLessOrEqual), (''>='', TGreaterOrEqual)]"

definition one_char_tokens :: "(nat \<times> 'n TokenKind) list" where
  "one_char_tokens = map (\<lambda>(c, k). (char_code c, k))
     [(CHR ''!'', TBang), (CHR ''<'', TLess), (CHR ''>'', TGreater), (CHR ''('', TLeftParen),
      (CHR '')'', TRightParen), (CHR ''.'', TDot), (CHR ''['', TLeftBracket), (CHR '']'', TRightBracket)]"

definition starts_with :: "string \<Rightarrow> string \<Rightarrow> bool" where
  "starts_with text rest \<longleftrightarrow> take (length text) rest = text"

definition next_token :: "'n json_ops \<Rightarrow> ExpressionLimits \<Rightarrow> nat \<Rightarrow> string \<Rightarrow> 'n lex_result" where
  "next_token ops limits pos rest =
     (case find (\<lambda>(text, k). starts_with text rest) two_char_tokens of
        Some (text, k) \<Rightarrow> Some (Ok (\<lparr>kind = k, position = pos\<rparr>, drop (length text) rest))
      | None \<Rightarrow>
          (case next_char rest of
             None \<Rightarrow> None
           | Some (ch, n) \<Rightarrow>
               (case map_of one_char_tokens ch of
                  Some k \<Rightarrow> Some (Ok (\<lparr>kind = k, position = pos\<rparr>, drop n rest))
                | None \<Rightarrow>
                    if ch = 34 then Some (string_token ops limits pos rest)
                    else if ch = char_code (CHR ''-'') \<or> (48 \<le> ch \<and> ch \<le> 57) then Some (number_token ops pos rest)
                    else if (65 \<le> ch \<and> ch \<le> 90) \<or> (97 \<le> ch \<and> ch \<le> 122) \<or> ch = char_code (CHR ''_'')
                    then Some (Ok (identifier_token pos rest))
                    else Some (Err (UnexpectedCharacter pos ch)))))"

text \<open>A token consumes at least one byte.\<close>

lemma span_chars_progress:
  assumes "next_char s = Some (ch, n)" "P ch" "span_chars P s = (a, b)"
  shows "length b < length s" and "a \<noteq> []"
proof -
  obtain a' b' where ab: "span_chars P (drop n s) = (a', b')" by fastforce
  then have eq: "a = take n s @ a'" "b = b'" using assms by (simp_all add: span_chars.simps [of P s])
  have "length b' \<le> length (drop n s)" using span_chars_append [OF ab] by (metis length_append le_add2)
  then show "length b < length s" using eq next_char_drop_less [OF assms(1)] by simp
  have "s \<noteq> []" using assms(1) by auto
  then show "a \<noteq> []" using eq next_char_width [OF assms(1)] by auto
qed

lemma next_token_progress:
  assumes "next_token ops limits pos rest = Some (Ok (t, rest'))"
  shows "length rest' < length rest"
proof (cases "find (\<lambda>(text, k). starts_with text rest) (two_char_tokens :: (string \<times> 'a TokenKind) list)")
  case (Some tk)
  obtain tx k where tk: "tk = (tx, k)" by fastforce
  with Some have "starts_with tx rest" "tx \<noteq> []"
    by (auto simp: two_char_tokens_def split: if_splits)
  then have "0 < length tx" "rest \<noteq> []" by (auto simp: starts_with_def)
  then show ?thesis using assms Some tk by (auto simp: next_token_def)
next
  case None
  then obtain ch n where ch: "next_char rest = Some (ch, n)"
    using assms by (auto simp: next_token_def split: option.splits)
  note less = next_char_drop_less [OF ch] next_char_width [OF ch]
  have num: "number_char ch" if "ch = char_code (CHR ''-'') \<or> (48 \<le> ch \<and> ch \<le> 57)"
    using that by (auto simp: number_char_def)
  have id: "identifier_char ch" if "(65 \<le> ch \<and> ch \<le> 90) \<or> (97 \<le> ch \<and> ch \<le> 122) \<or> ch = char_code (CHR ''_'')"
    using that by (auto simp: identifier_char_def)
  have "rest \<noteq> []" using ch by auto
  then have str: "length rest' < length rest" if "string_token ops limits pos rest = Ok (t, rest')"
    using that by (auto simp: string_token_def split: option.splits if_splits)
  have numt: "length rest' < length rest" if "number_token ops pos rest = Ok (t, rest')" "number_char ch"
    using that span_chars_progress [where P = number_char, OF ch that(2)]
    by (auto simp: number_token_def split: option.splits prod.splits)
  have idt: "length rest' < length rest" if "identifier_token pos rest = (t, rest')" "identifier_char ch"
    using that span_chars_progress [where P = identifier_char, OF ch that(2)] by (auto simp: identifier_token_def split: prod.splits)
  show ?thesis
    using assms None ch less num id str numt idt
    by (auto simp: next_token_def split: option.splits if_splits)
qed

function tokenize ::
  "'n json_ops \<Rightarrow> ExpressionLimits \<Rightarrow> nat \<Rightarrow> string \<Rightarrow> 'n Token list \<Rightarrow> ('n Token list, ParseError) result option" where
  "tokenize ops limits len rest tokens =
     (let rest1 = (if rest = [] then [] else skip_whitespace rest) in
      if rest1 = [] then Some (Ok (tokens @ [\<lparr>kind = TEnd, position = len\<rparr>]))
      else (case next_token ops limits (len - length rest1) rest1 of
              None \<Rightarrow> None
            | Some (Err e) \<Rightarrow> Some (Err e)
            | Some (Ok (t, rest2)) \<Rightarrow> tokenize ops limits len rest2 (tokens @ [t])))"
  by pat_completeness auto
termination
proof (relation "measure (\<lambda>(ops, limits, len, rest, tokens). length rest)", simp)
  fix ops :: "'n json_ops" and limits len rest tokens rest1 r p t rest2
  assume rest1: "rest1 = (if rest = [] then [] else skip_whitespace rest)" "rest1 \<noteq> []"
    and tok: "next_token ops limits (len - length rest1) rest1 = Some r" "r = Ok p" "(t, rest2) = p"
  have "length rest1 \<le> length rest"
    using rest1 span_chars_append [of is_whitespace rest]
    by (cases "span_chars is_whitespace rest") (auto simp: skip_whitespace_def split: if_splits)
  moreover have "length rest2 < length rest1" using tok next_token_progress by metis
  ultimately show "((ops, limits, len, rest2, tokens @ [t]), ops, limits, len, rest, tokens)
      \<in> measure (\<lambda>(ops, limits, len, rest, tokens). length rest)"
    by simp
qed

declare tokenize.simps [simp del]

section \<open>Parser\<close>

text \<open>The state of the parser besides its tokens and limits: the index of the current token and the number of nodes.\<close>

type_synonym pstate = "nat \<times> nat"
type_synonym 'a parse_result = "('a \<times> pstate, ParseError) result option"
type_synonym 'a parser = "pstate \<Rightarrow> 'a parse_result"

definition preturn :: "'a \<Rightarrow> 'a parser" where
  "preturn x st = Some (Ok (x, st))"

definition pfail :: "ParseError \<Rightarrow> 'a parser" where
  "pfail e st = Some (Err e)"

definition pbind :: "'a parser \<Rightarrow> ('a \<Rightarrow> 'b parser) \<Rightarrow> 'b parser" where
  "pbind p f st =
     (case p st of None \<Rightarrow> None | Some (Err e) \<Rightarrow> Some (Err e) | Some (Ok (x, st')) \<Rightarrow> f x st')"

definition current :: "'n Token list \<Rightarrow> 'n Token parser" where
  "current tokens st = (if fst st < length tokens then Some (Ok (tokens ! fst st, st)) else None)"

definition advance :: "unit parser" where
  "advance st = Some (Ok ((), (Suc (fst st), snd st)))"

definition unexpected :: "'n Token list \<Rightarrow> string \<Rightarrow> 'a parser" where
  "unexpected tokens expected =
     pbind (current tokens) (\<lambda>t. pfail (UnexpectedToken (position t) expected (description (kind t))))"

definition node :: "ExpressionLimits \<Rightarrow> 'n Expression \<Rightarrow> 'n Expression parser" where
  "node limits e st =
     (let nodes = Suc (snd st) in
      if max_nodes limits < nodes then Some (Err (NodeLimitExceeded (max_nodes limits)))
      else Some (Ok (e, (fst st, nodes))))"

definition ensure_depth :: "ExpressionLimits \<Rightarrow> nat \<Rightarrow> unit parser" where
  "ensure_depth limits depth =
     (if max_depth limits < depth then pfail (DepthExceeded (max_depth limits)) else preturn ())"

datatype TokenDiscriminant = DLeftParen | DRightParen | DRightBracket

fun matches :: "TokenDiscriminant \<Rightarrow> 'n TokenKind \<Rightarrow> bool" where
  "matches DLeftParen TLeftParen = True"
| "matches DRightParen TRightParen = True"
| "matches DRightBracket TRightBracket = True"
| "matches _ _ = False"

definition expect :: "'n Token list \<Rightarrow> TokenDiscriminant \<Rightarrow> string \<Rightarrow> unit parser" where
  "expect tokens expected what =
     pbind (current tokens) (\<lambda>t.
       if matches expected (kind t) then advance else unexpected tokens what)"

definition expect_end :: "'n Token list \<Rightarrow> unit parser" where
  "expect_end tokens =
     pbind (current tokens) (\<lambda>t. if is_end (kind t) then preturn () else pfail (TrailingInput (position t)))"

fun token_identifier :: "'n TokenKind \<Rightarrow> string option" where
  "token_identifier (TIdentifier key) = Some key"
| "token_identifier _ = None"

fun token_number :: "'n TokenKind \<Rightarrow> 'n option" where
  "token_number (TNumber number) = Some number"
| "token_number _ = None"

text \<open>One iteration of the loop of \<open>parse_path\<close>: the next segment, or \<open>None\<close> at its end.\<close>

definition path_step :: "'n json_ops \<Rightarrow> 'n Token list \<Rightarrow> PathSegment option parser" where
  "path_step ops tokens =
     pbind (current tokens) (\<lambda>t.
       if is_dot (kind t) then
         pbind advance (\<lambda>_. pbind (current tokens) (\<lambda>t.
           case token_identifier (kind t) of
             Some key \<Rightarrow> pbind advance (\<lambda>_. preturn (Some (Key key)))
           | None \<Rightarrow> unexpected tokens ''a path key''))
       else if is_left_bracket (kind t) then
         pbind advance (\<lambda>_. pbind (current tokens) (\<lambda>t.
           case token_number (kind t) of
             Some number \<Rightarrow>
               (case as_u64 ops number of
                  None \<Rightarrow> pfail (InvalidArrayIndex (position t))
                | Some index \<Rightarrow>
                    pbind advance (\<lambda>_. pbind (expect tokens DRightBracket ''`]`'') (\<lambda>_.
                      preturn (Some (Index (unat index))))))
           | None \<Rightarrow> unexpected tokens ''an array index''))
       else preturn None)"

text \<open>What holds of a parser's result if it returns one: a liberal precondition.\<close>

definition wlp :: "'a parser \<Rightarrow> ('a \<Rightarrow> pstate \<Rightarrow> bool) \<Rightarrow> pstate \<Rightarrow> bool" where
  "wlp p Q st = (case p st of Some (Ok (x, st')) \<Rightarrow> Q x st' | _ \<Rightarrow> True)"

named_theorems wlp_simps

lemma wlp_pbind [wlp_simps]: "wlp (pbind p f) Q st = wlp p (\<lambda>x. wlp (f x) Q) st"
  by (auto simp: wlp_def pbind_def split: option.splits result.splits)

lemma wlp_basic [wlp_simps]:
  "wlp (preturn x) Q st = Q x st"
  "wlp (pfail e) Q st = True"
  "wlp (current tokens) Q1 st = (fst st < length tokens \<longrightarrow> Q1 (tokens ! fst st) st)"
  "wlp advance Q2 st = Q2 () (Suc (fst st), snd st)"
  "wlp (node limits ex) Q3 st = (snd st < max_nodes limits \<longrightarrow> Q3 ex (fst st, Suc (snd st)))"
  "wlp (unexpected tokens what) Q' st = True"
  by (auto simp: wlp_def preturn_def pfail_def current_def advance_def node_def unexpected_def pbind_def Let_def)

lemma wlp_expect [wlp_simps]:
  "wlp (expect tokens d what) Q st =
     (fst st < length tokens \<and> matches d (kind (tokens ! fst st)) \<longrightarrow> Q () (Suc (fst st), snd st))"
  by (auto simp: expect_def wlp_simps)

lemma wlp_if [wlp_simps]: "wlp (if b then p else q) Q st = (if b then wlp p Q st else wlp q Q st)"
  by simp

lemma wlp_case_option [wlp_simps]:
  "wlp (case x of None \<Rightarrow> p | Some y \<Rightarrow> q y) Q st = (case x of None \<Rightarrow> wlp p Q st | Some y \<Rightarrow> wlp (q y) Q st)"
  by (cases x) simp_all

lemma path_step_index:
  assumes "path_step ops tokens st = Some (Ok (Some s, st'))"
  shows "fst st < fst st' \<and> fst st < length tokens"
proof -
  have "wlp (path_step ops tokens) (\<lambda>r st'. r \<noteq> None \<longrightarrow> fst st < fst st' \<and> fst st < length tokens) st"
    unfolding path_step_def by (simp add: wlp_simps split: option.split)
  then show ?thesis using assms by (simp add: wlp_def)
qed

function path_loop ::
  "'n json_ops \<Rightarrow> ExpressionLimits \<Rightarrow> 'n Token list \<Rightarrow> nat \<Rightarrow> PathSegment list \<Rightarrow> EnvironmentPath parser" where
  "path_loop ops limits tokens start acc st =
     (case path_step ops tokens st of
        None \<Rightarrow> None
      | Some (Err e) \<Rightarrow> Some (Err e)
      | Some (Ok (None, st')) \<Rightarrow> Some (Ok (EnvironmentPath acc, st'))
      | Some (Ok (Some s, st')) \<Rightarrow>
          if max_path_segments limits < length (acc @ [s])
          then Some (Err (PathSegmentsExceeded start (max_path_segments limits)))
          else path_loop ops limits tokens start (acc @ [s]) st')"
  by pat_completeness auto
termination
  by (relation "measure (\<lambda>(ops, limits, tokens, start, acc, st). length tokens - fst st)")
    (auto dest!: path_step_index)

declare path_loop.simps [simp del]

definition parse_path :: "'n json_ops \<Rightarrow> ExpressionLimits \<Rightarrow> 'n Token list \<Rightarrow> EnvironmentPath parser" where
  "parse_path ops limits tokens =
     pbind (current tokens) (\<lambda>t.
       case token_identifier (kind t) of
         Some key \<Rightarrow> pbind advance (\<lambda>_. path_loop ops limits tokens (position t) [Key key])
       | None \<Rightarrow> unexpected tokens ''a path'')"

fun token_literal :: "'n TokenKind \<Rightarrow> 'n Literal option" where
  "token_literal TTrue = Some (LBoolean True)"
| "token_literal TFalse = Some (LBoolean False)"
| "token_literal TNull = Some LNull"
| "token_literal (TString v) = Some (LString v)"
| "token_literal (TNumber v) = Some (LNumber v)"
| "token_literal _ = None"

definition parse_operand :: "'n json_ops \<Rightarrow> ExpressionLimits \<Rightarrow> 'n Token list \<Rightarrow> 'n Operand parser" where
  "parse_operand ops limits tokens =
     pbind (current tokens) (\<lambda>t.
       case token_literal (kind t) of
         Some literal \<Rightarrow> pbind advance (\<lambda>_. preturn (Literal literal))
       | None \<Rightarrow>
           (case token_identifier (kind t) of
              Some _ \<Rightarrow> pbind (parse_path ops limits tokens) (\<lambda>p. preturn (Path p))
            | None \<Rightarrow> unexpected tokens ''an operand''))"

fun comparison_operator :: "'n TokenKind \<Rightarrow> ComparisonOperator option" where
  "comparison_operator TEqual = Some Equal"
| "comparison_operator TNotEqual = Some NotEqual"
| "comparison_operator TLess = Some Less"
| "comparison_operator TLessOrEqual = Some LessOrEqual"
| "comparison_operator TGreater = Some Greater"
| "comparison_operator TGreaterOrEqual = Some GreaterOrEqual"
| "comparison_operator _ = None"

definition parse_exists :: "'n json_ops \<Rightarrow> ExpressionLimits \<Rightarrow> 'n Token list \<Rightarrow> 'n Expression parser" where
  "parse_exists ops limits tokens =
     pbind advance (\<lambda>_. pbind (expect tokens DLeftParen ''`(`'') (\<lambda>_.
       pbind (parse_path ops limits tokens) (\<lambda>path.
       pbind (expect tokens DRightParen ''`)`'') (\<lambda>_. node limits (Exists path)))))"

definition parse_comparison :: "'n json_ops \<Rightarrow> ExpressionLimits \<Rightarrow> 'n Token list \<Rightarrow> 'n Expression parser" where
  "parse_comparison ops limits tokens =
     pbind (parse_operand ops limits tokens) (\<lambda>left. pbind (current tokens) (\<lambda>t.
       case comparison_operator (kind t) of
         Some operator \<Rightarrow>
           pbind advance (\<lambda>_. pbind (parse_operand ops limits tokens) (\<lambda>right.
             node limits (Compare left operator right)))
       | None \<Rightarrow> node limits (Value left)))"

function (sequential) parse_or ::
  "nat \<Rightarrow> 'n json_ops \<Rightarrow> ExpressionLimits \<Rightarrow> 'n Token list \<Rightarrow> nat \<Rightarrow> 'n Expression parser"
and or_loop ::
  "nat \<Rightarrow> 'n json_ops \<Rightarrow> ExpressionLimits \<Rightarrow> 'n Token list \<Rightarrow> nat \<Rightarrow> 'n Expression \<Rightarrow> 'n Expression parser"
and parse_and ::
  "nat \<Rightarrow> 'n json_ops \<Rightarrow> ExpressionLimits \<Rightarrow> 'n Token list \<Rightarrow> nat \<Rightarrow> 'n Expression parser"
and and_loop ::
  "nat \<Rightarrow> 'n json_ops \<Rightarrow> ExpressionLimits \<Rightarrow> 'n Token list \<Rightarrow> nat \<Rightarrow> 'n Expression \<Rightarrow> 'n Expression parser"
and parse_unary ::
  "nat \<Rightarrow> 'n json_ops \<Rightarrow> ExpressionLimits \<Rightarrow> 'n Token list \<Rightarrow> nat \<Rightarrow> 'n Expression parser"
and parse_primary ::
  "nat \<Rightarrow> 'n json_ops \<Rightarrow> ExpressionLimits \<Rightarrow> 'n Token list \<Rightarrow> nat \<Rightarrow> 'n Expression parser"
where
  "parse_or 0 ops limits tokens depth st = None"
| "parse_or (Suc fuel) ops limits tokens depth st =
     pbind (ensure_depth limits depth) (\<lambda>_.
     pbind (parse_and fuel ops limits tokens depth) (or_loop fuel ops limits tokens depth)) st"
| "or_loop 0 ops limits tokens depth expression st = None"
| "or_loop (Suc fuel) ops limits tokens depth expression st =
     pbind (current tokens) (\<lambda>t.
       if is_or (kind t) then
         pbind advance (\<lambda>_. pbind (parse_and fuel ops limits tokens depth) (\<lambda>right.
           pbind (node limits (Or expression right)) (or_loop fuel ops limits tokens depth)))
       else preturn expression) st"
| "parse_and 0 ops limits tokens depth st = None"
| "parse_and (Suc fuel) ops limits tokens depth st =
     pbind (parse_unary fuel ops limits tokens depth) (and_loop fuel ops limits tokens depth) st"
| "and_loop 0 ops limits tokens depth expression st = None"
| "and_loop (Suc fuel) ops limits tokens depth expression st =
     pbind (current tokens) (\<lambda>t.
       if is_and (kind t) then
         pbind advance (\<lambda>_. pbind (parse_unary fuel ops limits tokens depth) (\<lambda>right.
           pbind (node limits (And expression right)) (and_loop fuel ops limits tokens depth)))
       else preturn expression) st"
| "parse_unary 0 ops limits tokens depth st = None"
| "parse_unary (Suc fuel) ops limits tokens depth st =
     pbind (ensure_depth limits depth) (\<lambda>_. pbind (current tokens) (\<lambda>t.
       if is_bang (kind t) then
         pbind advance (\<lambda>_. pbind (parse_unary fuel ops limits tokens (Suc depth)) (\<lambda>expression.
           node limits (Not expression)))
       else parse_primary fuel ops limits tokens depth)) st"
| "parse_primary 0 ops limits tokens depth st = None"
| "parse_primary (Suc fuel) ops limits tokens depth st =
     pbind (current tokens) (\<lambda>t.
       if is_left_paren (kind t) then
         pbind advance (\<lambda>_. pbind (parse_or fuel ops limits tokens (Suc depth)) (\<lambda>expression.
           pbind (expect tokens DRightParen ''`)`'') (\<lambda>_. preturn expression)))
       else if is_exists (kind t) then parse_exists ops limits tokens
       else parse_comparison ops limits tokens) st"
  by pat_completeness auto
termination
  by (relation "measure (\<lambda>x. case x of
      Inl (Inl (n, _)) \<Rightarrow> n | Inl (Inr (Inl (n, _))) \<Rightarrow> n | Inl (Inr (Inr (n, _))) \<Rightarrow> n
    | Inr (Inl (n, _)) \<Rightarrow> n | Inr (Inr (Inl (n, _))) \<Rightarrow> n | Inr (Inr (Inr (n, _))) \<Rightarrow> n)") simp_all

fun expression_depth :: "'n Expression \<Rightarrow> nat" where
  "expression_depth (Value _) = 1"
| "expression_depth (Compare _ _ _) = 1"
| "expression_depth (Exists _) = 1"
| "expression_depth (Not inner) = 1 + expression_depth inner"
| "expression_depth (And left right) = 1 + max (expression_depth left) (expression_depth right)"
| "expression_depth (Or left right) = 1 + max (expression_depth left) (expression_depth right)"

definition parse_fuel :: "'n Token list \<Rightarrow> nat" where
  "parse_fuel tokens = 4 * length tokens + 4"

definition parse_tokens ::
  "'n json_ops \<Rightarrow> ExpressionLimits \<Rightarrow> 'n Token list \<Rightarrow> ('n Expression, ParseError) result option" where
  "parse_tokens ops limits tokens =
     (case pbind (parse_or (parse_fuel tokens) ops limits tokens 1) (\<lambda>expression.
             pbind (expect_end tokens) (\<lambda>_. preturn expression)) (0, 0) of
        None \<Rightarrow> None
      | Some (Err e) \<Rightarrow> Some (Err e)
      | Some (Ok (expression, st)) \<Rightarrow>
          if max_depth limits < expression_depth expression
          then Some (Err (DepthExceeded (max_depth limits)))
          else Some (Ok expression))"

definition parse ::
  "'n json_ops \<Rightarrow> string \<Rightarrow> ExpressionLimits \<Rightarrow> ('n Expression, ParseError) result option" where
  "parse ops source limits =
     (if max_input_bytes limits < length source
      then Some (Err (InputTooLong (length source) (max_input_bytes limits)))
      else if max_nodes limits = 0 \<or> max_depth limits = 0 \<or> max_path_segments limits = 0
      then Some (Err InvalidLimits)
      else (case tokenize ops limits (length source) source [] of
              None \<Rightarrow> None
            | Some (Err e) \<Rightarrow> Some (Err e)
            | Some (Ok tokens) \<Rightarrow> parse_tokens ops limits tokens))"

end
