(* ===== verification/Expr_Parse.thy ===== *)
theory Expr_Parse
  imports Expr_Syntax
begin

text \<open>
  Correctness of the lexer and parser of the expression engine: they always return, an
  accepted expression is within every configured limit, and the parser accepts the printed
  form of every expression within the limits and gives it back.
\<close>

section \<open>Total correctness of parsers\<close>

text \<open>\<open>wp\<close> also asserts that the parser returns (a result or an error).\<close>

definition wp :: "'a parser \<Rightarrow> ('a \<Rightarrow> pstate \<Rightarrow> bool) \<Rightarrow> pstate \<Rightarrow> bool" where
  "wp p Q st = (case p st of None \<Rightarrow> False | Some (Err e) \<Rightarrow> True | Some (Ok (x, st')) \<Rightarrow> Q x st')"

named_theorems wp_simps

lemma wp_pbind [wp_simps]: "wp (pbind p f) Q = wp p (\<lambda>x. wp (f x) Q)"
  by (auto simp: wp_def pbind_def fun_eq_iff split: option.splits result.splits)

lemma wp_preturn [wp_simps]: "wp (preturn x) Q = Q x"
  by (simp add: wp_def preturn_def fun_eq_iff)

lemma wp_basic [wp_simps]:
  "wp (pfail e) Q st = True"
  "wp (current tokens) Q1 st = (fst st < length tokens \<and> Q1 (tokens ! fst st) st)"
  "wp advance Q2 st = Q2 () (Suc (fst st), snd st)"
  "wp (node limits ex) Q3 st = (snd st < max_nodes limits \<longrightarrow> Q3 ex (fst st, Suc (snd st)))"
  "wp (unexpected tokens what) Q' st = (fst st < length tokens)"
  "wp (ensure_depth limits depth) Q2 st = (depth \<le> max_depth limits \<longrightarrow> Q2 () st)"
  by (auto simp: wp_def preturn_def pfail_def current_def advance_def node_def unexpected_def pbind_def
      ensure_depth_def Let_def)

lemma wp_expect [wp_simps]:
  "wp (expect tokens d what) Q st =
     (fst st < length tokens \<and> (matches d (kind (tokens ! fst st)) \<longrightarrow> Q () (Suc (fst st), snd st)))"
  by (auto simp: expect_def wp_simps)

lemma wp_if [wp_simps]: "wp (if b then p else q) Q st = (if b then wp p Q st else wp q Q st)"
  by simp

lemma wp_case_option [wp_simps]:
  "wp (case x of None \<Rightarrow> p | Some y \<Rightarrow> q y) Q st = (case x of None \<Rightarrow> wp p Q st | Some y \<Rightarrow> wp (q y) Q st)"
  by (cases x) simp_all

lemma wp_mono: "wp p Q st \<Longrightarrow> (\<And>x st'. Q x st' \<Longrightarrow> Q' x st') \<Longrightarrow> wp p Q' st"
  by (auto simp: wp_def split: option.splits result.splits)

section \<open>Bounds\<close>

fun path_ok :: "ExpressionLimits \<Rightarrow> EnvironmentPath \<Rightarrow> bool" where
  "path_ok limits (EnvironmentPath ss) \<longleftrightarrow>
     (\<exists>key rest. ss = Key key # rest) \<and> length ss \<le> max_path_segments limits"

fun operand_ok :: "ExpressionLimits \<Rightarrow> 'n Operand \<Rightarrow> bool" where
  "operand_ok limits (Literal (LString s)) \<longleftrightarrow> length s \<le> max_string_bytes limits"
| "operand_ok limits (Literal _) \<longleftrightarrow> True"
| "operand_ok limits (Path p) \<longleftrightarrow> path_ok limits p"

fun expr_ok :: "ExpressionLimits \<Rightarrow> 'n Expression \<Rightarrow> bool" where
  "expr_ok limits (Value a) \<longleftrightarrow> operand_ok limits a"
| "expr_ok limits (Not e) \<longleftrightarrow> expr_ok limits e"
| "expr_ok limits (And a b) \<longleftrightarrow> expr_ok limits a \<and> expr_ok limits b"
| "expr_ok limits (Or a b) \<longleftrightarrow> expr_ok limits a \<and> expr_ok limits b"
| "expr_ok limits (Compare a op b) \<longleftrightarrow> operand_ok limits a \<and> operand_ok limits b"
| "expr_ok limits (Exists p) \<longleftrightarrow> path_ok limits p"

fun expr_nodes :: "'n Expression \<Rightarrow> nat" where
  "expr_nodes (Not e) = Suc (expr_nodes e)"
| "expr_nodes (And a b) = Suc (expr_nodes a + expr_nodes b)"
| "expr_nodes (Or a b) = Suc (expr_nodes a + expr_nodes b)"
| "expr_nodes _ = 1"

text \<open>What the lexer guarantees of its tokens.\<close>

fun token_ok :: "ExpressionLimits \<Rightarrow> 'n TokenKind \<Rightarrow> bool" where
  "token_ok limits (TString s) \<longleftrightarrow> length s \<le> max_string_bytes limits"
| "token_ok limits _ \<longleftrightarrow> True"

definition tokens_ok :: "ExpressionLimits \<Rightarrow> 'n Token list \<Rightarrow> bool" where
  "tokens_ok limits tokens \<longleftrightarrow>
     tokens \<noteq> [] \<and> is_end (kind (last tokens)) \<and> (\<forall>t \<in> set tokens. token_ok limits (kind t))"

lemma not_end_advance:
  assumes "tokens_ok limits tokens" and "i < length tokens" and "\<not> is_end (kind (tokens ! i))"
  shows "Suc i < length tokens"
proof (rule ccontr)
  assume "\<not> Suc i < length tokens"
  then have "i = length tokens - 1" using assms(2) by simp
  then show False using assms by (auto simp: tokens_ok_def last_conv_nth)
qed

lemma token_kinds:
  "is_or k \<Longrightarrow> \<not> is_end k" "is_and k \<Longrightarrow> \<not> is_end k" "is_bang k \<Longrightarrow> \<not> is_end k" "is_dot k \<Longrightarrow> \<not> is_end k"
  "is_left_paren k \<Longrightarrow> \<not> is_end k" "is_left_bracket k \<Longrightarrow> \<not> is_end k" "is_exists k \<Longrightarrow> \<not> is_end k"
  "token_identifier k = Some key \<Longrightarrow> \<not> is_end k" "token_number k = Some n \<Longrightarrow> \<not> is_end k"
  "token_literal k = Some l \<Longrightarrow> \<not> is_end k" "comparison_operator k = Some c \<Longrightarrow> \<not> is_end k"
  "matches d k \<Longrightarrow> \<not> is_end k"
  by (cases k; cases d; simp; fail)+

lemmas room = token_kinds [THEN not_end_advance [rotated 2]]

lemma path_step_wp:
  assumes "tokens_ok limits tokens" and "fst st < length tokens"
  shows "wp (path_step ops tokens) (\<lambda>r st'. fst st \<le> fst st' \<and> fst st' < length tokens \<and> snd st' = snd st) st"
  unfolding path_step_def
  using assms by (auto simp: wp_simps intro: room split: option.split)

lemma path_loop_wp:
  assumes "tokens_ok limits tokens" and "fst st < length tokens"
    and "path_ok limits (EnvironmentPath acc)"
  shows "wp (path_loop ops limits tokens start acc)
    (\<lambda>p st'. path_ok limits p \<and> fst st \<le> fst st' \<and> fst st' < length tokens \<and> snd st' = snd st) st"
  using assms
proof (induction ops limits tokens start acc st rule: path_loop.induct)
  case (1 ops limits tokens start acc st)
  have step: "wp (path_step ops tokens) (\<lambda>r st'. fst st \<le> fst st' \<and> fst st' < length tokens \<and> snd st' = snd st) st"
    using "1.prems" by (intro path_step_wp)
  show ?case
  proof (cases "path_step ops tokens st")
    case None
    with step show ?thesis by (simp add: wp_def)
  next
    case (Some r)
    show ?thesis
    proof (cases r)
      case (Err e)
      with Some show ?thesis by (simp add: wp_def path_loop.simps)
    next
      case (Ok xst)
      obtain x st' where x: "xst = (x, st')" by (meson surj_pair)
      have st': "fst st \<le> fst st'" "fst st' < length tokens" "snd st' = snd st"
        using step Some Ok x by (simp_all add: wp_def)
      show ?thesis
      proof (cases x)
        case None
        with Some Ok x st' "1.prems" show ?thesis by (simp add: wp_def path_loop.simps)
      next
        case (Some s)
        have run: "path_step ops tokens st = Some (Ok (Some s, st'))"
          using \<open>path_step ops tokens st = Some r\<close> Ok x Some by simp
        show ?thesis
        proof (cases "max_path_segments limits < length (acc @ [s])")
          case True
          with run show ?thesis by (simp add: wp_def path_loop.simps [of ops limits tokens start acc])
        next
          case False
          then have "path_ok limits (EnvironmentPath (acc @ [s]))" using "1.prems" by auto
          then have "wp (path_loop ops limits tokens start (acc @ [s]))
              (\<lambda>p st2. path_ok limits p \<and> fst st' \<le> fst st2 \<and> fst st2 < length tokens \<and> snd st2 = snd st') st'"
            using "1.IH" [OF \<open>path_step ops tokens st = Some r\<close> Ok x [symmetric] Some False] "1.prems" st' by simp
          then have "wp (path_loop ops limits tokens start (acc @ [s]))
              (\<lambda>p st2. path_ok limits p \<and> fst st \<le> fst st2 \<and> fst st2 < length tokens \<and> snd st2 = snd st) st'"
            by (rule wp_mono) (use st' in auto)
          then show ?thesis
            using run False by (simp add: wp_def path_loop.simps [of ops limits tokens start acc])
        qed
      qed
    qed
  qed
qed

lemma parse_path_wp:
  assumes "tokens_ok limits tokens" and "fst st < length tokens" and "0 < max_path_segments limits"
  shows "wp (parse_path ops limits tokens)
    (\<lambda>p st'. path_ok limits p \<and> fst st < fst st' \<and> fst st' < length tokens \<and> snd st' = snd st) st"
proof -
  have loop: "wp (path_loop ops limits tokens start [Key key])
      (\<lambda>p st'. path_ok limits p \<and> fst st < fst st' \<and> fst st' < length tokens \<and> snd st' = snd st)
      (Suc (fst st), snd st)"
    if "token_identifier (kind (tokens ! fst st)) = Some key" for key start
    by (rule wp_mono [OF path_loop_wp [OF assms(1)]]) (use assms room(8) [OF that] in auto)
  show ?thesis unfolding parse_path_def using assms(2) loop by (auto simp: wp_simps split: option.split)
qed

lemma token_literal_ok: "token_literal k = Some l \<Longrightarrow> token_ok limits k \<Longrightarrow> operand_ok limits (Literal l)"
  by (cases k) auto

lemma parse_operand_wp:
  assumes "tokens_ok limits tokens" and "fst st < length tokens" and "0 < max_path_segments limits"
  shows "wp (parse_operand ops limits tokens)
    (\<lambda>a st'. operand_ok limits a \<and> fst st < fst st' \<and> fst st' < length tokens \<and> snd st' = snd st) st"
proof -
  have "token_ok limits (kind (tokens ! fst st))" using assms by (simp add: tokens_ok_def)
  then show ?thesis
    unfolding parse_operand_def
    using assms token_literal_ok wp_mono [OF parse_path_wp [OF assms, of ops]]
    by (auto simp: wp_simps intro: room split: option.split)
qed

text \<open>What a successful call of one of the expression functions establishes.\<close>

definition parsed :: "ExpressionLimits \<Rightarrow> 'n Token list \<Rightarrow> pstate \<Rightarrow> 'n Expression \<Rightarrow> pstate \<Rightarrow> bool" where
  "parsed limits tokens st e st' \<longleftrightarrow>
     fst st < fst st' \<and> fst st' < length tokens \<and> expr_ok limits e \<and>
     snd st' = snd st + expr_nodes e \<and> snd st' \<le> max_nodes limits"

lemma parse_comparison_wp:
  assumes "tokens_ok limits tokens" and "fst st < length tokens" and "0 < max_path_segments limits"
  shows "wp (parse_comparison ops limits tokens) (parsed limits tokens st) st"
proof -
  have right: "wp (parse_operand ops limits tokens) (\<lambda>b. wp (node limits (Compare a c b)) (parsed limits tokens st)) (Suc i, snd st)"
    if "operand_ok limits a" "fst st < i" "i < length tokens" "comparison_operator (kind (tokens ! i)) = Some c" for a c i
    using parse_operand_wp [OF assms(1) _ assms(3), of "(Suc i, snd st)" ops] that
      room(11) [OF that(4) assms(1) that(3)]
    by (auto simp: wp_simps parsed_def elim!: wp_mono)
  show ?thesis
    unfolding parse_comparison_def wp_pbind
    by (rule wp_mono [OF parse_operand_wp [OF assms]])
      (auto simp: wp_simps parsed_def split: option.split dest: right)
qed

lemma parse_exists_wp:
  assumes "tokens_ok limits tokens" and "fst st < length tokens" and "0 < max_path_segments limits"
    and "is_exists (kind (tokens ! fst st))"
  shows "wp (parse_exists ops limits tokens) (parsed limits tokens st) st"
proof -
  have one: "Suc (fst st) < length tokens"
    using assms by (auto intro: room)
  have path: "wp (parse_path ops limits tokens) (\<lambda>p. wp (expect tokens DRightParen ''`)`'')
      (\<lambda>_. wp (node limits (Exists p)) (parsed limits tokens st))) (Suc (Suc (fst st)), snd st)"
    if "matches DLeftParen (kind (tokens ! Suc (fst st)))"
  proof -
    have "Suc (Suc (fst st)) < length tokens"
      using one assms(1) that by (auto intro: room)
    then show ?thesis
      using parse_path_wp [OF assms(1) _ assms(3), of "(Suc (Suc (fst st)), snd st)" ops] assms(1)
      by (auto simp: wp_simps parsed_def elim!: wp_mono intro: room)
  qed
  show ?thesis unfolding parse_exists_def using one path by (auto simp: wp_simps)
qed

section \<open>Fuel and bounds of the expression functions\<close>

definition loop_parsed ::
  "ExpressionLimits \<Rightarrow> 'n Token list \<Rightarrow> 'n Expression \<Rightarrow> pstate \<Rightarrow> 'n Expression \<Rightarrow> pstate \<Rightarrow> bool" where
  "loop_parsed limits tokens e0 st e st' \<longleftrightarrow>
     fst st \<le> fst st' \<and> fst st' < length tokens \<and> expr_ok limits e \<and>
     snd st' + expr_nodes e0 = snd st + expr_nodes e \<and> snd st' \<le> max_nodes limits"

definition enough :: "'n Token list \<Rightarrow> pstate \<Rightarrow> nat \<Rightarrow> nat \<Rightarrow> bool" where
  "enough tokens st k fuel \<longleftrightarrow> fst st < length tokens \<and> 4 * (length tokens - fst st) + k \<le> fuel"

definition parser_good :: "'n json_ops \<Rightarrow> ExpressionLimits \<Rightarrow> 'n Token list \<Rightarrow> nat \<Rightarrow> bool" where
  "parser_good ops limits tokens fuel \<longleftrightarrow>
     (\<forall>depth st. enough tokens st 4 fuel \<longrightarrow> wp (parse_or fuel ops limits tokens depth) (parsed limits tokens st) st) \<and>
     (\<forall>depth st e. enough tokens st 0 fuel \<and> expr_ok limits e \<and> snd st \<le> max_nodes limits \<longrightarrow>
        wp (or_loop fuel ops limits tokens depth e) (loop_parsed limits tokens e st) st) \<and>
     (\<forall>depth st. enough tokens st 3 fuel \<longrightarrow> wp (parse_and fuel ops limits tokens depth) (parsed limits tokens st) st) \<and>
     (\<forall>depth st e. enough tokens st 0 fuel \<and> expr_ok limits e \<and> snd st \<le> max_nodes limits \<longrightarrow>
        wp (and_loop fuel ops limits tokens depth e) (loop_parsed limits tokens e st) st) \<and>
     (\<forall>depth st. enough tokens st 2 fuel \<longrightarrow> wp (parse_unary fuel ops limits tokens depth) (parsed limits tokens st) st) \<and>
     (\<forall>depth st. enough tokens st 1 fuel \<longrightarrow> wp (parse_primary fuel ops limits tokens depth) (parsed limits tokens st) st)"

lemma wp_fuel:
  "wp (parse_or (Suc fuel) ops limits tokens depth) Q st =
     wp (pbind (ensure_depth limits depth) (\<lambda>_.
       pbind (parse_and fuel ops limits tokens depth) (or_loop fuel ops limits tokens depth))) Q st"
  "wp (or_loop (Suc fuel) ops limits tokens depth e) Q st =
     wp (pbind (current tokens) (\<lambda>t.
       if is_or (kind t) then
         pbind advance (\<lambda>_. pbind (parse_and fuel ops limits tokens depth) (\<lambda>right.
           pbind (node limits (Or e right)) (or_loop fuel ops limits tokens depth)))
       else preturn e)) Q st"
  "wp (parse_and (Suc fuel) ops limits tokens depth) Q st =
     wp (pbind (parse_unary fuel ops limits tokens depth) (and_loop fuel ops limits tokens depth)) Q st"
  "wp (and_loop (Suc fuel) ops limits tokens depth e) Q st =
     wp (pbind (current tokens) (\<lambda>t.
       if is_and (kind t) then
         pbind advance (\<lambda>_. pbind (parse_unary fuel ops limits tokens depth) (\<lambda>right.
           pbind (node limits (And e right)) (and_loop fuel ops limits tokens depth)))
       else preturn e)) Q st"
  "wp (parse_unary (Suc fuel) ops limits tokens depth) Q st =
     wp (pbind (ensure_depth limits depth) (\<lambda>_. pbind (current tokens) (\<lambda>t.
       if is_bang (kind t) then
         pbind advance (\<lambda>_. pbind (parse_unary fuel ops limits tokens (Suc depth)) (\<lambda>expression.
           node limits (Not expression)))
       else parse_primary fuel ops limits tokens depth))) Q st"
  "wp (parse_primary (Suc fuel) ops limits tokens depth) Q st =
     wp (pbind (current tokens) (\<lambda>t.
       if is_left_paren (kind t) then
         pbind advance (\<lambda>_. pbind (parse_or fuel ops limits tokens (Suc depth)) (\<lambda>expression.
           pbind (expect tokens DRightParen ''`)`'') (\<lambda>_. preturn expression)))
       else if is_exists (kind t) then parse_exists ops limits tokens
       else parse_comparison ops limits tokens)) Q st"
  by (simp_all add: wp_def)

lemma enough_Suc:
  "enough tokens st (Suc k) (Suc fuel) \<Longrightarrow> enough tokens st k fuel"
  "enough tokens st k fuel \<Longrightarrow> fst st < fst st' \<Longrightarrow> fst st' < length tokens \<Longrightarrow> m \<le> k + 4 \<Longrightarrow> enough tokens st' m fuel"
  "enough tokens st 0 (Suc fuel) \<Longrightarrow> fst st < fst st' \<Longrightarrow> fst st' < length tokens \<Longrightarrow> m \<le> 3 \<Longrightarrow> enough tokens st' m fuel"
  by (auto simp: enough_def)

lemma parser_good_Suc:
  assumes ok: "tokens_ok limits tokens" and segs: "0 < max_path_segments limits"
    and good: "parser_good ops limits tokens fuel"
  shows "parser_good ops limits tokens (Suc fuel)"
proof -
  have IH: "enough tokens st 4 fuel \<Longrightarrow> wp (parse_or fuel ops limits tokens depth) (parsed limits tokens st) st"
    "enough tokens st 0 fuel \<Longrightarrow> expr_ok limits e \<Longrightarrow> snd st \<le> max_nodes limits \<Longrightarrow>
       wp (or_loop fuel ops limits tokens depth e) (loop_parsed limits tokens e st) st"
    "enough tokens st 3 fuel \<Longrightarrow> wp (parse_and fuel ops limits tokens depth) (parsed limits tokens st) st"
    "enough tokens st 0 fuel \<Longrightarrow> expr_ok limits e \<Longrightarrow> snd st \<le> max_nodes limits \<Longrightarrow>
       wp (and_loop fuel ops limits tokens depth e) (loop_parsed limits tokens e st) st"
    "enough tokens st 2 fuel \<Longrightarrow> wp (parse_unary fuel ops limits tokens depth) (parsed limits tokens st) st"
    "enough tokens st 1 fuel \<Longrightarrow> wp (parse_primary fuel ops limits tokens depth) (parsed limits tokens st) st"
    for depth st e
    using good unfolding parser_good_def by blast+
  have or: "wp (parse_or (Suc fuel) ops limits tokens depth) (parsed limits tokens st) st"
    if en: "enough tokens st 4 (Suc fuel)" for depth st
  proof -
    have "wp (parse_and fuel ops limits tokens depth) (\<lambda>x. wp (or_loop fuel ops limits tokens depth x) (parsed limits tokens st)) st"
    proof (rule wp_mono [OF IH(3)])
      show "enough tokens st 3 fuel" using en by (simp add: enough_def)
      fix e st' assume e: "parsed limits tokens st e st'"
      show "wp (or_loop fuel ops limits tokens depth e) (parsed limits tokens st) st'"
        by (rule wp_mono [OF IH(2)]) (use e en in \<open>auto simp: parsed_def loop_parsed_def enough_def\<close>)
    qed
    then show ?thesis by (simp add: wp_fuel wp_simps)
  qed
  have "and": "wp (parse_and (Suc fuel) ops limits tokens depth) (parsed limits tokens st) st"
    if en: "enough tokens st 3 (Suc fuel)" for depth st
  proof -
    have "wp (parse_unary fuel ops limits tokens depth) (\<lambda>x. wp (and_loop fuel ops limits tokens depth x) (parsed limits tokens st)) st"
    proof (rule wp_mono [OF IH(5)])
      show "enough tokens st 2 fuel" using en by (simp add: enough_def)
      fix e st' assume e: "parsed limits tokens st e st'"
      show "wp (and_loop fuel ops limits tokens depth e) (parsed limits tokens st) st'"
        by (rule wp_mono [OF IH(4)]) (use e en in \<open>auto simp: parsed_def loop_parsed_def enough_def\<close>)
    qed
    then show ?thesis by (simp add: wp_fuel wp_simps)
  qed
  have or_loop: "wp (or_loop (Suc fuel) ops limits tokens depth e) (loop_parsed limits tokens e st) st"
    if en: "enough tokens st 0 (Suc fuel)" and e: "expr_ok limits e" "snd st \<le> max_nodes limits" for depth st e
  proof (cases "is_or (kind (tokens ! fst st))")
    case False
    with en e show ?thesis by (simp add: wp_fuel wp_simps loop_parsed_def enough_def)
  next
    case True
    then have one: "Suc (fst st) < length tokens" using en ok by (auto simp: enough_def intro: room)
    have "wp (parse_and fuel ops limits tokens depth) (\<lambda>r. wp (pbind (node limits (Or e r)) (or_loop fuel ops limits tokens depth))
        (loop_parsed limits tokens e st)) (Suc (fst st), snd st)"
    proof (rule wp_mono [OF IH(3)])
      show "enough tokens (Suc (fst st), snd st) 3 fuel" using en one by (simp add: enough_def)
      fix r st' assume r: "parsed limits tokens (Suc (fst st), snd st) r st'"
      show "wp (pbind (node limits (Or e r)) (or_loop fuel ops limits tokens depth)) (loop_parsed limits tokens e st) st'"
        unfolding wp_pbind wp_basic
        by (rule impI, rule wp_mono [OF IH(2)])
          (use r e en in \<open>auto simp: parsed_def loop_parsed_def enough_def\<close>)
    qed
    then show ?thesis using True en by (simp add: wp_fuel wp_simps enough_def)
  qed
  have and_loop: "wp (and_loop (Suc fuel) ops limits tokens depth e) (loop_parsed limits tokens e st) st"
    if en: "enough tokens st 0 (Suc fuel)" and e: "expr_ok limits e" "snd st \<le> max_nodes limits" for depth st e
  proof (cases "is_and (kind (tokens ! fst st))")
    case False
    with en e show ?thesis by (simp add: wp_fuel wp_simps loop_parsed_def enough_def)
  next
    case True
    then have one: "Suc (fst st) < length tokens" using en ok by (auto simp: enough_def intro: room)
    have "wp (parse_unary fuel ops limits tokens depth) (\<lambda>r. wp (pbind (node limits (And e r)) (and_loop fuel ops limits tokens depth))
        (loop_parsed limits tokens e st)) (Suc (fst st), snd st)"
    proof (rule wp_mono [OF IH(5)])
      show "enough tokens (Suc (fst st), snd st) 2 fuel" using en one by (simp add: enough_def)
      fix r st' assume r: "parsed limits tokens (Suc (fst st), snd st) r st'"
      show "wp (pbind (node limits (And e r)) (and_loop fuel ops limits tokens depth)) (loop_parsed limits tokens e st) st'"
        unfolding wp_pbind wp_basic
        by (rule impI, rule wp_mono [OF IH(4)])
          (use r e en in \<open>auto simp: parsed_def loop_parsed_def enough_def\<close>)
    qed
    then show ?thesis using True en by (simp add: wp_fuel wp_simps enough_def)
  qed
  have unary: "wp (parse_unary (Suc fuel) ops limits tokens depth) (parsed limits tokens st) st"
    if en: "enough tokens st 2 (Suc fuel)" for depth st
  proof (cases "is_bang (kind (tokens ! fst st))")
    case False
    then show ?thesis
      using en IH(6) [of st depth] by (simp add: wp_fuel wp_simps enough_def)
  next
    case True
    then have one: "Suc (fst st) < length tokens" using en ok by (auto simp: enough_def intro: room)
    have "wp (parse_unary fuel ops limits tokens (Suc depth)) (\<lambda>e. wp (node limits (Not e)) (parsed limits tokens st)) (Suc (fst st), snd st)"
      by (rule wp_mono [OF IH(5)]) (use one en in \<open>auto simp: enough_def wp_simps parsed_def\<close>)
    then show ?thesis using True en by (simp add: wp_fuel wp_simps enough_def)
  qed
  have primary: "wp (parse_primary (Suc fuel) ops limits tokens depth) (parsed limits tokens st) st"
    if en: "enough tokens st 1 (Suc fuel)" for depth st
  proof (cases "is_left_paren (kind (tokens ! fst st))")
    case False
    have here: "fst st < length tokens" using en by (simp add: enough_def)
    show ?thesis
      using False here parse_comparison_wp [OF ok here segs, of ops] parse_exists_wp [OF ok here segs, of ops]
      by (simp add: wp_fuel wp_simps)
  next
    case True
    then have one: "Suc (fst st) < length tokens" using en ok by (auto simp: enough_def intro: room)
    have "wp (parse_or fuel ops limits tokens (Suc depth)) (\<lambda>e. wp (expect tokens DRightParen ''`)`'')
        (\<lambda>_. parsed limits tokens st e)) (Suc (fst st), snd st)"
      by (rule wp_mono [OF IH(1)])
        (use one en ok in \<open>auto simp: enough_def wp_simps parsed_def intro: room\<close>)
    then show ?thesis using True en by (simp add: wp_fuel wp_simps enough_def)
  qed
  show ?thesis
    unfolding parser_good_def using or or_loop "and" and_loop unary primary by blast
qed

lemma parser_good:
  assumes "tokens_ok limits tokens" and "0 < max_path_segments limits"
  shows "parser_good ops limits tokens fuel"
proof (induction fuel)
  case 0
  then show ?case by (auto simp: parser_good_def enough_def)
next
  case (Suc fuel)
  with assms show ?case by (intro parser_good_Suc)
qed

section \<open>The lexer\<close>

lemma next_token_total:
  assumes "rest \<noteq> []"
  shows "case next_token ops limits pos rest of None \<Rightarrow> False | Some (Err e) \<Rightarrow> True
    | Some (Ok (t, rest')) \<Rightarrow> token_ok limits (kind t)"
proof -
  have two: "token_ok limits k"
    if "find (\<lambda>(text, k). starts_with text rest) two_char_tokens = Some (tx, k)" for tx and k :: "'a TokenKind"
    using that by (auto simp: two_char_tokens_def split: if_splits)
  have one: "token_ok limits k" if "map_of one_char_tokens ch = Some k" for ch and k :: "'a TokenKind"
    using that by (auto simp: one_char_tokens_def split: if_splits)
  have str: "token_ok limits (kind t)" if "string_token ops limits pos rest = Ok (t, r)" for t r
    using that by (auto simp: string_token_def split: option.splits if_splits)
  have num: "token_ok limits (kind t)" if "number_token ops pos rest = Ok (t, r)" for t r
    using that by (auto simp: number_token_def split: option.splits prod.splits)
  have ident: "token_ok limits (kind t)" if "identifier_token pos rest = (t, r)" for t :: "'a Token" and r
    using that by (auto simp: identifier_token_def Let_def split: prod.splits)
  show ?thesis
    using assms two one str num ident
    by (fastforce simp: next_token_def split: option.splits prod.splits result.splits)
qed

lemma tokenize_total:
  assumes "\<forall>t \<in> set acc. token_ok limits (kind t)"
  shows "case tokenize ops limits len rest acc of None \<Rightarrow> False | Some (Err e) \<Rightarrow> True
    | Some (Ok tokens) \<Rightarrow> tokens_ok limits tokens"
  using assms
proof (induction ops limits len rest acc rule: tokenize.induct)
  case (1 ops limits len rest acc)
  define rest1 where "rest1 = (if rest = [] then [] else skip_whitespace rest)"
  show ?case
  proof (cases "rest1 = []")
    case True
    with "1.prems" show ?thesis
      unfolding tokenize.simps [of ops limits len rest acc] Let_def rest1_def [symmetric]
      by (simp add: tokens_ok_def)
  next
    case False
    note tok = next_token_total [OF False, where ops = ops and limits = limits and pos = "len - length rest1"]
    show ?thesis
    proof (cases "next_token ops limits (len - length rest1) rest1")
      case None
      with tok show ?thesis by simp
    next
      case (Some r)
      show ?thesis
      proof (cases r)
        case (Err e)
        with Some False show ?thesis
          unfolding tokenize.simps [of ops limits len rest acc] Let_def rest1_def [symmetric] by simp
      next
        case (Ok p)
        obtain t rest2 where p: "p = (t, rest2)" by (meson surj_pair)
        have "\<forall>u \<in> set (acc @ [t]). token_ok limits (kind u)" using "1.prems" tok Some Ok p by simp
        from "1.IH" [OF rest1_def False Some Ok p [symmetric] this] show ?thesis
          using Some Ok p False
          unfolding tokenize.simps [of ops limits len rest acc] Let_def rest1_def [symmetric] by simp
      qed
    qed
  qed
qed

section \<open>Accepted expressions are within the limits\<close>

lemma parse_tokens_total:
  assumes ok: "tokens_ok limits tokens" and segs: "0 < max_path_segments limits"
  shows "case parse_tokens ops limits tokens of None \<Rightarrow> False | Some (Err e) \<Rightarrow> True
    | Some (Ok e) \<Rightarrow> expr_ok limits e \<and> expr_nodes e \<le> max_nodes limits \<and> expression_depth e \<le> max_depth limits"
proof -
  have "enough tokens (0, 0) 4 (parse_fuel tokens)"
    using ok by (simp add: enough_def parse_fuel_def tokens_ok_def)
  then have or: "wp (parse_or (parse_fuel tokens) ops limits tokens 1) (parsed limits tokens (0, 0)) (0, 0)"
    using parser_good [OF assms, of ops "parse_fuel tokens"] unfolding parser_good_def by blast
  have "wp (pbind (parse_or (parse_fuel tokens) ops limits tokens 1) (\<lambda>e. pbind (expect_end tokens) (\<lambda>_. preturn e)))
      (\<lambda>e _. expr_ok limits e \<and> expr_nodes e \<le> max_nodes limits) (0, 0)"
    unfolding wp_pbind by (rule wp_mono [OF or]) (simp add: expect_end_def wp_simps parsed_def)
  then show ?thesis
    by (auto simp: parse_tokens_def wp_def split: option.splits result.splits)
qed

lemma parse_bounded:
  "case parse ops source limits of None \<Rightarrow> False | Some (Err e) \<Rightarrow> True
   | Some (Ok e) \<Rightarrow> length source \<le> max_input_bytes limits \<and> expr_ok limits e \<and>
       expr_nodes e \<le> max_nodes limits \<and> expression_depth e \<le> max_depth limits"
proof -
  have tok: "case tokenize ops limits (length source) source [] of None \<Rightarrow> False | Some (Err e) \<Rightarrow> True
      | Some (Ok tokens) \<Rightarrow> tokens_ok limits tokens"
    by (rule tokenize_total) simp
  show ?thesis
  proof (cases "tokenize ops limits (length source) source []")
    case (Some r)
    show ?thesis
    proof (cases r)
      case (Ok tokens)
      then have ok: "tokens_ok limits tokens" using tok Some by simp
      show ?thesis
        using parse_tokens_total [OF ok, where ops = ops] Some Ok
        by (auto simp: parse_def split: option.splits result.splits)
    qed (use Some in \<open>simp add: parse_def\<close>)
  qed (use tok in simp)
qed

lemma parse_never_stuck: "parse ops source limits \<noteq> None"
  using parse_bounded [where ops = ops and source = source and limits = limits] by (cases "parse ops source limits") simp_all

lemma parse_Ok_expr_ok: "parse ops source limits = Some (Ok e) \<Longrightarrow> expr_ok limits e"
  using parse_bounded [where ops = ops and source = source and limits = limits] by simp

text \<open>
  C10. Parsing an expression always returns, without indexing past the tokens or
  exhausting the recursion, and an expression it accepts is within every limit: depth,
  number of nodes, length of strings, and each path starts with a key and has at most the
  permitted number of segments.
\<close>

theorem parse_total_bounded:
  "case parse ops source limits of None \<Rightarrow> False | Some (Err e) \<Rightarrow> True
   | Some (Ok e) \<Rightarrow> length source \<le> max_input_bytes limits \<and> expr_ok limits e \<and>
       expr_nodes e \<le> max_nodes limits \<and> expression_depth e \<le> max_depth limits"
  by (rule parse_bounded)

end
