(* ===== verification/Expr_Print.thy ===== *)
theory Expr_Print
  imports Expr_Parse
begin

text \<open>
  The printed form of an expression, with the fewest parentheses, and the round trip: the
  parser reads every expression within the limits back from its tokens, and from its text.
  The fuel of the parser functions is removed first: they are monotone in it, and \<open>ev\<close>
  is a result with some fuel.
\<close>

section \<open>Results with some fuel\<close>

definition pmono :: "'a parser \<Rightarrow> 'a parser \<Rightarrow> bool" where
  "pmono p q \<longleftrightarrow> (\<forall>st r. p st = Some r \<longrightarrow> q st = Some r)"

lemma pmono_refl [simp]: "pmono p p"
  by (simp add: pmono_def)

lemma pmono_pbind: "pmono p q \<Longrightarrow> (\<And>x. pmono (f x) (g x)) \<Longrightarrow> pmono (pbind p f) (pbind q g)"
  unfolding pmono_def pbind_def by (auto split: option.splits result.splits)

lemma pmono_if: "(b \<Longrightarrow> pmono p p') \<Longrightarrow> (\<not> b \<Longrightarrow> pmono q q') \<Longrightarrow> pmono (if b then p else q) (if b then p' else q')"
  by simp

definition fuel_mono :: "'n json_ops \<Rightarrow> ExpressionLimits \<Rightarrow> 'n Token list \<Rightarrow> nat \<Rightarrow> bool" where
  "fuel_mono ops limits tokens fuel \<longleftrightarrow>
     (\<forall>d. pmono (parse_or fuel ops limits tokens d) (parse_or (Suc fuel) ops limits tokens d)) \<and>
     (\<forall>d e. pmono (or_loop fuel ops limits tokens d e) (or_loop (Suc fuel) ops limits tokens d e)) \<and>
     (\<forall>d. pmono (parse_and fuel ops limits tokens d) (parse_and (Suc fuel) ops limits tokens d)) \<and>
     (\<forall>d e. pmono (and_loop fuel ops limits tokens d e) (and_loop (Suc fuel) ops limits tokens d e)) \<and>
     (\<forall>d. pmono (parse_unary fuel ops limits tokens d) (parse_unary (Suc fuel) ops limits tokens d)) \<and>
     (\<forall>d. pmono (parse_primary fuel ops limits tokens d) (parse_primary (Suc fuel) ops limits tokens d))"

lemma fuel_mono_all: "fuel_mono ops limits tokens fuel"
proof (induction fuel)
  case 0
  then show ?case by (auto simp: fuel_mono_def pmono_def)
next
  case (Suc fuel)
  have eqs: "parse_or (Suc f) ops limits tokens d = pbind (ensure_depth limits d) (\<lambda>_.
      pbind (parse_and f ops limits tokens d) (or_loop f ops limits tokens d))"
    "parse_and (Suc f) ops limits tokens d = pbind (parse_unary f ops limits tokens d) (and_loop f ops limits tokens d)"
    "or_loop (Suc f) ops limits tokens d e = pbind (current tokens) (\<lambda>t.
       if is_or (kind t) then pbind advance (\<lambda>_. pbind (parse_and f ops limits tokens d) (\<lambda>right.
           pbind (node limits (Or e right)) (or_loop f ops limits tokens d)))
       else preturn e)"
    "and_loop (Suc f) ops limits tokens d e = pbind (current tokens) (\<lambda>t.
       if is_and (kind t) then pbind advance (\<lambda>_. pbind (parse_unary f ops limits tokens d) (\<lambda>right.
           pbind (node limits (And e right)) (and_loop f ops limits tokens d)))
       else preturn e)"
    "parse_unary (Suc f) ops limits tokens d = pbind (ensure_depth limits d) (\<lambda>_. pbind (current tokens) (\<lambda>t.
       if is_bang (kind t) then pbind advance (\<lambda>_. pbind (parse_unary f ops limits tokens (Suc d)) (\<lambda>e. node limits (Not e)))
       else parse_primary f ops limits tokens d))"
    "parse_primary (Suc f) ops limits tokens d = pbind (current tokens) (\<lambda>t.
       if is_left_paren (kind t) then pbind advance (\<lambda>_. pbind (parse_or f ops limits tokens (Suc d)) (\<lambda>e.
           pbind (expect tokens DRightParen ''`)`'') (\<lambda>_. preturn e)))
       else if is_exists (kind t) then parse_exists ops limits tokens
       else parse_comparison ops limits tokens)" for f d e
    by (simp_all add: fun_eq_iff)
  note IH = Suc [unfolded fuel_mono_def]
  show ?case
    unfolding fuel_mono_def
    by (intro conjI allI; subst eqs [of fuel], subst eqs [of "Suc fuel"];
        intro pmono_pbind pmono_refl pmono_if; use IH in blast)
qed

definition ev :: "(nat \<Rightarrow> 'a parser) \<Rightarrow> pstate \<Rightarrow> 'a \<Rightarrow> pstate \<Rightarrow> bool" where
  "ev P st x st' \<longleftrightarrow> (\<exists>fuel. P fuel st = Some (Ok (x, st')))"

definition mono_family :: "(nat \<Rightarrow> 'a parser) \<Rightarrow> bool" where
  "mono_family P \<longleftrightarrow> (\<forall>fuel. pmono (P fuel) (P (Suc fuel)))"

lemma mono_family_le: "mono_family P \<Longrightarrow> m \<le> n \<Longrightarrow> P m st = Some r \<Longrightarrow> P n st = Some r"
  unfolding mono_family_def pmono_def by (rule dec_induct [of m n "\<lambda>k. P k st = Some r"]) blast+

lemma parser_families:
  "mono_family (\<lambda>f. parse_or f ops limits tokens d)" "mono_family (\<lambda>f. or_loop f ops limits tokens d e)"
  "mono_family (\<lambda>f. parse_and f ops limits tokens d)" "mono_family (\<lambda>f. and_loop f ops limits tokens d e)"
  "mono_family (\<lambda>f. parse_unary f ops limits tokens d)" "mono_family (\<lambda>f. parse_primary f ops limits tokens d)"
  using fuel_mono_all [of ops limits tokens] unfolding fuel_mono_def mono_family_def by blast+

lemma ev_both:
  assumes "ev P st x st1" "ev Q st2 y st3" "mono_family P" "mono_family Q"
  shows "\<exists>f. P f st = Some (Ok (x, st1)) \<and> Q f st2 = Some (Ok (y, st3))"
proof -
  obtain m n where "P m st = Some (Ok (x, st1))" "Q n st2 = Some (Ok (y, st3))"
    using assms(1,2) unfolding ev_def by blast
  then have "P (max m n) st = Some (Ok (x, st1))" "Q (max m n) st2 = Some (Ok (y, st3))"
    using assms(3,4) by (meson max.cobounded1 max.cobounded2 mono_family_le)+
  then show ?thesis by blast
qed

section \<open>Big-step rules\<close>

lemma ev_or:
  assumes "d \<le> max_depth limits" and "ev (\<lambda>f. parse_and f ops limits tokens d) st e st1"
    and "ev (\<lambda>f. or_loop f ops limits tokens d e) st1 e' st2"
  shows "ev (\<lambda>f. parse_or f ops limits tokens d) st e' st2"
proof -
  obtain f where "parse_and f ops limits tokens d st = Some (Ok (e, st1))"
      "or_loop f ops limits tokens d e st1 = Some (Ok (e', st2))"
    using ev_both [OF assms(2,3) parser_families(3,2)] by blast
  then have "parse_or (Suc f) ops limits tokens d st = Some (Ok (e', st2))"
    using assms(1) by (simp add: pbind_def ensure_depth_def preturn_def)
  then show ?thesis unfolding ev_def by blast
qed

lemma ev_and:
  assumes "ev (\<lambda>f. parse_unary f ops limits tokens d) st e st1"
    and "ev (\<lambda>f. and_loop f ops limits tokens d e) st1 e' st2"
  shows "ev (\<lambda>f. parse_and f ops limits tokens d) st e' st2"
proof -
  obtain f where "parse_unary f ops limits tokens d st = Some (Ok (e, st1))"
      "and_loop f ops limits tokens d e st1 = Some (Ok (e', st2))"
    using ev_both [OF assms(1,2) parser_families(5,4)] by blast
  then have "parse_and (Suc f) ops limits tokens d st = Some (Ok (e', st2))" by (simp add: pbind_def)
  then show ?thesis unfolding ev_def by blast
qed

lemma ev_loop_done:
  "i < length tokens \<Longrightarrow> \<not> is_or (kind (tokens ! i)) \<Longrightarrow> ev (\<lambda>f. or_loop f ops limits tokens d e) (i, n) e (i, n)"
  "i < length tokens \<Longrightarrow> \<not> is_and (kind (tokens ! i)) \<Longrightarrow> ev (\<lambda>f. and_loop f ops limits tokens d e) (i, n) e (i, n)"
  unfolding ev_def by (rule exI [of _ "Suc 0"], simp add: pbind_def current_def preturn_def)+

lemma ev_or_more:
  assumes "i < length tokens" "is_or (kind (tokens ! i))"
    and "ev (\<lambda>f. parse_and f ops limits tokens d) (Suc i, n) r (j, m)" and "m < max_nodes limits"
    and "ev (\<lambda>f. or_loop f ops limits tokens d (Or e r)) (j, Suc m) e' st2"
  shows "ev (\<lambda>f. or_loop f ops limits tokens d e) (i, n) e' st2"
proof -
  obtain f where "parse_and f ops limits tokens d (Suc i, n) = Some (Ok (r, (j, m)))"
      "or_loop f ops limits tokens d (Or e r) (j, Suc m) = Some (Ok (e', st2))"
    using ev_both [OF assms(3,5) parser_families(3,2)] by blast
  then have "or_loop (Suc f) ops limits tokens d e (i, n) = Some (Ok (e', st2))"
    using assms(1,2,4) by (simp add: pbind_def current_def advance_def node_def)
  then show ?thesis unfolding ev_def by blast
qed

lemma ev_and_more:
  assumes "i < length tokens" "is_and (kind (tokens ! i))"
    and "ev (\<lambda>f. parse_unary f ops limits tokens d) (Suc i, n) r (j, m)" and "m < max_nodes limits"
    and "ev (\<lambda>f. and_loop f ops limits tokens d (And e r)) (j, Suc m) e' st2"
  shows "ev (\<lambda>f. and_loop f ops limits tokens d e) (i, n) e' st2"
proof -
  obtain f where "parse_unary f ops limits tokens d (Suc i, n) = Some (Ok (r, (j, m)))"
      "and_loop f ops limits tokens d (And e r) (j, Suc m) = Some (Ok (e', st2))"
    using ev_both [OF assms(3,5) parser_families(5,4)] by blast
  then have "and_loop (Suc f) ops limits tokens d e (i, n) = Some (Ok (e', st2))"
    using assms(1,2,4) by (simp add: pbind_def current_def advance_def node_def)
  then show ?thesis unfolding ev_def by blast
qed

lemma ev_not:
  assumes "d \<le> max_depth limits" "i < length tokens" "is_bang (kind (tokens ! i))"
    and "ev (\<lambda>f. parse_unary f ops limits tokens (Suc d)) (Suc i, n) e (j, m)" and "m < max_nodes limits"
  shows "ev (\<lambda>f. parse_unary f ops limits tokens d) (i, n) (Not e) (j, Suc m)"
proof -
  obtain f where "parse_unary f ops limits tokens (Suc d) (Suc i, n) = Some (Ok (e, (j, m)))"
    using assms(4) unfolding ev_def by blast
  then have "parse_unary (Suc f) ops limits tokens d (i, n) = Some (Ok (Not e, (j, Suc m)))"
    using assms by (simp add: pbind_def ensure_depth_def preturn_def current_def advance_def node_def)
  then show ?thesis unfolding ev_def by blast
qed

lemma ev_paren:
  assumes "d \<le> max_depth limits" "i < length tokens" "kind (tokens ! i) = TLeftParen"
    and "ev (\<lambda>f. parse_or f ops limits tokens (Suc d)) (Suc i, n) e (j, m)"
    and "j < length tokens" "kind (tokens ! j) = TRightParen"
  shows "ev (\<lambda>f. parse_unary f ops limits tokens d) (i, n) e (Suc j, m)"
proof -
  obtain f where "parse_or f ops limits tokens (Suc d) (Suc i, n) = Some (Ok (e, (j, m)))"
    using assms(4) unfolding ev_def by blast
  then have "parse_unary (Suc (Suc f)) ops limits tokens d (i, n) = Some (Ok (e, (Suc j, m)))"
    using assms by (simp add: pbind_def ensure_depth_def preturn_def current_def advance_def expect_def)
  then show ?thesis unfolding ev_def by blast
qed

lemma ev_atom:
  assumes "d \<le> max_depth limits" "i < length tokens" "\<not> is_bang (kind (tokens ! i))" "\<not> is_left_paren (kind (tokens ! i))"
    and "(if is_exists (kind (tokens ! i)) then parse_exists ops limits tokens else parse_comparison ops limits tokens)
      (i, n) = Some (Ok (e, st))"
  shows "ev (\<lambda>f. parse_unary f ops limits tokens d) (i, n) e st"
proof -
  have "parse_unary (Suc (Suc 0)) ops limits tokens d (i, n) = Some (Ok (e, st))"
    using assms by (simp add: pbind_def ensure_depth_def preturn_def current_def split: if_splits)
  then show ?thesis unfolding ev_def by blast
qed

section \<open>Printing to tokens\<close>

text \<open>\<open>num\<close> writes an array index as a JSON number.\<close>

fun pr_segment :: "(nat \<Rightarrow> 'n) \<Rightarrow> PathSegment \<Rightarrow> 'n TokenKind list" where
  "pr_segment num (Key key) = [TDot, TIdentifier key]"
| "pr_segment num (Index n) = [TLeftBracket, TNumber (num n), TRightBracket]"

fun pr_path :: "(nat \<Rightarrow> 'n) \<Rightarrow> EnvironmentPath \<Rightarrow> 'n TokenKind list" where
  "pr_path num (EnvironmentPath (Key key # ss)) = TIdentifier key # concat (map (pr_segment num) ss)"
| "pr_path num _ = []"

fun pr_operand :: "(nat \<Rightarrow> 'n) \<Rightarrow> 'n Operand \<Rightarrow> 'n TokenKind list" where
  "pr_operand num (Literal LNull) = [TNull]"
| "pr_operand num (Literal (LBoolean b)) = [if b then TTrue else TFalse]"
| "pr_operand num (Literal (LNumber n)) = [TNumber n]"
| "pr_operand num (Literal (LString s)) = [TString s]"
| "pr_operand num (Path p) = pr_path num p"

fun pr_operator :: "ComparisonOperator \<Rightarrow> 'n TokenKind" where
  "pr_operator Equal = TEqual"
| "pr_operator NotEqual = TNotEqual"
| "pr_operator Less = TLess"
| "pr_operator LessOrEqual = TLessOrEqual"
| "pr_operator Greater = TGreater"
| "pr_operator GreaterOrEqual = TGreaterOrEqual"

definition parens :: "bool \<Rightarrow> 'n TokenKind list \<Rightarrow> 'n TokenKind list" where
  "parens b ks = (if b then TLeftParen # ks @ [TRightParen] else ks)"

fun pr :: "(nat \<Rightarrow> 'n) \<Rightarrow> nat \<Rightarrow> 'n Expression \<Rightarrow> 'n TokenKind list" where
  "pr num l (Or a b) = parens (0 < l) (pr num 0 a @ TOr # pr num 1 b)"
| "pr num l (And a b) = parens (1 < l) (pr num 1 a @ TAnd # pr num 2 b)"
| "pr num l (Not e) = TBang # pr num 2 e"
| "pr num l (Value a) = pr_operand num a"
| "pr num l (Compare a c b) = pr_operand num a @ pr_operator c # pr_operand num b"
| "pr num l (Exists p) = TExists # TLeftParen # pr_path num p @ [TRightParen]"

text \<open>The parser depth the printed form needs at each level, and that it is never more than the depth of the tree.\<close>

fun need :: "nat \<Rightarrow> 'n Expression \<Rightarrow> nat" where
  "need l (Or a b) = (if 0 < l then 1 else 0) + max (need 0 a) (need 1 b)"
| "need l (And a b) = (if 1 < l then 1 else 0) + max (need 1 a) (need 2 b)"
| "need l (Not e) = 1 + need 2 e"
| "need l _ = 1"

lemma need_le_depth: "need l e \<le> expression_depth e"
  by (induction l e rule: need.induct) auto

lemma need_pos: "0 < need l e"
  by (induction l e rule: need.induct) auto

section \<open>Reading printed tokens\<close>

definition at :: "'n Token list \<Rightarrow> nat \<Rightarrow> 'n TokenKind list \<Rightarrow> bool" where
  "at tokens i ks \<longleftrightarrow> map kind (take (length ks) (drop i tokens)) = ks"

lemma at_Nil [simp]: "at tokens i []"
  by (simp add: at_def)

lemma at_Cons [simp]: "at tokens i (k # ks) \<longleftrightarrow> i < length tokens \<and> kind (tokens ! i) = k \<and> at tokens (Suc i) ks"
proof (cases "i < length tokens")
  case True
  then show ?thesis by (auto simp: at_def Cons_nth_drop_Suc [symmetric])
next
  case False
  then show ?thesis by (simp add: at_def)
qed

lemma at_append [simp]: "at tokens i (ks @ ks') \<longleftrightarrow> at tokens i ks \<and> at tokens (i + length ks) ks'"
  by (induction ks arbitrary: i) auto

text \<open>The laws of \<^verbatim>\<open>serde_json\<close> numbers the printed form relies on, and the expressions that can be printed.\<close>

definition index_numbers :: "'n json_ops \<Rightarrow> (nat \<Rightarrow> 'n) \<Rightarrow> bool" where
  "index_numbers ops num \<longleftrightarrow> (\<forall>n < 2 ^ 64. as_u64 ops (num n) = Some (of_nat n))"

fun segment_fits :: "PathSegment \<Rightarrow> bool" where
  "segment_fits (Key k) = True"
| "segment_fits (Index n) = (n < 2 ^ 64)"

fun operand_paths :: "'n Operand \<Rightarrow> EnvironmentPath list" where
  "operand_paths (Path p) = [p]"
| "operand_paths (Literal l) = []"

fun expr_paths :: "'n Expression \<Rightarrow> EnvironmentPath list" where
  "expr_paths (Or a b) = expr_paths a @ expr_paths b"
| "expr_paths (And a b) = expr_paths a @ expr_paths b"
| "expr_paths (Not e) = expr_paths e"
| "expr_paths (Value a) = operand_paths a"
| "expr_paths (Compare a c b) = operand_paths a @ operand_paths b"
| "expr_paths (Exists p) = [p]"

definition indices_fit :: "'n Expression \<Rightarrow> bool" where
  "indices_fit e \<longleftrightarrow> (\<forall>p \<in> set (expr_paths e). \<forall>s \<in> set (segments p). segment_fits s)"

definition path_follow :: "'n TokenKind \<Rightarrow> bool" where
  "path_follow k \<longleftrightarrow> \<not> is_dot k \<and> \<not> is_left_bracket k"

lemma path_step_segment:
  assumes "index_numbers ops num" "segment_fits s" "at tokens i (pr_segment num s)"
  shows "path_step ops tokens (i, n) = Some (Ok (Some s, (i + length (pr_segment num s), n)))"
  using assms
  by (cases s) (auto simp: path_step_def pbind_def current_def advance_def preturn_def expect_def
      index_numbers_def unsigned_of_nat take_bit_nat_eq_self)

lemma path_loop_print:
  assumes num: "index_numbers ops num" and "\<forall>s \<in> set ss. segment_fits s"
    and "at tokens i (concat (map (pr_segment num) ss))"
    and "length acc + length ss \<le> max_path_segments limits"
    and "i + length (concat (map (pr_segment num) ss)) < length tokens"
    and "path_follow (kind (tokens ! (i + length (concat (map (pr_segment num) ss)))))"
  shows "path_loop ops limits tokens start acc (i, n) =
    Some (Ok (EnvironmentPath (acc @ ss), (i + length (concat (map (pr_segment num) ss)), n)))"
  using assms(2-)
proof (induction ss arbitrary: acc i)
  case Nil
  then have "path_step ops tokens (i, n) = Some (Ok (None, (i, n)))"
    by (simp add: path_step_def pbind_def current_def preturn_def path_follow_def)
  then show ?case by (simp add: path_loop.simps)
next
  case (Cons s ss)
  have "path_step ops tokens (i, n) = Some (Ok (Some s, (i + length (pr_segment num s), n)))"
    using Cons.prems by (intro path_step_segment [OF num]) auto
  moreover have "path_loop ops limits tokens start (acc @ [s]) (i + length (pr_segment num s), n) =
      Some (Ok (EnvironmentPath ((acc @ [s]) @ ss),
        (i + length (pr_segment num s) + length (concat (map (pr_segment num) ss)), n)))"
    using Cons.prems by (intro Cons.IH) (simp_all add: add.assoc)
  ultimately show ?case
    using Cons.prems(3) by (simp add: path_loop.simps [of ops limits tokens start acc] add.assoc)
qed

lemma parse_path_print:
  assumes "index_numbers ops num" "path_ok limits p" "\<forall>s \<in> set (segments p). segment_fits s"
    and "at tokens i (pr_path num p)" "i + length (pr_path num p) < length tokens"
    and "path_follow (kind (tokens ! (i + length (pr_path num p))))"
  shows "parse_path ops limits tokens (i, n) = Some (Ok (p, (i + length (pr_path num p), n)))"
proof -
  obtain key ss where p: "p = EnvironmentPath (Key key # ss)" using assms(2) by (cases p) auto
  have "path_loop ops limits tokens start [Key key] (Suc i, n) =
      Some (Ok (EnvironmentPath ([Key key] @ ss), (Suc i + length (concat (map (pr_segment num) ss)), n)))" for start
    using assms p by (intro path_loop_print) auto
  then show ?thesis
    using assms p by (simp add: parse_path_def pbind_def current_def advance_def)
qed

lemma parse_operand_print:
  assumes "index_numbers ops num" "operand_ok limits a" "\<forall>p \<in> set (operand_paths a). \<forall>s \<in> set (segments p). segment_fits s"
    and "at tokens i (pr_operand num a)" "i + length (pr_operand num a) < length tokens"
    and "path_follow (kind (tokens ! (i + length (pr_operand num a))))"
  shows "parse_operand ops limits tokens (i, n) = Some (Ok (a, (i + length (pr_operand num a), n)))"
proof (cases a)
  case (Literal l)
  then show ?thesis
    using assms(4) by (cases l) (auto simp: parse_operand_def pbind_def current_def advance_def preturn_def)
next
  case (Path p)
  obtain key ss where p: "p = EnvironmentPath (Key key # ss)" using assms(2) Path by (cases p) auto
  have "parse_path ops limits tokens (i, n) = Some (Ok (p, (i + length (pr_path num p), n)))"
    using assms Path by (intro parse_path_print) auto
  then show ?thesis
    using assms(4) Path p by (simp add: parse_operand_def pbind_def current_def preturn_def)
qed

definition cmp_follow :: "'n TokenKind \<Rightarrow> bool" where
  "cmp_follow k \<longleftrightarrow> path_follow k \<and> comparison_operator k = None"

text \<open>\<open>reads l j\<close>: the tokens at \<open>i\<close> are the form of \<open>e\<close> at level \<open>l\<close> and end at \<open>j\<close>, and \<open>e\<close> fits.\<close>

definition reads :: "ExpressionLimits \<Rightarrow> (nat \<Rightarrow> 'n) \<Rightarrow> 'n Token list \<Rightarrow> nat \<Rightarrow> 'n Expression \<Rightarrow> nat \<Rightarrow> nat \<Rightarrow> nat \<Rightarrow> nat \<Rightarrow> bool" where
  "reads limits num tokens l e d i n j \<longleftrightarrow>
     at tokens i (pr num l e) \<and> j = i + length (pr num l e) \<and> j < length tokens \<and>
     cmp_follow (kind (tokens ! j)) \<and> expr_ok limits e \<and> indices_fit e \<and>
     d + need l e \<le> Suc (max_depth limits) \<and> n + expr_nodes e \<le> max_nodes limits"

definition reads_unary where
  "reads_unary ops limits num tokens e \<longleftrightarrow>
     (\<forall>d i n j. reads limits num tokens 2 e d i n j \<longrightarrow>
        ev (\<lambda>f. parse_unary f ops limits tokens d) (i, n) e (j, n + expr_nodes e))"

definition reads_and where
  "reads_and ops limits num tokens e \<longleftrightarrow>
     (\<forall>d i n j e' st. reads limits num tokens 1 e d i n j \<longrightarrow>
        ev (\<lambda>f. and_loop f ops limits tokens d e) (j, n + expr_nodes e) e' st \<longrightarrow>
        ev (\<lambda>f. parse_and f ops limits tokens d) (i, n) e' st)"

definition reads_or where
  "reads_or ops limits num tokens e \<longleftrightarrow>
     (\<forall>d i n j e' st. reads limits num tokens 0 e d i n j \<longrightarrow> \<not> is_and (kind (tokens ! j)) \<longrightarrow>
        ev (\<lambda>f. or_loop f ops limits tokens d e) (j, n + expr_nodes e) e' st \<longrightarrow>
        ev (\<lambda>f. parse_or f ops limits tokens d) (i, n) e' st)"

lemma reads_depth: "reads limits num tokens l e d i n j \<Longrightarrow> d \<le> max_depth limits"
  using need_pos [of l e] by (auto simp: reads_def)

lemma and_from_unary:
  "pr num 1 e = pr num 2 e \<Longrightarrow> need 1 e = need 2 e \<Longrightarrow> reads_unary ops limits num tokens e \<Longrightarrow>
   reads_and ops limits num tokens e"
  unfolding reads_unary_def reads_and_def reads_def by (metis ev_and)

lemma or_from_and:
  assumes "pr num 0 e = pr num 1 e" "need 0 e = need 1 e" "reads_and ops limits num tokens e"
  shows "reads_or ops limits num tokens e"
  unfolding reads_or_def
proof (intro allI impI)
  fix d i n j e' st
  assume r: "reads limits num tokens 0 e d i n j" and no_and: "\<not> is_and (kind (tokens ! j))"
    and loop: "ev (\<lambda>f. or_loop f ops limits tokens d e) (j, n + expr_nodes e) e' st"
  have "reads limits num tokens 1 e d i n j" using r assms(1,2) by (auto simp: reads_def)
  moreover have "ev (\<lambda>f. and_loop f ops limits tokens d e) (j, n + expr_nodes e) e (j, n + expr_nodes e)"
    using r no_and by (intro ev_loop_done) (auto simp: reads_def)
  ultimately have "ev (\<lambda>f. parse_and f ops limits tokens d) (i, n) e (j, n + expr_nodes e)"
    using assms(3) unfolding reads_and_def by blast
  then show "ev (\<lambda>f. parse_or f ops limits tokens d) (i, n) e' st"
    using ev_or [OF reads_depth [OF r]] loop by blast
qed

lemma unary_from_or:
  assumes "pr num 2 e = parens True (pr num 0 e)" "need 2 e = Suc (need 0 e)" "reads_or ops limits num tokens e"
  shows "reads_unary ops limits num tokens e"
  unfolding reads_unary_def
proof (intro allI impI)
  fix d i n j assume r: "reads limits num tokens 2 e d i n j"
  let ?j = "Suc i + length (pr num 0 e)"
  have toks: "kind (tokens ! i) = TLeftParen" "i < length tokens" "?j < length tokens" "kind (tokens ! ?j) = TRightParen" "j = Suc ?j"
    using r assms(1) by (auto simp: reads_def parens_def)
  then have "reads limits num tokens 0 e (Suc d) (Suc i) n ?j"
    using r assms(1,2) by (auto simp: reads_def parens_def cmp_follow_def path_follow_def)
  moreover have "ev (\<lambda>f. or_loop f ops limits tokens (Suc d) e) (?j, n + expr_nodes e) e (?j, n + expr_nodes e)"
    using toks by (intro ev_loop_done) auto
  ultimately have "ev (\<lambda>f. parse_or f ops limits tokens (Suc d)) (Suc i, n) e (?j, n + expr_nodes e)"
    using assms(3) toks(4) unfolding reads_or_def by force
  from ev_paren [OF reads_depth [OF r] toks(2,1) this toks(3,4)] toks(5)
  show "ev (\<lambda>f. parse_unary f ops limits tokens d) (i, n) e (j, n + expr_nodes e)" by simp
qed

lemma pr_operand_first:
  assumes "operand_ok limits a"
  shows "\<exists>k ks. pr_operand num a = k # ks \<and> \<not> is_bang k \<and> \<not> is_left_paren k \<and> \<not> is_exists k"
  using assms by (cases "(num, a)" rule: pr_operand.cases; (cases a rule: operand_paths.cases)?)
    (auto elim!: path_ok.elims)

lemma comparison_pr_operator [simp]: "comparison_operator (pr_operator c) = Some c"
  by (cases c) simp_all

lemma path_follow_pr_operator [simp]: "path_follow (pr_operator c)"
  by (cases c) (simp_all add: path_follow_def)

lemma unary_operand:
  assumes num: "index_numbers ops num" and e: "(\<exists>a. e = Value a) \<or> (\<exists>a c b. e = Compare a c b)"
  shows "reads_unary ops limits num tokens e"
  unfolding reads_unary_def
proof (intro allI impI)
  fix d i n j assume r: "reads limits num tokens 2 e d i n j"
  have run: "parse_comparison ops limits tokens (i, n) = Some (Ok (e, (j, n + expr_nodes e)))"
    using e
  proof (elim disjE exE)
    fix a assume a: "e = Value a"
    have "parse_operand ops limits tokens (i, n) = Some (Ok (a, (j, n)))"
      using parse_operand_print [OF num, of limits a tokens i n] r a
      by (auto simp: reads_def indices_fit_def cmp_follow_def)
    then show ?thesis using r a
      by (auto simp: parse_comparison_def pbind_def current_def reads_def cmp_follow_def node_def)
  next
    fix a c b assume abc: "e = Compare a c b"
    let ?i = "i + length (pr_operand num a)"
    have "parse_operand ops limits tokens (i, n) = Some (Ok (a, (?i, n)))"
      using parse_operand_print [OF num, of limits a tokens i n] r abc
      by (auto simp: reads_def indices_fit_def)
    moreover have "parse_operand ops limits tokens (Suc ?i, n) = Some (Ok (b, (j, n)))"
      using parse_operand_print [OF num, of limits b tokens "Suc ?i" n] r abc
      by (auto simp: reads_def indices_fit_def cmp_follow_def add.assoc)
    ultimately show ?thesis using r abc
      by (simp add: parse_comparison_def pbind_def current_def reads_def node_def advance_def)
  qed
  obtain a where "operand_ok limits a" "\<exists>ks. pr num 2 e = pr_operand num a @ ks"
    using e r by (auto simp: reads_def)
  then have "i < length tokens" "\<not> is_bang (kind (tokens ! i))" "\<not> is_left_paren (kind (tokens ! i))" "\<not> is_exists (kind (tokens ! i))"
    using pr_operand_first [of limits a num] r by (auto simp: reads_def)
  with run show "ev (\<lambda>f. parse_unary f ops limits tokens d) (i, n) e (j, n + expr_nodes e)"
    using reads_depth [OF r] by (intro ev_atom) auto
qed

lemma unary_exists:
  assumes num: "index_numbers ops num"
  shows "reads_unary ops limits num tokens (Exists p)"
  unfolding reads_unary_def
proof (intro allI impI)
  fix d i n j assume r: "reads limits num tokens 2 (Exists p) d i n j"
  let ?j = "Suc (Suc i) + length (pr_path num p)"
  have "parse_path ops limits tokens (Suc (Suc i), n) = Some (Ok (p, (?j, n)))"
    using parse_path_print [OF num, of limits p tokens "Suc (Suc i)" n] r
    by (auto simp: reads_def indices_fit_def path_follow_def)
  then have "parse_exists ops limits tokens (i, n) = Some (Ok (Exists p, (j, Suc n)))"
    using r by (simp add: parse_exists_def pbind_def advance_def expect_def current_def reads_def node_def)
  moreover have "kind (tokens ! i) = TExists" "i < length tokens" using r by (auto simp: reads_def)
  ultimately show "ev (\<lambda>f. parse_unary f ops limits tokens d) (i, n) (Exists p) (j, n + expr_nodes (Exists p))"
    using reads_depth [OF r] by (intro ev_atom) auto
qed

lemma indices_fit_simps [simp]:
  "indices_fit (Or a b) \<longleftrightarrow> indices_fit a \<and> indices_fit b"
  "indices_fit (And a b) \<longleftrightarrow> indices_fit a \<and> indices_fit b"
  "indices_fit (Not e) \<longleftrightarrow> indices_fit e"
  by (auto simp: indices_fit_def)

lemma follow_simps [simp]: "cmp_follow TOr" "cmp_follow TAnd" "cmp_follow TRightParen" "cmp_follow TEnd"
  by (simp_all add: cmp_follow_def path_follow_def)

lemma unary_not:
  assumes "reads_unary ops limits num tokens e"
  shows "reads_unary ops limits num tokens (Not e)"
  unfolding reads_unary_def
proof (intro allI impI)
  fix d i n j assume r: "reads limits num tokens 2 (Not e) d i n j"
  then have "reads limits num tokens 2 e (Suc d) (Suc i) n j" by (auto simp: reads_def)
  then have "ev (\<lambda>f. parse_unary f ops limits tokens (Suc d)) (Suc i, n) e (j, n + expr_nodes e)"
    using assms unfolding reads_unary_def by blast
  then show "ev (\<lambda>f. parse_unary f ops limits tokens d) (i, n) (Not e) (j, n + expr_nodes (Not e))"
    using ev_not [OF reads_depth [OF r], of i tokens ops n e j "n + expr_nodes e"] r by (auto simp: reads_def)
qed

lemma and_and:
  assumes a: "reads_and ops limits num tokens a" and b: "reads_unary ops limits num tokens b"
  shows "reads_and ops limits num tokens (And a b)"
  unfolding reads_and_def
proof (intro allI impI)
  fix d i n j e' st
  assume r: "reads limits num tokens 1 (And a b) d i n j"
    and loop: "ev (\<lambda>f. and_loop f ops limits tokens d (And a b)) (j, n + expr_nodes (And a b)) e' st"
  let ?i = "i + length (pr num 1 a)"
  have ra: "reads limits num tokens 1 a d i n ?i" and rb: "reads limits num tokens 2 b d (Suc ?i) (n + expr_nodes a) j"
    and tok: "?i < length tokens" "kind (tokens ! ?i) = TAnd"
    using r by (auto simp: reads_def parens_def)
  have "ev (\<lambda>f. parse_unary f ops limits tokens d) (Suc ?i, n + expr_nodes a) b (j, n + expr_nodes a + expr_nodes b)"
    using b rb unfolding reads_unary_def by blast
  then have "ev (\<lambda>f. and_loop f ops limits tokens d a) (?i, n + expr_nodes a) e' st"
    by (rule ev_and_more [rotated 2]) (use r loop tok in \<open>auto simp: reads_def add.assoc\<close>)
  then show "ev (\<lambda>f. parse_and f ops limits tokens d) (i, n) e' st"
    using a ra unfolding reads_and_def by blast
qed

lemma or_or:
  assumes a: "reads_or ops limits num tokens a" and b: "reads_and ops limits num tokens b"
  shows "reads_or ops limits num tokens (Or a b)"
  unfolding reads_or_def
proof (intro allI impI)
  fix d i n j e' st
  assume r: "reads limits num tokens 0 (Or a b) d i n j" and no_and: "\<not> is_and (kind (tokens ! j))"
    and loop: "ev (\<lambda>f. or_loop f ops limits tokens d (Or a b)) (j, n + expr_nodes (Or a b)) e' st"
  let ?i = "i + length (pr num 0 a)"
  have ra: "reads limits num tokens 0 a d i n ?i" and rb: "reads limits num tokens 1 b d (Suc ?i) (n + expr_nodes a) j"
    and tok: "?i < length tokens" "kind (tokens ! ?i) = TOr"
    using r by (auto simp: reads_def parens_def)
  have no_and': "\<not> is_and (kind (tokens ! ?i))" using tok(2) by simp
  have "ev (\<lambda>f. and_loop f ops limits tokens d b) (j, n + expr_nodes a + expr_nodes b) b (j, n + expr_nodes a + expr_nodes b)"
    using r no_and by (intro ev_loop_done) (auto simp: reads_def)
  then have "ev (\<lambda>f. parse_and f ops limits tokens d) (Suc ?i, n + expr_nodes a) b (j, n + expr_nodes a + expr_nodes b)"
    using b rb unfolding reads_and_def by blast
  then have "ev (\<lambda>f. or_loop f ops limits tokens d a) (?i, n + expr_nodes a) e' st"
    by (rule ev_or_more [rotated 2]) (use r loop tok in \<open>auto simp: reads_def add.assoc\<close>)
  then show "ev (\<lambda>f. parse_or f ops limits tokens d) (i, n) e' st"
    using a ra no_and' unfolding reads_or_def by blast
qed

lemma reads_all:
  assumes num: "index_numbers ops num"
  shows "reads_unary ops limits num tokens e \<and> reads_and ops limits num tokens e \<and> reads_or ops limits num tokens e"
proof (induction e)
  case (Or a b)
  then have o: "reads_or ops limits num tokens (Or a b)" by (blast intro: or_or)
  then have u: "reads_unary ops limits num tokens (Or a b)"
    by (intro unary_from_or) (simp_all add: parens_def)
  then have "reads_and ops limits num tokens (Or a b)" by (intro and_from_unary) (simp_all add: parens_def)
  with o u show ?case by blast
next
  case (And a b)
  then have a: "reads_and ops limits num tokens (And a b)" by (blast intro: and_and)
  then have o: "reads_or ops limits num tokens (And a b)" by (intro or_from_and) (simp_all add: parens_def)
  then have "reads_unary ops limits num tokens (And a b)" by (intro unary_from_or) (simp_all add: parens_def)
  with a o show ?case by blast
next
  case (Not e)
  then have "reads_unary ops limits num tokens (Not e)" by (blast intro: unary_not)
  then show ?case by (auto intro!: or_from_and and_from_unary)
next
  case (Value a)
  have "reads_unary ops limits num tokens (Value a)" using unary_operand [OF num] by blast
  then show ?case by (auto intro!: or_from_and and_from_unary)
next
  case (Compare a c b)
  have "reads_unary ops limits num tokens (Compare a c b)" using unary_operand [OF num] by blast
  then show ?case by (auto intro!: or_from_and and_from_unary)
next
  case (Exists p)
  have "reads_unary ops limits num tokens (Exists p)" by (rule unary_exists [OF num])
  then show ?case by (auto intro!: or_from_and and_from_unary)
qed

lemma parse_tokens_print:
  assumes num: "index_numbers ops num" and e: "expr_ok limits e" "indices_fit e"
    and lim: "expr_nodes e \<le> max_nodes limits" "expression_depth e \<le> max_depth limits" "0 < max_path_segments limits"
    and kinds: "map kind tokens = pr num 0 e @ [TEnd]" and ok: "tokens_ok limits tokens"
  shows "parse_tokens ops limits tokens = Some (Ok e)"
proof -
  let ?j = "length (pr num 0 e)" and ?n = "expr_nodes e"
  have len: "length tokens = Suc ?j" using kinds by (metis length_append_singleton length_map)
  have fin: "kind (tokens ! ?j) = TEnd"
    using kinds len by (metis lessI nth_append_length nth_map)
  have at: "at tokens 0 (pr num 0 e)"
    using kinds len by (simp add: at_def take_map [symmetric])
  have "reads limits num tokens 0 e 1 0 0 ?j"
    using at len fin e lim need_le_depth [of 0 e] by (simp add: reads_def)
  moreover have "ev (\<lambda>f. or_loop f ops limits tokens 1 e) (?j, 0 + ?n) e (?j, ?n)"
    using len fin by (simp add: ev_loop_done)
  moreover have "\<not> is_and (kind (tokens ! ?j))" using fin by simp
  ultimately have "ev (\<lambda>f. parse_or f ops limits tokens 1) (0, 0) e (?j, ?n)"
    using reads_all [OF num, of limits tokens e] unfolding reads_or_def by blast
  then obtain f where f: "parse_or f ops limits tokens 1 (0, 0) = Some (Ok (e, (?j, ?n)))"
    unfolding ev_def by blast
  have "enough tokens (0, 0) 4 (parse_fuel tokens)"
    using ok by (simp add: enough_def parse_fuel_def tokens_ok_def)
  then have "wp (parse_or (parse_fuel tokens) ops limits tokens 1) (parsed limits tokens (0, 0)) (0, 0)"
    using parser_good [OF ok lim(3), of ops "parse_fuel tokens"] unfolding parser_good_def by blast
  then obtain r where r: "parse_or (parse_fuel tokens) ops limits tokens 1 (0, 0) = Some r"
    by (auto simp: wp_def split: option.splits)
  have "r = Ok (e, (?j, ?n))"
    using mono_family_le [OF parser_families(1) max.cobounded1 f, of "parse_fuel tokens"]
      mono_family_le [OF parser_families(1) max.cobounded2 r, of f] by simp
  then show ?thesis
    using r fin len lim(2) by (simp add: parse_tokens_def pbind_def expect_end_def current_def preturn_def)
qed

end
