(* ===== verification/Expr_Text.thy ===== *)
theory Expr_Text
  imports Expr_Print
begin

text \<open>
  The round trip at the level of text: every printable expression within the limits, written
  out with a space after each token, is lexed and parsed back to itself. What \<^verbatim>\<open>serde_json\<close>
  writes for numbers and strings enters through \<open>enc_num\<close> and \<open>enc_str\<close>.
\<close>

section \<open>Text of tokens\<close>

fun token_text :: "('n \<Rightarrow> string) \<Rightarrow> (string \<Rightarrow> string) \<Rightarrow> 'n TokenKind \<Rightarrow> string" where
  "token_text enc_num enc_str (TIdentifier v) = v"
| "token_text enc_num enc_str (TString s) = enc_str s"
| "token_text enc_num enc_str (TNumber n) = enc_num n"
| "token_text enc_num enc_str TTrue = ''true''"
| "token_text enc_num enc_str TFalse = ''false''"
| "token_text enc_num enc_str TNull = ''null''"
| "token_text enc_num enc_str TExists = ''exists''"
| "token_text enc_num enc_str TAnd = ''&&''"
| "token_text enc_num enc_str TOr = ''||''"
| "token_text enc_num enc_str TEqual = ''==''"
| "token_text enc_num enc_str TNotEqual = ''!=''"
| "token_text enc_num enc_str TLess = ''<''"
| "token_text enc_num enc_str TLessOrEqual = ''<=''"
| "token_text enc_num enc_str TGreater = ''>''"
| "token_text enc_num enc_str TGreaterOrEqual = ''>=''"
| "token_text enc_num enc_str TBang = ''!''"
| "token_text enc_num enc_str TLeftParen = ''(''"
| "token_text enc_num enc_str TRightParen = '')''"
| "token_text enc_num enc_str TDot = ''.''"
| "token_text enc_num enc_str TLeftBracket = ''[''"
| "token_text enc_num enc_str TRightBracket = '']''"
| "token_text enc_num enc_str TEnd = []"

definition print_kinds :: "('n \<Rightarrow> string) \<Rightarrow> (string \<Rightarrow> string) \<Rightarrow> 'n TokenKind list \<Rightarrow> string" where
  "print_kinds enc_num enc_str ks = concat (map (\<lambda>k. token_text enc_num enc_str k @ '' '') ks)"

definition print_expression ::
  "(nat \<Rightarrow> 'n) \<Rightarrow> ('n \<Rightarrow> string) \<Rightarrow> (string \<Rightarrow> string) \<Rightarrow> 'n Expression \<Rightarrow> string" where
  "print_expression num enc_num enc_str e = print_kinds enc_num enc_str (pr num 0 e)"

text \<open>Tokens whose text is read back.\<close>

definition identifier_ok :: "string \<Rightarrow> bool" where
  "identifier_ok v \<longleftrightarrow>
     (\<exists>c cs. v = c # cs \<and> (is_ascii_alphabetic c \<or> c = CHR ''_'') \<and>
        (\<forall>x \<in> set v. identifier_char (char_code x))) \<and>
     v \<notin> {''true'', ''false'', ''null'', ''exists''}"

definition number_ok :: "'n json_ops \<Rightarrow> ('n \<Rightarrow> string) \<Rightarrow> 'n \<Rightarrow> bool" where
  "number_ok ops enc_num n \<longleftrightarrow>
     (\<exists>c cs. enc_num n = c # cs \<and> (is_ascii_digit c \<or> c = CHR ''-'') \<and>
        (\<forall>x \<in> set (c # cs). number_char (char_code x))) \<and>
     decode_number ops (enc_num n) = Some n"

definition string_ok :: "'n json_ops \<Rightarrow> (string \<Rightarrow> string) \<Rightarrow> string \<Rightarrow> bool" where
  "string_ok ops enc_str s \<longleftrightarrow>
     (\<exists>body. enc_str s = CHR 34 # body \<and>
        (\<forall>rest. scan_string False (body @ rest) = Some (length body))) \<and>
     decode_string ops (enc_str s) = Some s"

fun kind_ok :: "'n json_ops \<Rightarrow> ExpressionLimits \<Rightarrow> ('n \<Rightarrow> string) \<Rightarrow> (string \<Rightarrow> string) \<Rightarrow> 'n TokenKind \<Rightarrow> bool" where
  "kind_ok ops limits enc_num enc_str (TIdentifier v) \<longleftrightarrow> identifier_ok v"
| "kind_ok ops limits enc_num enc_str (TNumber n) \<longleftrightarrow> number_ok ops enc_num n"
| "kind_ok ops limits enc_num enc_str (TString s) \<longleftrightarrow>
     string_ok ops enc_str s \<and> length s \<le> max_string_bytes limits"
| "kind_ok ops limits enc_num enc_str TEnd \<longleftrightarrow> False"
| "kind_ok ops limits enc_num enc_str _ \<longleftrightarrow> True"

section \<open>Scanning ASCII\<close>

lemma next_char_ascii: "char_code c < 128 \<Longrightarrow> next_char (c # s) = Some (char_code c, 1)"
  by (simp add: next_char_def)

lemma span_chars_ascii:
  assumes "\<forall>c \<in> set a. P (char_code c) \<and> char_code c < 128" and "\<not> P 32"
  shows "span_chars P (a @ CHR '' '' # r) = (a, CHR '' '' # r)"
  using assms(1)
proof (induction a)
  case Nil
  have "next_char (CHR '' '' # r) = Some (32, 1)"
    using next_char_ascii [of "CHR '' ''" r] by (simp add: char_code_def)
  then show ?case using assms(2) by (simp add: span_chars.simps)
next
  case (Cons c a)
  then show ?case
    by (simp add: span_chars.simps [of P "c # _"] next_char_ascii)
qed

lemma identifier_char_ascii: "identifier_char ch \<Longrightarrow> ch < 128"
  by (auto simp: identifier_char_def char_code_def)

lemma number_char_ascii: "number_char ch \<Longrightarrow> ch < 128"
  by (auto simp: number_char_def char_code_def)

text \<open>The first byte of a token other than an operator or bracket.\<close>

definition word_start :: "nat \<Rightarrow> bool" where
  "word_start ch \<longleftrightarrow> ch = 34 \<or> ch = 45 \<or> ch = 95 \<or> (48 \<le> ch \<and> ch \<le> 57) \<or> (65 \<le> ch \<and> ch \<le> 90) \<or> (97 \<le> ch \<and> ch \<le> 122)"

lemma word_start_tokens:
  assumes "word_start (char_code c)"
  shows "find (\<lambda>(text, k). starts_with text (c # r)) two_char_tokens = None"
    and "map_of one_char_tokens (char_code c) = None"
proof -
  have "c \<noteq> CHR ''&''" "c \<noteq> CHR ''|''" "c \<noteq> CHR ''=''" "c \<noteq> CHR ''!''" "c \<noteq> CHR ''<''" "c \<noteq> CHR ''>''"
    using assms by (auto simp: word_start_def char_code_def)
  then show "find (\<lambda>(text, k). starts_with text (c # r)) two_char_tokens = None"
    by (simp add: two_char_tokens_def starts_with_def)
  have codes: "char_code (CHR ''!'') = 33" "char_code (CHR ''<'') = 60" "char_code (CHR ''>'') = 62"
    "char_code (CHR ''('') = 40" "char_code (CHR '')'') = 41" "char_code (CHR ''.'') = 46"
    "char_code (CHR ''['') = 91" "char_code (CHR '']'') = 93"
    by (simp_all add: char_code_def)
  show "map_of one_char_tokens (char_code c) = None"
    unfolding one_char_tokens_def list.map case_prod_conv codes
    using assms by (auto simp: word_start_def)
qed

lemma next_token_word:
  assumes "word_start (char_code c)"
  shows "next_token ops limits pos (c # r) =
    (if char_code c = 34 then Some (string_token ops limits pos (c # r))
     else if char_code c = 45 \<or> (48 \<le> char_code c \<and> char_code c \<le> 57) then Some (number_token ops pos (c # r))
     else Some (Ok (identifier_token pos (c # r))))"
proof -
  have "char_code c < 128" using assms by (auto simp: word_start_def)
  moreover have "char_code (CHR ''-'') = 45" "char_code (CHR ''_'') = 95" by (simp_all add: char_code_def)
  ultimately show ?thesis
    using assms unfolding next_token_def
    by (auto simp: next_char_ascii word_start_def word_start_tokens [OF assms])
qed

lemma identifier_ascii_word:
  assumes "identifier_ok v \<or> v \<in> {''true'', ''false'', ''null'', ''exists''}"
  shows "\<exists>c cs. v = c # cs \<and> word_start (char_code c) \<and> char_code c \<notin> {34, 45} \<and> \<not> (48 \<le> char_code c \<and> char_code c \<le> 57)
    \<and> (\<forall>x \<in> set v. identifier_char (char_code x))"
  using assms
proof
  have codes: "char_code (CHR ''_'') = 95" by (simp add: char_code_def)
  assume "identifier_ok v"
  then obtain c cs where v: "v = c # cs" "is_ascii_alphabetic c \<or> c = CHR ''_''"
      "\<forall>x \<in> set v. identifier_char (char_code x)" unfolding identifier_ok_def by blast
  from v(2) have "word_start (char_code c) \<and> char_code c \<notin> {34, 45} \<and> \<not> (48 \<le> char_code c \<and> char_code c \<le> 57)"
    unfolding word_start_def is_ascii_alphabetic_def using codes by auto
  with v show ?thesis by blast
next
  have codes: "char_code (CHR ''t'') = 116" "char_code (CHR ''r'') = 114" "char_code (CHR ''u'') = 117"
    "char_code (CHR ''e'') = 101" "char_code (CHR ''f'') = 102" "char_code (CHR ''a'') = 97"
    "char_code (CHR ''l'') = 108" "char_code (CHR ''s'') = 115" "char_code (CHR ''n'') = 110"
    "char_code (CHR ''x'') = 120" "char_code (CHR ''i'') = 105"
    by (simp_all add: char_code_def)
  assume "v \<in> {''true'', ''false'', ''null'', ''exists''}"
  then consider "v = ''true''" | "v = ''false''" | "v = ''null''" | "v = ''exists''" by blast
  then show ?thesis by cases (simp_all add: word_start_def identifier_char_def codes)
qed

lemma identifier_token_text:
  assumes "\<forall>x \<in> set v. identifier_char (char_code x)"
  shows "identifier_token pos (v @ CHR '' '' # r) =
    (\<lparr>kind = (if v = ''true'' then TTrue else if v = ''false'' then TFalse
       else if v = ''null'' then TNull else if v = ''exists'' then TExists else TIdentifier v), position = pos\<rparr>, CHR '' '' # r)"
proof -
  have "\<not> identifier_char 32" by (simp add: identifier_char_def char_code_def)
  then have "span_chars identifier_char (v @ CHR '' '' # r) = (v, CHR '' '' # r)"
    using assms identifier_char_ascii by (intro span_chars_ascii) auto
  then show ?thesis by (simp add: identifier_token_def)
qed

lemma next_token_identifier:
  assumes "identifier_ok v \<or> v \<in> {''true'', ''false'', ''null'', ''exists''}"
  shows "next_token ops limits pos (v @ CHR '' '' # r) = Some (Ok (identifier_token pos (v @ CHR '' '' # r)))"
proof -
  obtain c cs where "v = c # cs" "word_start (char_code c)" "char_code c \<notin> {34, 45}"
      "\<not> (48 \<le> char_code c \<and> char_code c \<le> 57)"
    using identifier_ascii_word [OF assms] by blast
  then show ?thesis using next_token_word [of c ops limits pos "cs @ CHR '' '' # r"] by auto
qed

lemma next_token_number:
  assumes "number_ok ops enc_num n"
  shows "next_token ops limits pos (enc_num n @ CHR '' '' # r) =
    Some (Ok (\<lparr>kind = TNumber n, position = pos\<rparr>, CHR '' '' # r))"
proof -
  obtain c cs where c: "enc_num n = c # cs" "is_ascii_digit c \<or> c = CHR ''-''"
      "\<forall>x \<in> set (c # cs). number_char (char_code x)" "decode_number ops (enc_num n) = Some n"
    using assms unfolding number_ok_def by auto
  have minus: "char_code (CHR ''-'') = 45" by (simp add: char_code_def)
  have "char_code c = 45 \<or> (48 \<le> char_code c \<and> char_code c \<le> 57)"
    using c(2) minus unfolding is_ascii_digit_def by auto
  then have num: "next_token ops limits pos (c # (cs @ CHR '' '' # r)) = Some (number_token ops pos (c # (cs @ CHR '' '' # r)))"
    by (subst next_token_word) (auto simp: word_start_def)
  have "\<not> number_char 32" by (simp add: number_char_def char_code_def)
  then have "span_chars number_char ((c # cs) @ CHR '' '' # r) = (c # cs, CHR '' '' # r)"
    using c(3) number_char_ascii by (intro span_chars_ascii) auto
  then show ?thesis using num c(1,4) by (simp add: number_token_def)
qed

lemma next_token_string:
  assumes "string_ok ops enc_str s" and "length s \<le> max_string_bytes limits"
  shows "next_token ops limits pos (enc_str s @ CHR '' '' # r) =
    Some (Ok (\<lparr>kind = TString s, position = pos\<rparr>, CHR '' '' # r))"
proof -
  obtain body where b: "enc_str s = CHR 34 # body" "\<And>rest. scan_string False (body @ rest) = Some (length body)"
      "decode_string ops (enc_str s) = Some s"
    using assms(1) unfolding string_ok_def by blast
  have "char_code (CHR 34) = 34" by (simp add: char_code_def)
  then have "next_token ops limits pos (CHR 34 # (body @ CHR '' '' # r)) =
      Some (string_token ops limits pos (CHR 34 # (body @ CHR '' '' # r)))"
    by (subst next_token_word) (auto simp: word_start_def)
  then show ?thesis using b assms(2) by (simp add: string_token_def)
qed

lemma next_token_symbol:
  assumes "k \<in> {TAnd, TOr, TEqual, TNotEqual, TLess, TLessOrEqual, TGreater, TGreaterOrEqual, TBang,
     TLeftParen, TRightParen, TDot, TLeftBracket, TRightBracket}"
  shows "next_token ops limits pos (token_text enc_num enc_str k @ CHR '' '' # r) =
    Some (Ok (\<lparr>kind = k, position = pos\<rparr>, CHR '' '' # r))"
  using assms
  by (elim insertE emptyE)
    (simp_all add: next_token_def two_char_tokens_def one_char_tokens_def starts_with_def next_char_def char_code_def)

lemma next_token_text:
  assumes "kind_ok ops limits enc_num enc_str k"
  shows "next_token ops limits pos (token_text enc_num enc_str k @ CHR '' '' # r) =
    Some (Ok (\<lparr>kind = k, position = pos\<rparr>, CHR '' '' # r))"
proof (cases k)
  case (TIdentifier v)
  then have v: "identifier_ok v" using assms by simp
  then have "\<forall>x \<in> set v. identifier_char (char_code x)" "v \<notin> {''true'', ''false'', ''null'', ''exists''}"
    unfolding identifier_ok_def by blast+
  then show ?thesis
    using next_token_identifier [of v ops limits pos r] v TIdentifier identifier_token_text [of v pos r] by simp
next
  case TTrue
  then show ?thesis
    using next_token_identifier [of "''true''" ops limits pos r] identifier_ascii_word [of "''true''"]
      identifier_token_text [of "''true''" pos r] by simp
next
  case TFalse
  then show ?thesis
    using next_token_identifier [of "''false''" ops limits pos r] identifier_ascii_word [of "''false''"]
      identifier_token_text [of "''false''" pos r] by simp
next
  case TNull
  then show ?thesis
    using next_token_identifier [of "''null''" ops limits pos r] identifier_ascii_word [of "''null''"]
      identifier_token_text [of "''null''" pos r] by simp
next
  case TExists
  then show ?thesis
    using next_token_identifier [of "''exists''" ops limits pos r] identifier_ascii_word [of "''exists''"]
      identifier_token_text [of "''exists''" pos r] by simp
next
  case (TNumber n)
  then show ?thesis using assms next_token_number by simp
next
  case (TString s)
  then show ?thesis using assms by (simp add: next_token_string)
next
  case TEnd
  then show ?thesis using assms by simp
qed (simp_all only: next_token_symbol insert_iff simp_thms)

section \<open>Lexing printed text\<close>

lemma token_text_first:
  assumes "kind_ok ops limits enc_num enc_str k"
  shows "\<exists>c cs. token_text enc_num enc_str k = c # cs \<and> char_code c < 128 \<and> \<not> is_whitespace (char_code c)"
proof -
  have word: "char_code c < 128 \<and> \<not> is_whitespace (char_code c)" if "word_start (char_code c)" for c
    using that by (auto simp: word_start_def is_whitespace_def)
  have ident: ?thesis if "token_text enc_num enc_str k = v" "identifier_ok v \<or> v \<in> {''true'', ''false'', ''null'', ''exists''}" for v
    using identifier_ascii_word [OF that(2)] that(1) word by blast
  have codes: "char_code (CHR 34) = 34" "char_code (CHR ''-'') = 45" by (simp_all add: char_code_def)
  show ?thesis
  proof (cases k)
    case (TNumber n)
    then obtain c cs where "enc_num n = c # cs" "is_ascii_digit c \<or> c = CHR ''-''"
      using assms by (auto simp: number_ok_def)
    moreover then have "word_start (char_code c)" using codes unfolding word_start_def is_ascii_digit_def by auto
    ultimately show ?thesis using TNumber word by simp
  next
    case (TString s)
    then obtain cs where "enc_str s = CHR 34 # cs" using assms by (auto simp: string_ok_def)
    moreover have "word_start (char_code (CHR 34))" using codes by (simp add: word_start_def)
    ultimately show ?thesis using TString word by simp
  next
    case (TIdentifier v)
    then show ?thesis using assms by (intro ident) auto
  next
    case TEnd
    then show ?thesis using assms by simp
  qed (simp_all add: is_whitespace_def char_code_def)
qed

lemma skip_whitespace_token:
  assumes "char_code c < 128" "\<not> is_whitespace (char_code c)" "lead = [] \<or> lead = '' ''"
  shows "skip_whitespace (lead @ c # s) = c # s"
proof -
  have stop: "span_chars is_whitespace (c # s) = ([], c # s)"
    using assms(1,2) by (simp add: span_chars.simps [of _ "c # s"] next_char_ascii)
  have "next_char (CHR '' '' # c # s) = Some (32, 1)"
    using next_char_ascii [of "CHR '' ''" "c # s"] by (simp add: char_code_def)
  moreover have "is_whitespace 32" by (simp add: is_whitespace_def)
  ultimately have "span_chars is_whitespace (CHR '' '' # c # s) = ('' '', c # s)"
    using stop by (simp add: span_chars.simps [of _ "CHR '' '' # _"])
  with stop assms(3) show ?thesis by (auto simp: skip_whitespace_def)
qed

lemma skip_whitespace_end: "skip_whitespace '' '' = []"
proof -
  have "next_char '' '' = Some (32, 1)" using next_char_ascii [of "CHR '' ''" "[]"] by (simp add: char_code_def)
  then show ?thesis
    by (simp add: skip_whitespace_def span_chars.simps [of _ "'' ''"] span_chars.simps [of _ "[]"] is_whitespace_def)
qed

lemma tokenize_text:
  assumes "\<forall>k \<in> set ks. kind_ok ops limits enc_num enc_str k" and "lead = [] \<or> lead = '' ''"
  shows "\<exists>toks. tokenize ops limits len (lead @ print_kinds enc_num enc_str ks) acc = Some (Ok (acc @ toks)) \<and>
    map kind toks = ks @ [TEnd]"
  using assms
proof (induction ks arbitrary: lead acc)
  case Nil
  then show ?case
    by (auto simp: tokenize.simps [of ops limits len] print_kinds_def skip_whitespace_end Let_def)
next
  case (Cons k ks)
  obtain c cs where c: "token_text enc_num enc_str k = c # cs" "char_code c < 128" "\<not> is_whitespace (char_code c)"
    using token_text_first Cons.prems by (metis list.set_intros(1))
  let ?r = "print_kinds enc_num enc_str ks"
  have printed: "print_kinds enc_num enc_str (k # ks) = token_text enc_num enc_str k @ CHR '' '' # ?r"
    by (simp add: print_kinds_def)
  have skip: "skip_whitespace (lead @ print_kinds enc_num enc_str (k # ks)) = print_kinds enc_num enc_str (k # ks)"
    using skip_whitespace_token [OF c(2,3) Cons.prems(2)] c(1) printed by simp
  obtain t where t: "next_token ops limits (len - length (print_kinds enc_num enc_str (k # ks)))
      (print_kinds enc_num enc_str (k # ks)) = Some (Ok (t, '' '' @ ?r))" "kind t = k"
    using next_token_text [of ops limits enc_num enc_str k] Cons.prems(1) printed by simp
  obtain toks where toks: "tokenize ops limits len ('' '' @ ?r) (acc @ [t]) = Some (Ok ((acc @ [t]) @ toks))"
      "map kind toks = ks @ [TEnd]"
    using Cons.IH [of "'' ''" "acc @ [t]"] Cons.prems by auto
  have "print_kinds enc_num enc_str (k # ks) \<noteq> []" using printed c(1) by simp
  then have "tokenize ops limits len (lead @ print_kinds enc_num enc_str (k # ks)) acc = Some (Ok (acc @ (t # toks)))"
    using skip t(1) toks(1) by (subst tokenize.simps) (simp add: Let_def)
  then show ?case using toks(2) t(2) by (intro exI [of _ "t # toks"]) simp
qed

text \<open>
  C11. Printing and parsing: the text of any expression within the limits, with printable
  identifiers, numbers, strings and indices, parses back to the same expression.
\<close>

theorem parse_print:
  assumes "index_numbers ops num" and "\<forall>k \<in> set (pr num 0 e). kind_ok ops limits enc_num enc_str k"
    and "expr_ok limits e" and "indices_fit e"
    and "expr_nodes e \<le> max_nodes limits" and "expression_depth e \<le> max_depth limits"
    and "0 < max_path_segments limits"
    and "length (print_expression num enc_num enc_str e) \<le> max_input_bytes limits"
  shows "parse ops (print_expression num enc_num enc_str e) limits = Some (Ok e)"
proof -
  let ?text = "print_expression num enc_num enc_str e"
  obtain toks where toks: "tokenize ops limits (length ?text) ?text [] = Some (Ok toks)"
      "map kind toks = pr num 0 e @ [TEnd]"
    using tokenize_text [OF assms(2), of "[]" "length ?text" "[]"] by (auto simp: print_expression_def)
  have "tokens_ok limits toks"
    using tokenize_total [of "[]" limits ops "length ?text" ?text] toks(1) by simp
  then have "parse_tokens ops limits toks = Some (Ok e)"
    using assms toks(2) by (intro parse_tokens_print) auto
  moreover have "0 < max_nodes limits" "0 < max_depth limits"
    using assms(5,6) need_le_depth [of 0 e] need_pos [of 0 e] by (cases e; simp)+
  ultimately show ?thesis using toks(1) assms(7,8) by (simp add: parse_def)
qed

section \<open>Witness\<close>

text \<open>Numbers are naturals written in decimal, strings contain neither quotes nor backslashes.\<close>

fun read_decimal :: "nat \<Rightarrow> string \<Rightarrow> nat option" where
  "read_decimal acc [] = Some acc"
| "read_decimal acc (c # cs) = (if is_ascii_digit c then read_decimal (10 * acc + (char_code c - 48)) cs else None)"

definition demo_ops :: "nat json_ops" where
  "demo_ops = \<lparr>decode_string = (\<lambda>s. Some (butlast (tl s))), decode_number = read_decimal 0,
     as_i64 = (\<lambda>n. if n < 2 ^ 63 then Some (of_nat n) else None),
     as_u64 = (\<lambda>n. if n < 2 ^ 64 then Some (of_nat n) else None), as_f64 = (\<lambda>n. None)\<rparr>"

definition demo_expression :: "nat Expression" where
  "demo_expression =
     And (Or (Value (Path (EnvironmentPath [Key ''ready'']))) (Exists (EnvironmentPath [Key ''tasks'', Index 0, Key ''name''])))
         (Not (Compare (Path (EnvironmentPath [Key ''n''])) Less (Literal (LNumber 3))))"

lemma demo_kinds:
  "\<forall>k \<in> set (pr id 0 demo_expression). kind_ok demo_ops ExpressionLimits_default decimal (\<lambda>s. CHR 34 # s @ [CHR 34]) k"
proof -
  have ids: "identifier_ok ''ready''" "identifier_ok ''tasks''" "identifier_ok ''name''" "identifier_ok ''n''"
    unfolding identifier_ok_def by (simp_all add: is_ascii_alphabetic_def identifier_char_def char_code_def)
  have nums: "number_ok demo_ops decimal 0" "number_ok demo_ops decimal 3"
    unfolding number_ok_def
    by (simp_all add: demo_ops_def decimal.simps is_ascii_digit_def number_char_def char_code_def)
  show ?thesis
    using ids nums by (simp add: demo_expression_def parens_def)
qed

theorem parse_print_witness:
  "parse demo_ops (print_expression id decimal (\<lambda>s. CHR 34 # s @ [CHR 34]) demo_expression) ExpressionLimits_default =
     Some (Ok demo_expression)"
proof (rule parse_print [OF _ demo_kinds])
  show "index_numbers demo_ops id" by (simp add: index_numbers_def demo_ops_def)
  show "length (print_expression id decimal (\<lambda>s. CHR 34 # s @ [CHR 34]) demo_expression) \<le> max_input_bytes ExpressionLimits_default"
    by (simp add: print_expression_def print_kinds_def demo_expression_def parens_def ExpressionLimits_default_def decimal.simps)
qed (simp_all add: demo_expression_def ExpressionLimits_default_def indices_fit_def)

end
