(* ===== verification/Expr_Eval.thy ===== *)
theory Expr_Eval
  imports Expr_Print
begin

text \<open>
  \<^verbatim>\<open>core/expression-engine/src/lib.rs\<close>, second part: evaluation against a JSON value. The
  laws: a well-typed expression evaluates to its boolean meaning, evaluation looks only at
  the paths the expression names, and comparisons order their operands linearly.
\<close>

unbundle bit_operations_syntax

section \<open>Evaluation\<close>

text \<open>\<^verbatim>\<open>serde_json::Value\<close>, the members of an object as a list of pairs.\<close>

datatype 'n json =
    JNull
  | JBool bool
  | JNumber 'n
  | JString string
  | JArray "'n json list"
  | JObject "(string \<times> 'n json) list"

datatype EvaluationError =
    MissingPath string
  | ExpectedBoolean string
  | TypeMismatch string string
  | UnsupportedOrdering string

datatype 'n Resolved = RNull | RBoolean bool | RNumber 'n | RString string

fun resolved_kind :: "'n Resolved \<Rightarrow> string" where
  "resolved_kind RNull = ''null''"
| "resolved_kind (RBoolean _) = ''boolean''"
| "resolved_kind (RNumber _) = ''number''"
| "resolved_kind (RString _) = ''string''"

fun lookup_segments :: "'n json \<Rightarrow> PathSegment list \<Rightarrow> 'n json option" where
  "lookup_segments cur [] = Some cur"
| "lookup_segments cur (Key key # ss) =
     (case cur of
        JObject members \<Rightarrow> (case map_of members key of Some v \<Rightarrow> lookup_segments v ss | None \<Rightarrow> None)
      | _ \<Rightarrow> None)"
| "lookup_segments cur (Index i # ss) =
     (case cur of
        JArray items \<Rightarrow> (if i < length items then lookup_segments (items ! i) ss else None)
      | _ \<Rightarrow> None)"

definition lookup :: "'n json \<Rightarrow> EnvironmentPath \<Rightarrow> 'n json option" where
  "lookup environment path = lookup_segments environment (segments path)"

fun resolve_literal :: "'n Literal \<Rightarrow> 'n Resolved" where
  "resolve_literal LNull = RNull"
| "resolve_literal (LBoolean v) = RBoolean v"
| "resolve_literal (LNumber v) = RNumber v"
| "resolve_literal (LString v) = RString v"

fun resolve_value :: "'n json \<Rightarrow> ('n Resolved, EvaluationError) result" where
  "resolve_value JNull = Ok RNull"
| "resolve_value (JBool v) = Ok (RBoolean v)"
| "resolve_value (JNumber v) = Ok (RNumber v)"
| "resolve_value (JString v) = Ok (RString v)"
| "resolve_value (JArray _) = Err (ExpectedBoolean ''array'')"
| "resolve_value (JObject _) = Err (ExpectedBoolean ''object'')"

fun resolve_operand :: "'n Operand \<Rightarrow> 'n json \<Rightarrow> ('n Resolved, EvaluationError) result" where
  "resolve_operand (Literal literal) environment = Ok (resolve_literal literal)"
| "resolve_operand (Path path) environment =
     (case lookup environment path of
        None \<Rightarrow> Err (MissingPath (path_text path))
      | Some v \<Rightarrow> resolve_value v)"

datatype ordering = OLess | OEqual | OGreater

definition cmp :: "'a::linorder \<Rightarrow> 'a \<Rightarrow> ordering" where
  "cmp a b = (if a < b then OLess else if a = b then OEqual else OGreater)"

text \<open>\<^verbatim>\<open>f64::total_cmp\<close> on the bits of a double.\<close>

definition total_key :: "u64 \<Rightarrow> int" where
  "total_key x = sint (x XOR drop_bit 1 (signed_drop_bit 63 x))"

definition total_cmp :: "u64 \<Rightarrow> u64 \<Rightarrow> ordering" where
  "total_cmp a b = cmp (total_key a) (total_key b)"

definition compare_numbers :: "'n json_ops \<Rightarrow> 'n \<Rightarrow> 'n \<Rightarrow> ordering option" where
  "compare_numbers ops left right =
     (case (as_i64 ops left, as_i64 ops right) of
        (Some l, Some r) \<Rightarrow> Some (cmp (sint l) (sint r))
      | _ \<Rightarrow>
          (case (as_u64 ops left, as_u64 ops right) of
             (Some l, Some r) \<Rightarrow> Some (cmp l r)
           | _ \<Rightarrow>
               (case as_f64 ops left of
                  None \<Rightarrow> None
                | Some l \<Rightarrow>
                    (case as_f64 ops right of
                       None \<Rightarrow> None
                     | Some r \<Rightarrow> Some (total_cmp l r)))))"

fun equal_values :: "'n json_ops \<Rightarrow> 'n Resolved \<Rightarrow> 'n Resolved \<Rightarrow> bool" where
  "equal_values ops RNull RNull = True"
| "equal_values ops (RBoolean l) (RBoolean r) = (l = r)"
| "equal_values ops (RNumber l) (RNumber r) =
     (case compare_numbers ops l r of Some v \<Rightarrow> v = OEqual | None \<Rightarrow> False)"
| "equal_values ops (RString l) (RString r) = (l = r)"
| "equal_values ops _ _ = False"

fun value_ordering :: "'n json_ops \<Rightarrow> 'n Resolved \<Rightarrow> 'n Resolved \<Rightarrow> ordering option" where
  "value_ordering ops (RNumber l) (RNumber r) = compare_numbers ops l r"
| "value_ordering ops (RString l) (RString r) = Some (cmp l r)"
| "value_ordering ops _ _ = None"

definition compare ::
  "'n json_ops \<Rightarrow> 'n Resolved \<Rightarrow> ComparisonOperator \<Rightarrow> 'n Resolved \<Rightarrow> (bool, EvaluationError) result" where
  "compare ops left operator right =
     (let left_kind = resolved_kind left; right_kind = resolved_kind right in
      if left_kind \<noteq> right_kind then Err (TypeMismatch left_kind right_kind)
      else (let order = value_ordering ops left right;
                ordered = (\<lambda>P. case order of Some v \<Rightarrow> Ok (P v) | None \<Rightarrow> Err (UnsupportedOrdering left_kind)) in
            case operator of
              Equal \<Rightarrow> Ok (equal_values ops left right)
            | NotEqual \<Rightarrow> Ok (\<not> equal_values ops left right)
            | Less \<Rightarrow> ordered (\<lambda>v. v = OLess)
            | LessOrEqual \<Rightarrow> ordered (\<lambda>v. v \<noteq> OGreater)
            | Greater \<Rightarrow> ordered (\<lambda>v. v = OGreater)
            | GreaterOrEqual \<Rightarrow> ordered (\<lambda>v. v \<noteq> OLess)))"

fun expect_boolean :: "'n Resolved \<Rightarrow> (bool, EvaluationError) result" where
  "expect_boolean RNull = Err (ExpectedBoolean ''null'')"
| "expect_boolean (RBoolean v) = Ok v"
| "expect_boolean (RNumber _) = Err (ExpectedBoolean ''number'')"
| "expect_boolean (RString _) = Err (ExpectedBoolean ''string'')"

fun evaluate_expression :: "'n json_ops \<Rightarrow> 'n Expression \<Rightarrow> 'n json \<Rightarrow> (bool, EvaluationError) result" where
  "evaluate_expression ops (Value operand) environment =
     rbind (resolve_operand operand environment) expect_boolean"
| "evaluate_expression ops (Not inner) environment =
     rbind (evaluate_expression ops inner environment) (\<lambda>v. Ok (\<not> v))"
| "evaluate_expression ops (And left right) environment =
     rbind (evaluate_expression ops left environment)
       (\<lambda>v. if v then evaluate_expression ops right environment else Ok False)"
| "evaluate_expression ops (Or left right) environment =
     rbind (evaluate_expression ops left environment)
       (\<lambda>v. if v then Ok True else evaluate_expression ops right environment)"
| "evaluate_expression ops (Compare left operator right) environment =
     rbind (resolve_operand left environment) (\<lambda>l.
     rbind (resolve_operand right environment) (\<lambda>r. compare ops l operator r))"
| "evaluate_expression ops (Exists path) environment = Ok (lookup environment path \<noteq> None)"

section \<open>Meaning of well-typed expressions\<close>

text \<open>The scalar an operand denotes, and when it denotes one.\<close>

definition scalar :: "'n json \<Rightarrow> 'n Operand \<Rightarrow> 'n Resolved option" where
  "scalar env a = (case resolve_operand a env of Ok v \<Rightarrow> Some v | Err _ \<Rightarrow> None)"

text \<open>Well-typed comparisons: both scalars of one kind, ordered ones of a kind with an order.\<close>

definition comparable :: "'n json_ops \<Rightarrow> 'n Resolved \<Rightarrow> ComparisonOperator \<Rightarrow> 'n Resolved \<Rightarrow> bool" where
  "comparable ops l c r \<longleftrightarrow>
     resolved_kind l = resolved_kind r \<and> (c \<in> {Equal, NotEqual} \<or> value_ordering ops l r \<noteq> None)"

fun well_typed :: "'n json_ops \<Rightarrow> 'n json \<Rightarrow> 'n Expression \<Rightarrow> bool" where
  "well_typed ops env (Value a) \<longleftrightarrow> (\<exists>b. scalar env a = Some (RBoolean b))"
| "well_typed ops env (Not e) \<longleftrightarrow> well_typed ops env e"
| "well_typed ops env (And a b) \<longleftrightarrow> well_typed ops env a \<and> well_typed ops env b"
| "well_typed ops env (Or a b) \<longleftrightarrow> well_typed ops env a \<and> well_typed ops env b"
| "well_typed ops env (Compare a c b) \<longleftrightarrow>
     (\<exists>l r. scalar env a = Some l \<and> scalar env b = Some r \<and> comparable ops l c r)"
| "well_typed ops env (Exists p) \<longleftrightarrow> True"

fun holds_between :: "ComparisonOperator \<Rightarrow> bool \<Rightarrow> ordering option \<Rightarrow> bool" where
  "holds_between Equal eq ord = eq"
| "holds_between NotEqual eq ord = (\<not> eq)"
| "holds_between Less eq ord = (ord = Some OLess)"
| "holds_between LessOrEqual eq ord = (ord = Some OLess \<or> ord = Some OEqual)"
| "holds_between Greater eq ord = (ord = Some OGreater)"
| "holds_between GreaterOrEqual eq ord = (ord = Some OGreater \<or> ord = Some OEqual)"

fun truth :: "'n json_ops \<Rightarrow> 'n json \<Rightarrow> 'n Expression \<Rightarrow> bool" where
  "truth ops env (Value a) \<longleftrightarrow> scalar env a = Some (RBoolean True)"
| "truth ops env (Not e) \<longleftrightarrow> \<not> truth ops env e"
| "truth ops env (And a b) \<longleftrightarrow> truth ops env a \<and> truth ops env b"
| "truth ops env (Or a b) \<longleftrightarrow> truth ops env a \<or> truth ops env b"
| "truth ops env (Compare a c b) \<longleftrightarrow>
     (case (scalar env a, scalar env b) of
        (Some l, Some r) \<Rightarrow> holds_between c (equal_values ops l r) (value_ordering ops l r)
      | _ \<Rightarrow> False)"
| "truth ops env (Exists p) \<longleftrightarrow> (\<exists>v. lookup env p = Some v)"

lemma compare_comparable:
  assumes "comparable ops l c r"
  shows "compare ops l c r = Ok (holds_between c (equal_values ops l r) (value_ordering ops l r))"
proof (cases "value_ordering ops l r")
  case None
  with assms show ?thesis by (cases c) (simp_all add: compare_def comparable_def)
next
  case (Some v)
  with assms show ?thesis by (cases c; cases v) (simp_all add: compare_def comparable_def)
qed

lemma scalar_Some: "scalar env a = Some v \<longleftrightarrow> resolve_operand a env = Ok v"
  by (auto simp: scalar_def split: result.splits)

text \<open>
  C12. Type soundness: when every operand denotes a scalar of the kind its context needs,
  evaluation succeeds and yields the boolean meaning of the expression.
\<close>

theorem evaluate_sound:
  assumes "well_typed ops env e"
  shows "evaluate_expression ops e env = Ok (truth ops env e)"
  using assms
proof (induction e)
  case (Compare a c b)
  then obtain l r where "resolve_operand a env = Ok l" "resolve_operand b env = Ok r" "comparable ops l c r"
    by (auto simp: scalar_Some)
  then show ?case by (simp add: scalar_def rbind_def compare_comparable)
qed (auto simp: scalar_Some rbind_def)

lemma evaluate_paths_cong:
  assumes "\<forall>p \<in> set (expr_paths e). lookup env p = lookup env' p"
  shows "evaluate_expression ops e env = evaluate_expression ops e env'"
proof -
  have operand: "resolve_operand a env = resolve_operand a env'"
    if "\<forall>p \<in> set (operand_paths a). lookup env p = lookup env' p" for a :: "'a Operand"
    using that by (cases a) auto
  show ?thesis
    using assms by (induction e) (auto simp: operand ball_Un rbind_def split: result.split)
qed

text \<open>
  Evaluation reads nothing but the paths of the expression: two environments that
  agree on them give the same result, errors included, and an existence test never fails.
\<close>

theorem evaluate_local:
  assumes "\<forall>p \<in> set (expr_paths e). lookup env p = lookup env' p"
  shows "evaluate_expression ops e env = evaluate_expression ops e env' \<and>
    evaluate_expression ops (Exists p) env = Ok (lookup env p \<noteq> None)"
  using evaluate_paths_cong [OF assms] by simp

section \<open>Comparisons\<close>

fun flip :: "ordering \<Rightarrow> ordering" where
  "flip OLess = OGreater"
| "flip OEqual = OEqual"
| "flip OGreater = OLess"

lemma flip_cmp [simp]: "flip (cmp a b) = cmp b a"
  by (auto simp: cmp_def)

lemma compare_numbers_flip: "map_option flip (compare_numbers ops l r) = compare_numbers ops r l"
  by (simp add: compare_numbers_def total_cmp_def split: option.split)

lemma value_ordering_flip: "map_option flip (value_ordering ops l r) = value_ordering ops r l"
  by (cases l; cases r) (simp_all add: compare_numbers_flip)

lemma value_ordering_kind: "value_ordering ops l r = Some v \<Longrightarrow> resolved_kind l = resolved_kind r"
  by (cases l; cases r) simp_all

lemma equal_values_ordering: "value_ordering ops l r = Some v \<Longrightarrow> equal_values ops l r \<longleftrightarrow> v = OEqual"
  by (cases l; cases r) (auto simp: cmp_def split: if_splits)

text \<open>
  Operands that can be ordered are ordered linearly: exactly one of less, equal and
  greater holds, the weak comparisons are the negations of the opposite strict ones, and
  exchanging the operands exchanges less and greater.
\<close>

theorem comparison_linear:
  assumes "value_ordering ops l r = Some v"
  shows "(\<exists>!c. c \<in> {Less, Equal, Greater} \<and> compare ops l c r = Ok True) \<and>
    compare ops l LessOrEqual r = Ok (compare ops l Greater r = Ok False) \<and>
    compare ops l GreaterOrEqual r = Ok (compare ops l Less r = Ok False) \<and>
    compare ops l NotEqual r = Ok (compare ops l Equal r = Ok False) \<and>
    compare ops r Less l = compare ops l Greater r \<and> compare ops r Equal l = compare ops l Equal r"
proof -
  have v': "value_ordering ops r l = Some (flip v)" using assms value_ordering_flip [of ops l r] by simp
  have cmp: "compare ops l c r = Ok (holds_between c (v = OEqual) (Some v))"
      "compare ops r c l = Ok (holds_between c (flip v = OEqual) (Some (flip v)))" for c
    by (subst compare_comparable;
        use assms v' value_ordering_kind [OF assms] equal_values_ordering [OF assms] equal_values_ordering [OF v']
        in \<open>simp add: comparable_def\<close>)+
  show ?thesis unfolding cmp by (cases v) auto
qed

section \<open>Witnesses\<close>

definition nat_ops :: "nat json_ops" where
  "nat_ops = \<lparr>decode_string = (\<lambda>s. None), decode_number = (\<lambda>s. None),
     as_i64 = (\<lambda>n. if n < 2 ^ 63 then Some (of_nat n) else None),
     as_u64 = (\<lambda>n. if n < 2 ^ 64 then Some (of_nat n) else None), as_f64 = (\<lambda>n. None)\<rparr>"

definition demo_env :: "nat json" where
  "demo_env = JObject [(''ready'', JBool True), (''tasks'', JArray [JNumber 2])]"

definition demo_test :: "nat Expression" where
  "demo_test = And (Value (Path (EnvironmentPath [Key ''ready''])))
     (Compare (Path (EnvironmentPath [Key ''tasks'', Index 0])) Less (Literal (LNumber 3)))"

lemma demo_compare: "compare_numbers nat_ops 2 3 = Some OLess"
  by (simp add: compare_numbers_def nat_ops_def cmp_def)

theorem evaluate_sound_witness: "evaluate_expression nat_ops demo_test demo_env = Ok (truth nat_ops demo_env demo_test)"
proof (rule evaluate_sound)
  show "well_typed nat_ops demo_env demo_test"
    by (auto simp: demo_test_def demo_env_def scalar_def lookup_def comparable_def demo_compare)
qed

theorem evaluate_local_witness:
  "evaluate_expression nat_ops demo_test demo_env =
   evaluate_expression nat_ops demo_test (JObject [(''ready'', JBool True), (''other'', JNull), (''tasks'', JArray [JNumber 2])])"
  by (rule conjunct1 [OF evaluate_local])
    (simp add: demo_test_def demo_env_def lookup_def)

theorem comparison_linear_witness: "compare nat_ops (RNumber 3) Less (RNumber 2) = compare nat_ops (RNumber 2) Greater (RNumber 3)"
  using comparison_linear [of nat_ops "RNumber 2" "RNumber 3" OLess] demo_compare by simp

end
