(* ===== verification/Framing.thy ===== *)
theory Framing
  imports Primitives Codec
begin

text \<open>
  \<^verbatim>\<open>core/protocol-support/src/lib.rs\<close>: bounded length-prefixed frames, version and
  capability negotiation. CBOR (\<^verbatim>\<open>ciborium\<close>) and the asynchronous transport (\<^verbatim>\<open>tokio\<close>) are
  arguments: \<open>to_cbor\<close> and \<open>from_cbor\<close>, \<open>read_exact\<close>, \<open>write_all\<close> and \<open>flush\<close>. The
  framing of bodies is an instance of \<open>stream_codec\<close>.
\<close>

section \<open>Types\<close>

definition MAGIC :: bytes where
  "MAGIC = str_bytes ''AMOD''"

definition DEFAULT_MAX_FRAME_BYTES :: nat where
  "DEFAULT_MAX_FRAME_BYTES = 16 * 1024 * 1024"

datatype FrameKind =
  Handshake_kind | Request | Response | StreamItem | StreamEnd | CancelFrame | WindowUpdate | Heartbeat | ErrorFrame

record FrameHeader =
  family :: string
  frame_version :: Version
  frame_kind :: FrameKind
  request_id :: uuid
  stream_sequence :: "u64 option"
  correlation_id :: uuid
  causation_id :: uuid
  idempotency_id :: uuid
  cancellation_id :: "uuid option"

record 'T WireFrame =
  header :: FrameHeader
  frame_payload :: 'T

record Handshake =
  supported_versions :: "Version list"
  hs_capabilities :: "string fset"
  authorization_token :: string

record Negotiated =
  neg_version :: Version
  neg_capabilities :: "string fset"

record ErrorEnvelope =
  err_code :: string
  err_message :: string
  retryable :: bool

datatype ProtocolError =
    IncompatibleVersion "Version list" "Version list"
  | FrameTooLarge nat nat
  | TruncatedHeader
  | InvalidMagic
  | LengthMismatch nat nat
  | Encode string
  | Decode string
  | Io string

section \<open>Negotiation\<close>

definition negotiate ::
  "Version list \<Rightarrow> string fset \<Rightarrow> Handshake \<Rightarrow> (Negotiated, ProtocolError) result" where
  "negotiate local_versions local_capabilities remote =
     rbind (ok_or (IncompatibleVersion local_versions (supported_versions remote))
        (find (\<lambda>l. list_ex (\<lambda>candidate. is_compatible_with l candidate) (supported_versions remote)) local_versions))
       (\<lambda>version. Ok \<lparr>neg_version = version,
          neg_capabilities = local_capabilities |\<inter>| hs_capabilities remote\<rparr>)"

section \<open>Frames\<close>

definition encode_frame ::
  "('T WireFrame \<Rightarrow> (bytes, string) result) \<Rightarrow> 'T WireFrame \<Rightarrow> nat \<Rightarrow> (bytes, ProtocolError) result" where
  "encode_frame to_cbor frame maximum =
     rbind (map_err Encode (to_cbor frame)) (\<lambda>body.
     if maximum < length body then Err (FrameTooLarge (length body) maximum)
     else if 2 ^ 32 - 1 < length body then Err (FrameTooLarge (length body) (2 ^ 32 - 1))
     else Ok (MAGIC @ be_bytes 4 (length body) @ body))"

definition decode_frame ::
  "(bytes \<Rightarrow> ('T WireFrame, string) result) \<Rightarrow> bytes \<Rightarrow> nat \<Rightarrow> ('T WireFrame, ProtocolError) result" where
  "decode_frame from_cbor encoded maximum =
     (if length encoded < 8 then Err TruncatedHeader
      else if take 4 encoded \<noteq> MAGIC then Err InvalidMagic
      else (let declared = be_value (take 4 (drop 4 encoded)) in
        if maximum < declared then Err (FrameTooLarge declared maximum)
        else (let actual = length encoded - 8 in
          if actual \<noteq> declared then Err (LengthMismatch declared actual)
          else map_err Decode (from_cbor (drop 8 encoded)))))"

definition read_frame ::
  "(bytes \<Rightarrow> ('T WireFrame, string) result) \<Rightarrow> (nat \<Rightarrow> 'r \<Rightarrow> (bytes \<times> 'r, string) result) \<Rightarrow>
   'r \<Rightarrow> nat \<Rightarrow> ('T WireFrame \<times> 'r, ProtocolError) result" where
  "read_frame from_cbor read_exact reader maximum =
     rbind (map_err Io (read_exact 8 reader)) (\<lambda>(hdr, reader1).
     if take 4 hdr \<noteq> MAGIC then Err InvalidMagic
     else (let declared = be_value (take 4 (drop 4 hdr)) in
       if maximum < declared then Err (FrameTooLarge declared maximum)
       else rbind (map_err Io (read_exact declared reader1)) (\<lambda>(body, reader2).
         rbind (decode_frame from_cbor (hdr @ body) maximum) (\<lambda>frame. Ok (frame, reader2)))))"

definition write_frame ::
  "('T WireFrame \<Rightarrow> (bytes, string) result) \<Rightarrow> (bytes \<Rightarrow> 'w \<Rightarrow> ('w, string) result) \<Rightarrow>
   ('w \<Rightarrow> ('w, string) result) \<Rightarrow> 'w \<Rightarrow> 'T WireFrame \<Rightarrow> nat \<Rightarrow> ('w, ProtocolError) result" where
  "write_frame to_cbor write_all flush writer frame maximum =
     rbind (encode_frame to_cbor frame maximum) (\<lambda>encoded.
     rbind (map_err Io (write_all encoded writer)) (\<lambda>writer1.
     map_err Io (flush writer1)))"

section \<open>The framing as a stream codec\<close>

definition put_body :: "bytes \<Rightarrow> bytes" where
  "put_body body = MAGIC @ be_bytes 4 (length body) @ body"

definition get_body :: "bytes \<Rightarrow> (bytes \<times> bytes) option" where
  "get_body bs =
     (if length bs < 8 \<or> take 4 bs \<noteq> MAGIC then None
      else let n = be_value (take 4 (drop 4 bs)) in
        if length bs - 8 < n then None else Some (take n (drop 8 bs), drop (8 + n) bs))"

lemma length_MAGIC [simp]: "length MAGIC = 4"
  by (simp add: MAGIC_def)

lemma length_put_body [simp]: "length (put_body body) = 8 + length body"
  by (simp add: put_body_def)

lemma put_body_header:
  "take 4 (put_body body @ rest) = MAGIC"
  "take 4 (drop 4 (put_body body @ rest)) = be_bytes 4 (length body)"
  "take 8 (put_body body @ rest) = MAGIC @ be_bytes 4 (length body)"
  "drop 8 (put_body body @ rest) = body @ rest"
  by (simp_all add: put_body_def)

lemma be_value_length: "length body < 2 ^ 32 \<Longrightarrow> be_value (be_bytes 4 (length body)) = length body"
  by (simp add: be_value_be_bytes)

interpretation frames: stream_codec put_body get_body "\<lambda>body. length body < 2 ^ 32"
proof
  show "get_body (put_body x @ rest) = Some (x, rest)" if "length x < 2 ^ 32" for x rest
    using be_value_length [OF that]
    by (simp add: get_body_def put_body_def)
  show "get_body [] = None" by (simp add: get_body_def)
qed

lemma encode_frame_Ok:
  "encode_frame to_cbor f maximum = Ok bs \<longleftrightarrow>
     (\<exists>body. to_cbor f = Ok body \<and> length body \<le> maximum \<and> length body < 2 ^ 32 \<and> bs = put_body body)"
  by (cases "to_cbor f") (auto simp: encode_frame_def put_body_def)

lemma decode_frame_Ok:
  "decode_frame from_cbor bs maximum = Ok f \<longleftrightarrow>
     (\<exists>body. from_cbor body = Ok f \<and> length body \<le> maximum \<and> length body < 2 ^ 32 \<and> bs = put_body body)"
  (is "?L \<longleftrightarrow> ?R")
proof
  assume L: ?L
  let ?body = "drop 8 bs"
  have len: "\<not> length bs < 8" "take 4 bs = MAGIC"
    "be_value (take 4 (drop 4 bs)) \<le> maximum" "length bs - 8 = be_value (take 4 (drop 4 bs))" "from_cbor ?body = Ok f"
    using L by (auto simp: decode_frame_def Let_def result_simps split: if_splits)
  have "be_value (take 4 (drop 4 bs)) < 256 ^ length (take 4 (drop 4 bs))" by (rule be_value_less)
  then have "length ?body < 2 ^ 32" using len by simp
  have "be_bytes 4 (length ?body) = take 4 (drop 4 bs)"
    using be_bytes_be_value [of "take 4 (drop 4 bs)"] len by simp
  moreover have "bs = take 4 bs @ take 4 (drop 4 bs) @ drop 4 (drop 4 bs)" by (simp del: drop_drop)
  ultimately have "bs = put_body ?body" using len(2) by (simp add: put_body_def)
  with \<open>length ?body < 2 ^ 32\<close> show ?R using len by (intro exI [of _ ?body]) simp
next
  assume ?R
  then obtain body where "from_cbor body = Ok f" "length body \<le> maximum" "length body < 2 ^ 32" "bs = put_body body"
    by blast
  then show ?L
    using put_body_header [of body "[]"] be_value_length [of body] by (simp add: decode_frame_def)
qed

section \<open>Reading from a byte stream\<close>

text \<open>\<^verbatim>\<open>read_exact\<close> on an in-memory stream of bytes, which fails at its end.\<close>

definition read_bytes :: "nat \<Rightarrow> bytes \<Rightarrow> (bytes \<times> bytes, string) result" where
  "read_bytes n bs = (if length bs < n then Err ''early eof'' else Ok (take n bs, drop n bs))"

lemma read_frame_put_body:
  assumes "length body < 2 ^ 32" and "length body \<le> maximum"
  shows "read_frame from_cbor read_bytes (put_body body @ rest) maximum =
    map_err Decode (rbind (from_cbor body) (\<lambda>f. Ok (f, rest)))"
proof -
  have hdr: "read_bytes 8 (put_body body @ rest) = Ok (MAGIC @ be_bytes 4 (length body), body @ rest)"
    using put_body_header [of body rest] by (simp add: read_bytes_def)
  moreover have "(MAGIC @ be_bytes 4 (length body)) @ body = put_body body" by (simp add: put_body_def)
  moreover have "decode_frame from_cbor (put_body body) maximum = map_err Decode (from_cbor body)"
    using put_body_header [of body "[]"] be_value_length [OF assms(1)] assms(2) by (simp add: decode_frame_def)
  ultimately show ?thesis
    using be_value_length [OF assms(1)] assms(2)
    by (cases "from_cbor body") (simp_all add: read_frame_def read_bytes_def)
qed

fun read_frames ::
  "(bytes \<Rightarrow> ('T WireFrame, string) result) \<Rightarrow> nat \<Rightarrow> nat \<Rightarrow> bytes \<Rightarrow> ('T WireFrame list \<times> bytes, ProtocolError) result" where
  "read_frames from_cbor maximum 0 bs = Ok ([], bs)"
| "read_frames from_cbor maximum (Suc n) bs =
     rbind (read_frame from_cbor read_bytes bs maximum) (\<lambda>(f, bs1).
     rbind (read_frames from_cbor maximum n bs1) (\<lambda>(fs, bs2). Ok (f # fs, bs2)))"

text \<open>
  C13. Frames survive the wire: for a CBOR decoder that inverts the encoder, a frame that
  encodes within the bound decodes to itself, and any number of frames written one after
  the other are read back one by one, leaving exactly what follows them.
\<close>

theorem frame_round_trip:
  assumes "\<And>f body. to_cbor f = Ok body \<Longrightarrow> from_cbor body = Ok f"
    and "list_all2 (\<lambda>f bs. encode_frame to_cbor f maximum = Ok bs) fs bss"
  shows "(\<forall>i < length fs. decode_frame from_cbor (bss ! i) maximum = Ok (fs ! i)) \<and>
    read_frames from_cbor maximum (length fs) (concat bss @ rest) = Ok (fs, rest)"
proof -
  have "read_frames from_cbor maximum (length fs) (concat bss @ rest) = Ok (fs, rest)"
    using assms(2)
  proof (induction rule: list_all2_induct)
    case Nil
    then show ?case by simp
  next
    case (Cons f fs bs bss)
    obtain body where body: "to_cbor f = Ok body" "length body \<le> maximum" "length body < 2 ^ 32" "bs = put_body body"
      using Cons.hyps(1) unfolding encode_frame_Ok by blast
    then show ?case
      using Cons.IH read_frame_put_body [OF body(3,2), of from_cbor "concat bss @ rest"] assms(1) [OF body(1)]
      by simp
  qed
  moreover have "decode_frame from_cbor (bss ! i) maximum = Ok (fs ! i)" if "i < length fs" for i
  proof -
    have "encode_frame to_cbor (fs ! i) maximum = Ok (bss ! i)"
      using list_all2_nthD [OF assms(2) that] .
    then show ?thesis using assms(1) unfolding encode_frame_Ok decode_frame_Ok by blast
  qed
  ultimately show ?thesis by blast
qed

text \<open>
  Decoding accepts exactly the frames of the format: magic, four-byte big-endian
  length, and a body of that length within the bound which CBOR accepts; and two
  concatenations of frame bodies with the same bytes have the same bodies.
\<close>

theorem decode_frame_exact:
  "(decode_frame from_cbor bs maximum = Ok f \<longleftrightarrow>
      (\<exists>body. from_cbor body = Ok f \<and> length body \<le> maximum \<and> length body < 2 ^ 32 \<and>
         bs = MAGIC @ be_bytes 4 (length body) @ body)) \<and>
   (list_all (\<lambda>b. length b < 2 ^ 32) bodies \<and> list_all (\<lambda>b. length b < 2 ^ 32) bodies' \<longrightarrow>
      concat (map put_body bodies) = concat (map put_body bodies') \<longrightarrow> bodies = bodies')"
  using decode_frame_Ok [of from_cbor bs maximum f] frames.concat_put_inject [of bodies bodies']
  unfolding put_body_def by blast

text \<open>
  Bounded reading: whatever a peer sends, reading a frame takes the eight header
  bytes and then, only if the declared length is within the bound, that many more; a
  larger declaration is refused before the body is read.
\<close>

theorem read_frame_bounded:
  assumes "length bs \<ge> 8" and "take 4 bs = MAGIC"
  shows "(maximum < be_value (take 4 (drop 4 bs)) \<longrightarrow>
      read_frame from_cbor read_bytes bs maximum = Err (FrameTooLarge (be_value (take 4 (drop 4 bs))) maximum)) \<and>
    (\<forall>f rest. read_frame from_cbor read_bytes bs maximum = Ok (f, rest) \<longrightarrow>
      (\<exists>body. bs = put_body body @ rest \<and> length body \<le> maximum \<and> from_cbor body = Ok f))"
proof (intro conjI allI impI)
  have hdr: "read_bytes 8 bs = Ok (take 8 bs, drop 8 bs)" using assms(1) by (simp add: read_bytes_def)
  have fields: "take 4 (take 8 bs) = MAGIC" "take 4 (drop 4 (take 8 bs)) = take 4 (drop 4 bs)"
    using assms by (simp_all add: take_drop)
  let ?n = "be_value (take 4 (drop 4 bs))"
  show "read_frame from_cbor read_bytes bs maximum = Err (FrameTooLarge ?n maximum)" if "maximum < ?n"
    using that assms(2) by (simp add: read_frame_def hdr fields Let_def)
  fix f rest assume ok: "read_frame from_cbor read_bytes bs maximum = Ok (f, rest)"
  then have n: "\<not> maximum < ?n" using assms(2) by (auto simp: read_frame_def hdr fields Let_def)
  with ok assms(2) obtain body where body: "read_bytes ?n (drop 8 bs) = Ok (body, rest)"
      "decode_frame from_cbor (take 8 bs @ body) maximum = Ok f"
    by (auto simp: read_frame_def hdr fields Let_def result_simps)
  then have split: "drop 8 bs = body @ rest" "length body = ?n"
    by (auto simp: read_bytes_def simp del: drop_drop split: if_splits)
  obtain body' where body': "from_cbor body' = Ok f" "length body' \<le> maximum" "length body' < 2 ^ 32" "take 8 bs @ body = put_body body'"
    using body(2) unfolding decode_frame_Ok by blast
  have "body = body'" "take 8 bs = MAGIC @ be_bytes 4 (length body')"
    using body'(4) put_body_header(3,4) [of body' "[]"] assms(1) by (simp_all add: append_eq_conv_conj)
  then have "bs = put_body body' @ rest"
    using split by (metis append.assoc append_take_drop_id put_body_def)
  then show "\<exists>body. bs = put_body body @ rest \<and> length body \<le> maximum \<and> from_cbor body = Ok f"
    using body'(1,2) by blast
qed

text \<open>
  Negotiation succeeds exactly when the peers share a major version; it selects the
  first local version with a major the remote also offers, and the capabilities both have.
\<close>

theorem negotiate_exact:
  "((\<exists>n. negotiate ls caps remote = Ok n) \<longleftrightarrow> (\<exists>l \<in> set ls. \<exists>r \<in> set (supported_versions remote). major l = major r)) \<and>
   (negotiate ls caps remote = Ok n \<longrightarrow>
      (\<exists>i < length ls. neg_version n = ls ! i \<and>
         (\<exists>r \<in> set (supported_versions remote). major (ls ! i) = major r) \<and>
         (\<forall>j < i. \<forall>r \<in> set (supported_versions remote). major (ls ! j) \<noteq> major r)) \<and>
      (\<forall>c. c |\<in>| neg_capabilities n \<longleftrightarrow> c |\<in>| caps \<and> c |\<in>| hs_capabilities remote))"
proof -
  define P where "P = (\<lambda>l. list_ex (\<lambda>candidate. is_compatible_with l candidate) (supported_versions remote))"
  have P: "P l \<longleftrightarrow> (\<exists>r \<in> set (supported_versions remote). major l = major r)" for l
    by (auto simp: P_def list_ex_iff is_compatible_with_def)
  show ?thesis
  proof (cases "find P ls")
    case None
    then have "negotiate ls caps remote = Err (IncompatibleVersion ls (supported_versions remote))"
      by (simp add: negotiate_def P_def)
    then show ?thesis using None P by (auto simp: find_None_iff)
  next
    case (Some v)
    then have run: "negotiate ls caps remote = Ok \<lparr>neg_version = v, neg_capabilities = caps |\<inter>| hs_capabilities remote\<rparr>"
      by (simp add: negotiate_def P_def)
    obtain i where i: "i < length ls" "P (ls ! i)" "v = ls ! i" "\<And>j. j < i \<Longrightarrow> \<not> P (ls ! j)"
      using Some unfolding find_Some_iff by blast
    then have "\<exists>i < length ls. v = ls ! i \<and> (\<exists>r \<in> set (supported_versions remote). major (ls ! i) = major r) \<and>
        (\<forall>j < i. \<forall>r \<in> set (supported_versions remote). major (ls ! j) \<noteq> major r)"
      unfolding P by blast
    moreover have "\<exists>l \<in> set ls. \<exists>r \<in> set (supported_versions remote). major l = major r"
      using i(1,2) P nth_mem by blast
    ultimately show ?thesis by (auto simp: run)
  qed
qed

section \<open>Witnesses\<close>

text \<open>A CBOR stand-in for frames whose payload is a list of bytes and whose header is fixed.\<close>

definition demo_header :: FrameHeader where
  "demo_header = \<lparr>family = ''runtime'', frame_version = Version_new 1 0, frame_kind = Request, request_id = 1,
     stream_sequence = None, correlation_id = 2, causation_id = 3, idempotency_id = 4, cancellation_id = None\<rparr>"

definition demo_to_cbor :: "bytes WireFrame \<Rightarrow> (bytes, string) result" where
  "demo_to_cbor f = (if header f = demo_header then Ok (frame_payload f) else Err ''header'')"

definition demo_from_cbor :: "bytes \<Rightarrow> (bytes WireFrame, string) result" where
  "demo_from_cbor body = Ok \<lparr>header = demo_header, frame_payload = body\<rparr>"

theorem frame_round_trip_witness:
  "decode_frame demo_from_cbor (put_body [7, 9]) 16 = Ok \<lparr>header = demo_header, frame_payload = [7, 9]\<rparr> \<and>
   read_frames demo_from_cbor 16 2 (put_body [7, 9] @ put_body [] @ [1]) =
     Ok ([\<lparr>header = demo_header, frame_payload = [7, 9]\<rparr>, \<lparr>header = demo_header, frame_payload = []\<rparr>], [1])"
proof -
  let ?fs = "[\<lparr>header = demo_header, frame_payload = [7, 9]\<rparr>, \<lparr>header = demo_header, frame_payload = []\<rparr>] :: bytes WireFrame list"
  have law: "demo_from_cbor body = Ok f" if "demo_to_cbor f = Ok body" for f body
    using that by (auto simp: demo_to_cbor_def demo_from_cbor_def split: if_splits)
  have "list_all2 (\<lambda>f bs. encode_frame demo_to_cbor f 16 = Ok bs) ?fs [put_body [7, 9], put_body []]"
    by (simp add: encode_frame_Ok demo_to_cbor_def)
  then have "decode_frame demo_from_cbor ([put_body [7, 9], put_body []] ! 0) 16 = Ok (?fs ! 0)"
    "read_frames demo_from_cbor 16 (length ?fs) (concat [put_body [7, 9], put_body []] @ [1]) = Ok (?fs, [1])"
    using frame_round_trip [of demo_to_cbor demo_from_cbor 16 ?fs "[put_body [7, 9], put_body []]" "[1]"] law by force+
  then show ?thesis by (simp add: numeral_2_eq_2)
qed

theorem decode_frame_exact_witness:
  "decode_frame demo_from_cbor (MAGIC @ [0, 0, 0, 1, 5]) 4 = Ok \<lparr>header = demo_header, frame_payload = [5]\<rparr> \<and>
   [[1], [2]] = [[1], [2 :: u8]]"
proof -
  have "be_bytes 4 1 = [0, 0, 0, 1]" by code_simp
  then show ?thesis
    using decode_frame_exact [of demo_from_cbor "MAGIC @ [0, 0, 0, 1, 5]" 4
        "\<lparr>header = demo_header, frame_payload = [5]\<rparr>" "[[1], [2]]" "[[1], [2]]"]
    by (auto simp: demo_from_cbor_def)
qed

theorem read_frame_bounded_witness:
  "read_frame demo_from_cbor read_bytes (MAGIC @ [0, 0, 0, 9]) 8 = Err (FrameTooLarge 9 8)"
  using read_frame_bounded [of "MAGIC @ [0, 0, 0, 9]" 8 demo_from_cbor] by (simp add: be_value_def)

theorem negotiate_exact_witness:
  "neg_version \<lparr>neg_version = Version_new 2 1, neg_capabilities = {|''a''|}\<rparr> \<in> set [Version_new 3 0, Version_new 2 1]"
proof -
  let ?remote = "\<lparr>supported_versions = [Version_new 2 7], hs_capabilities = {|''a''|}, authorization_token = []\<rparr>"
  have "negotiate [Version_new 3 0, Version_new 2 1] {|''a'', ''b''|} ?remote =
      Ok \<lparr>neg_version = Version_new 2 1, neg_capabilities = {|''a''|}\<rparr>"
    by (simp add: negotiate_def is_compatible_with_def Version_new_def)
  then show ?thesis
    using negotiate_exact [of "[Version_new 3 0, Version_new 2 1]" "{|''a'', ''b''|}" ?remote
        "\<lparr>neg_version = Version_new 2 1, neg_capabilities = {|''a''|}\<rparr>"] nth_mem by metis
qed

end
