(* ===== verification/Authorization.thy ===== *)
theory Authorization
  imports Primitives Codec
begin

text \<open>
  \<^verbatim>\<open>core/protocol-support/src/authorization.rs\<close>: short-lived keyed grants. BLAKE3 and
  \<^verbatim>\<open>serde_json\<close> are arguments (\<open>keyed_hash\<close>, \<open>to_hex\<close>, \<open>to_vec\<close>, \<open>from_slice\<close>). Times are
  signed 64-bit words; the lifetime is their wrapping difference, as compiled for release
  (\<^verbatim>\<open>[profile.release]\<close> does not enable overflow checks).
\<close>

unbundle bit_operations_syntax

section \<open>Types and bounds\<close>

definition TOKEN_VERSION :: string where "TOKEN_VERSION = ''v1''"
definition KEY_BYTES :: nat where "KEY_BYTES = 32"
definition MAX_PAYLOAD_BYTES :: nat where "MAX_PAYLOAD_BYTES = 4096"
definition MAX_CLAIM_TEXT_BYTES :: nat where "MAX_CLAIM_TEXT_BYTES = 512"
definition MAX_LIFETIME_MILLIS :: int where "MAX_LIFETIME_MILLIS = 5 * 60 * 1000"
definition CLOCK_SKEW_MILLIS :: int where "CLOCK_SKEW_MILLIS = 30 * 1000"

record AuthorizationClaims =
  owner :: string
  session :: string
  call_id :: string
  action_name :: string
  normalized_digest :: ContentHash
  issued_at :: TimestampMillis
  expires_at :: TimestampMillis
  nonce :: string

record ExpectedAuthorization =
  exp_owner :: string
  exp_session :: string
  exp_call_id :: string
  exp_action :: string
  exp_digest :: ContentHash

datatype AuthorizationKey = AuthorizationKey (key_bytes: bytes)

datatype AuthorizationError =
    InvalidKey | InvalidClaims | InvalidLifetime | PayloadTooLarge | Encoding string
  | InvalidToken | InvalidMac | Expired | NotYetValid | BindingMismatch

section \<open>Hexadecimal\<close>

definition HEX :: string where "HEX = ''0123456789abcdef''"

definition encode_hex :: "bytes \<Rightarrow> string" where
  "encode_hex bs = concat (map (\<lambda>b. [HEX ! unat (drop_bit 4 b), HEX ! unat (b AND 15)]) bs)"

definition hex_nibble :: "u8 \<Rightarrow> u8 option" where
  "hex_nibble b =
     (if 48 \<le> b \<and> b \<le> 57 then Some (b - 48)
      else if 97 \<le> b \<and> b \<le> 102 then Some (b - 97 + 10)
      else if 65 \<le> b \<and> b \<le> 70 then Some (b - 65 + 10)
      else None)"

fun decode_pairs :: "bytes \<Rightarrow> bytes option" where
  "decode_pairs (a # b # rest) =
     (case hex_nibble a of
        None \<Rightarrow> None
      | Some high \<Rightarrow>
          (case hex_nibble b of
             None \<Rightarrow> None
           | Some low \<Rightarrow> map_option (\<lambda>bs. (push_bit 4 high OR low) # bs) (decode_pairs rest)))"
| "decode_pairs _ = Some []"

definition decode_hex :: "string \<Rightarrow> nat \<Rightarrow> bytes option" where
  "decode_hex s maximum_bytes =
     (if odd (length s) \<or> maximum_bytes < length s div 2 then None else decode_pairs (str_bytes s))"

definition AuthorizationKey_from_hex :: "string \<Rightarrow> (AuthorizationKey, AuthorizationError) result" where
  "AuthorizationKey_from_hex s =
     rbind (ok_or InvalidKey (decode_hex s KEY_BYTES)) (\<lambda>bs.
     if length bs = KEY_BYTES then Ok (AuthorizationKey bs) else Err InvalidKey)"

definition constant_time_equal :: "bytes \<Rightarrow> bytes \<Rightarrow> bool" where
  "constant_time_equal left right =
     (if length left \<noteq> length right then False
      else foldl (\<lambda>difference (l, r). difference OR (l XOR r)) 0 (zip left right) = 0)"

section \<open>Claims\<close>

definition claim_text_ok :: "string \<Rightarrow> bool" where
  "claim_text_ok s \<longleftrightarrow>
     s \<noteq> [] \<and> length s \<le> MAX_CLAIM_TEXT_BYTES \<and> \<not> list_ex is_control (str_chars s)"

definition validate_claims :: "AuthorizationClaims \<Rightarrow> (unit, AuthorizationError) result" where
  "validate_claims c =
     rbind (check_all (\<lambda>s. fail_if (\<not> claim_text_ok s) InvalidClaims)
        [owner c, session c, call_id c, action_name c, nonce c]) (\<lambda>_.
     let expires = Timestamp_get (expires_at c); issued = Timestamp_get (issued_at c) in
     fail_if (sint expires \<le> sint issued \<or> MAX_LIFETIME_MILLIS < sint (expires - issued)) InvalidLifetime)"

definition validate_time :: "AuthorizationClaims \<Rightarrow> TimestampMillis \<Rightarrow> (unit, AuthorizationError) result" where
  "validate_time c now =
     (if sint (Timestamp_get (expires_at c)) < sint (Timestamp_get now) then Err Expired
      else if sint (saturating_add_i64 (Timestamp_get now) CLOCK_SKEW_MILLIS) < sint (Timestamp_get (issued_at c))
      then Err NotYetValid
      else Ok ())"

section \<open>Sealing and verifying\<close>

definition seal_authorization ::
  "(AuthorizationClaims \<Rightarrow> (bytes, string) result) \<Rightarrow> (bytes \<Rightarrow> bytes \<Rightarrow> bytes) \<Rightarrow> (bytes \<Rightarrow> string) \<Rightarrow>
   AuthorizationClaims \<Rightarrow> AuthorizationKey \<Rightarrow> (string, AuthorizationError) result" where
  "seal_authorization to_vec keyed_hash to_hex c key =
     rbind (validate_claims c) (\<lambda>_.
     rbind (map_err Encoding (to_vec c)) (\<lambda>payload.
     if MAX_PAYLOAD_BYTES < length payload then Err PayloadTooLarge
     else Ok (TOKEN_VERSION @ ''.'' @ encode_hex payload @ ''.'' @ to_hex (keyed_hash (key_bytes key) payload))))"

fun split_dots :: "string \<Rightarrow> string list" where
  "split_dots [] = [[]]"
| "split_dots (c # cs) =
     (if c = CHR ''.'' then [] # split_dots cs
      else (case split_dots cs of s # ss \<Rightarrow> (c # s) # ss | [] \<Rightarrow> [[c]]))"

definition binds :: "AuthorizationClaims \<Rightarrow> ExpectedAuthorization \<Rightarrow> bool" where
  "binds c e \<longleftrightarrow>
     owner c = exp_owner e \<and> session c = exp_session e \<and> call_id c = exp_call_id e \<and>
     action_name c = exp_action e \<and> normalized_digest c = exp_digest e"

definition verify_authorization ::
  "(bytes \<Rightarrow> AuthorizationClaims option) \<Rightarrow> (bytes \<Rightarrow> bytes \<Rightarrow> bytes) \<Rightarrow>
   string \<Rightarrow> AuthorizationKey \<Rightarrow> ExpectedAuthorization \<Rightarrow> TimestampMillis \<Rightarrow>
   (AuthorizationClaims, AuthorizationError) result" where
  "verify_authorization from_slice keyed_hash token key expected now =
     (if MAX_PAYLOAD_BYTES * 2 + 80 < length token then Err PayloadTooLarge
      else case split_dots token of
        [version, payload_hex, mac_hex] \<Rightarrow>
          if version \<noteq> TOKEN_VERSION then Err InvalidToken
          else rbind (ok_or InvalidToken (decode_hex payload_hex MAX_PAYLOAD_BYTES)) (\<lambda>payload.
            rbind (ok_or InvalidToken (decode_hex mac_hex 32)) (\<lambda>supplied_mac.
            if length supplied_mac \<noteq> 32 then Err InvalidToken
            else if \<not> constant_time_equal (keyed_hash (key_bytes key) payload) supplied_mac then Err InvalidMac
            else rbind (ok_or InvalidToken (from_slice payload)) (\<lambda>c.
              rbind (validate_claims c) (\<lambda>_.
              rbind (validate_time c now) (\<lambda>_.
              if binds c expected then Ok c else Err BindingMismatch)))))
      | _ \<Rightarrow> Err InvalidToken)"

section \<open>Helper laws\<close>

lemma foldl_OR_zero:
  "foldl (\<lambda>d (l, r). d OR (l XOR r)) (d :: u8) ps = 0 \<longleftrightarrow> d = 0 \<and> (\<forall>(l, r) \<in> set ps. l = r)"
proof (induction ps arbitrary: d)
  case (Cons p ps)
  have "d OR (a XOR b) = 0 \<longleftrightarrow> d = 0 \<and> a = b" for a b :: u8
    by (auto simp: bit_eq_iff bit_simps)
  with Cons show ?case by (cases p) auto
qed auto

lemma constant_time_equal_iff: "constant_time_equal l r \<longleftrightarrow> l = r"
  by (auto simp: constant_time_equal_def foldl_OR_zero set_zip list_eq_iff_nth_eq)

lemma hex_nibble_HEX: "i < 16 \<Longrightarrow> hex_nibble (byte_of_char (HEX ! i)) = Some (of_nat i)"
proof -
  have "\<forall>i \<in> set [0..<16]. hex_nibble (byte_of_char (HEX ! i)) = Some (of_nat i)" by code_simp
  then show "i < 16 \<Longrightarrow> ?thesis" by simp
qed

lemma nibbles_less: "unat (drop_bit 4 (b :: u8)) < 16" "unat (b AND 15) < 16"
proof -
  have "unat (drop_bit 4 b) = drop_bit 4 (unat b)" by (rule unat_drop_bit_eq)
  also have "\<dots> = unat b div 16" by (simp add: drop_bit_eq_div)
  finally have "unat (drop_bit 4 b) = unat b div 16" .
  moreover have "unat b < 16 * 16" by simp
  ultimately show "unat (drop_bit 4 b) < 16" using less_mult_imp_div_less by metis
  have "b AND 15 = take_bit 4 b" by (simp add: take_bit_eq_mask mask_eq_exp_minus_1)
  then have "unat (b AND 15) = take_bit 4 (unat b)" by (simp only: unsigned_take_bit_eq)
  then show "unat (b AND 15) < 16" using take_bit_nat_less_exp [of 4 "unat b"] by simp
qed

lemma nibbles_join: "push_bit 4 (drop_bit 4 (b :: u8)) OR (b AND 15) = b"
proof -
  have "b AND 15 = take_bit 4 b" by (simp add: take_bit_eq_mask mask_eq_exp_minus_1)
  then show ?thesis by (auto simp: bit_eq_iff bit_simps)
qed

lemma decode_pairs_encode: "decode_pairs (str_bytes (encode_hex bs)) = Some bs"
proof (induction bs)
  case Nil
  then show ?case by (simp add: encode_hex_def str_bytes_def)
next
  case (Cons b bs)
  have "str_bytes (encode_hex (b # bs)) =
      byte_of_char (HEX ! unat (drop_bit 4 b)) # byte_of_char (HEX ! unat (b AND 15)) # str_bytes (encode_hex bs)"
    by (simp add: encode_hex_def str_bytes_def)
  then show ?case
    using Cons hex_nibble_HEX [OF nibbles_less(1) [of b]] hex_nibble_HEX [OF nibbles_less(2) [of b]] nibbles_join [of b]
    by simp
qed

lemma length_encode_hex [simp]: "length (encode_hex bs) = 2 * length bs"
  by (induction bs) (simp_all add: encode_hex_def)

interpretation hex: codec encode_hex "\<lambda>s. decode_hex s maximum" "\<lambda>bs. length bs \<le> maximum" for maximum
  by unfold_locales (simp add: decode_hex_def decode_pairs_encode)

lemma HEX_no_dot: "i < 16 \<Longrightarrow> HEX ! i \<noteq> CHR ''.''"
proof -
  have "\<forall>i \<in> set [0..<16]. HEX ! i \<noteq> CHR ''.''" by code_simp
  then show "i < 16 \<Longrightarrow> ?thesis" by simp
qed

lemma encode_hex_no_dot: "CHR ''.'' \<notin> set (encode_hex bs)"
  using HEX_no_dot [OF nibbles_less(1)] HEX_no_dot [OF nibbles_less(2)]
  by (auto simp: encode_hex_def eq_commute [of "CHR ''.''"])

lemma split_dots_plain: "CHR ''.'' \<notin> set a \<Longrightarrow> split_dots a = [a]"
  by (induction a) auto

lemma split_dots_append: "CHR ''.'' \<notin> set a \<Longrightarrow> split_dots (a @ CHR ''.'' # b) = a # split_dots b"
  by (induction a) auto

fun join_dots :: "string list \<Rightarrow> string" where
  "join_dots [] = []"
| "join_dots [s] = s"
| "join_dots (s # ss) = s @ CHR ''.'' # join_dots ss"

lemma split_dots_nonempty: "split_dots s \<noteq> []"
  by (induction s) (auto split: list.splits)

lemma join_split_dots: "join_dots (split_dots s) = s"
proof (induction s)
  case Nil
  then show ?case by simp
next
  case (Cons c cs)
  obtain x xs where "split_dots cs = x # xs" using split_dots_nonempty by (meson list.exhaust)
  with Cons show ?case by (cases xs) auto
qed

lemma sint_diff_u64:
  fixes e i :: u64
  assumes "sint i < sint e"
  shows "sint (e - i) = (if sint e - sint i < 2 ^ 63 then sint e - sint i else sint e - sint i - 2 ^ 64)"
proof -
  have r: "- (2 ^ 63) \<le> sint i" "sint e < 2 ^ 63"
    using sint_u64_range [of i] sint_u64_range [of e] by (simp_all add: i64_min_def i64_max_def)
  have d: "e - i = word_of_int (sint e - sint i)" by simp
  have w: "(word_of_int (x - 2 ^ 64) :: u64) = word_of_int x" for x
  proof -
    have "(word_of_int (x - 2 ^ 64) :: u64) = word_of_int x - word_of_int (2 ^ 64)" by (simp only: wi_hom_sub)
    also have "(word_of_int (2 ^ 64) :: u64) = 0" by simp
    finally show ?thesis by simp
  qed
  show ?thesis
  proof (cases "sint e - sint i < 2 ^ 63")
    case True
    then have "sint (word_of_int (sint e - sint i) :: u64) = sint e - sint i"
      using assms by (intro sint_word_of_int_u64) (simp_all add: i64_min_def i64_max_def)
    with True d show ?thesis by simp
  next
    case False
    then have "sint (word_of_int (sint e - sint i - 2 ^ 64) :: u64) = sint e - sint i - 2 ^ 64"
      using r by (intro sint_word_of_int_u64) (simp_all add: i64_min_def i64_max_def)
    with False show ?thesis unfolding w d [symmetric] by (simp only: if_False)
  qed
qed

section \<open>Properties\<close>

lemma validate_claims_Ok:
  "validate_claims c = Ok () \<longleftrightarrow>
     (\<forall>s \<in> {owner c, session c, call_id c, action_name c, nonce c}. claim_text_ok s) \<and>
     sint (Timestamp_get (issued_at c)) < sint (Timestamp_get (expires_at c)) \<and>
     sint (Timestamp_get (expires_at c) - Timestamp_get (issued_at c)) \<le> MAX_LIFETIME_MILLIS"
  unfolding validate_claims_def by (auto simp: result_simps Let_def not_less not_le)

lemma validate_time_Ok:
  "validate_time c now = Ok () \<longleftrightarrow>
     sint (Timestamp_get now) \<le> sint (Timestamp_get (expires_at c)) \<and>
     sint (Timestamp_get (issued_at c)) \<le> min i64_max (sint (Timestamp_get now) + CLOCK_SKEW_MILLIS)"
proof -
  have "sint (saturating_add_i64 (Timestamp_get now) CLOCK_SKEW_MILLIS) =
      min i64_max (sint (Timestamp_get now) + CLOCK_SKEW_MILLIS)"
    using sint_u64_range [of "Timestamp_get now"]
    by (simp add: sint_saturating_add_i64 CLOCK_SKEW_MILLIS_def i64_min_def i64_max_def)
  then show ?thesis by (auto simp: validate_time_def)
qed

text \<open>
  C14. What verification guarantees: a token it accepts has exactly three segments, the
  version, a payload and a 32-byte MAC which is the keyed hash of that payload, and the
  claims it returns are decoded from that payload, have valid text, are within their time
  window up to the clock skew, and bind exactly the expected request.
\<close>

theorem authorization_sound:
  assumes "verify_authorization from_slice keyed_hash token key expected now = Ok c"
  shows "\<exists>payload payload_hex mac_hex.
    token = ''v1.'' @ payload_hex @ ''.'' @ mac_hex \<and>
    decode_hex payload_hex MAX_PAYLOAD_BYTES = Some payload \<and>
    decode_hex mac_hex 32 = Some (keyed_hash (key_bytes key) payload) \<and>
    from_slice payload = Some c \<and> binds c expected \<and>
    (\<forall>s \<in> {owner c, session c, call_id c, action_name c, nonce c}. claim_text_ok s) \<and>
    sint (Timestamp_get (issued_at c)) < sint (Timestamp_get (expires_at c)) \<and>
    sint (Timestamp_get now) \<le> sint (Timestamp_get (expires_at c)) \<and>
    sint (Timestamp_get (issued_at c)) \<le> sint (Timestamp_get now) + CLOCK_SKEW_MILLIS"
proof -
  obtain v p m where seg: "split_dots token = [v, p, m]"
    using assms by (auto simp: verify_authorization_def split: if_splits list.splits)
  then have token: "token = v @ CHR ''.'' # p @ CHR ''.'' # m" using join_split_dots [of token] by simp
  obtain payload where ver: "v = TOKEN_VERSION" "decode_hex p MAX_PAYLOAD_BYTES = Some payload"
      "decode_hex m 32 = Some (keyed_hash (key_bytes key) payload)" "from_slice payload = Some c"
      "validate_claims c = Ok ()" "validate_time c now = Ok ()" "binds c expected"
    using assms seg
    by (auto simp: verify_authorization_def result_simps constant_time_equal_iff split: if_splits)
  have "sint (Timestamp_get (issued_at c)) \<le> sint (Timestamp_get now) + CLOCK_SKEW_MILLIS"
    using ver(6) unfolding validate_time_Ok by simp
  then show ?thesis
    using token ver unfolding validate_claims_Ok validate_time_Ok
    by (intro exI [of _ payload] exI [of _ p] exI [of _ m]) (simp add: TOKEN_VERSION_def)
qed

text \<open>
  Completeness: a token sealed for some claims is accepted with the same key, when
  the JSON decoder inverts the encoder, the MAC is 32 bytes printed as lower-case
  hexadecimal, the request is the bound one and the time is inside the window; the
  returned claims are the sealed ones.
\<close>

theorem authorization_round_trip:
  assumes "seal_authorization to_vec keyed_hash to_hex c key = Ok token"
    and "\<And>payload. to_vec c = Ok payload \<Longrightarrow> from_slice payload = Some c"
    and "\<And>payload. length (keyed_hash (key_bytes key) payload) = 32" and "\<And>mac. to_hex mac = encode_hex mac"
    and "binds c expected" and "validate_time c now = Ok ()"
  shows "verify_authorization from_slice keyed_hash token key expected now = Ok c"
proof -
  obtain payload where payload: "validate_claims c = Ok ()" "to_vec c = Ok payload" "length payload \<le> MAX_PAYLOAD_BYTES"
      "token = TOKEN_VERSION @ ''.'' @ encode_hex payload @ ''.'' @ encode_hex (keyed_hash (key_bytes key) payload)"
    using assms(1,4) by (auto simp: seal_authorization_def result_simps split: if_splits)
  let ?mac = "keyed_hash (key_bytes key) payload"
  have "CHR ''.'' \<notin> set TOKEN_VERSION" by (simp add: TOKEN_VERSION_def)
  then have "split_dots token = [TOKEN_VERSION, encode_hex payload, encode_hex ?mac]"
    unfolding payload(4) by (simp add: split_dots_append split_dots_plain encode_hex_no_dot)
  moreover have "length token \<le> MAX_PAYLOAD_BYTES * 2 + 80"
    using payload(3,4) assms(3) [of payload] by (simp add: TOKEN_VERSION_def)
  moreover have "decode_hex (encode_hex payload) MAX_PAYLOAD_BYTES = Some payload" "decode_hex (encode_hex ?mac) 32 = Some ?mac"
    using payload(3) assms(3) by (simp_all add: hex.dec_enc)
  ultimately show ?thesis
    using assms payload by (simp add: verify_authorization_def constant_time_equal_iff)
qed

text \<open>
  The lifetime of accepted claims, exactly: at most five minutes, or so long that the
  difference of the two times does not fit a signed 64-bit integer and wraps around. The
  second case escapes the bound.
\<close>

theorem grant_lifetime:
  "validate_claims c = Ok () \<longleftrightarrow>
     list_all claim_text_ok [owner c, session c, call_id c, action_name c, nonce c] \<and>
     (let lifetime = sint (Timestamp_get (expires_at c)) - sint (Timestamp_get (issued_at c)) in
      (0 < lifetime \<and> lifetime \<le> 300000) \<or> 2 ^ 63 \<le> lifetime)"
proof -
  let ?e = "Timestamp_get (expires_at c)" and ?i = "Timestamp_get (issued_at c)"
  have r: "sint ?e < 2 ^ 63" "- (2 ^ 63) \<le> sint ?i"
    using sint_u64_range [of ?e] sint_u64_range [of ?i] by (simp_all add: i64_min_def i64_max_def)
  show ?thesis
  proof (cases "sint ?i < sint ?e")
    case True
    have "sint (?e - ?i) \<le> 300000 \<longleftrightarrow> sint ?e - sint ?i \<le> 300000 \<or> 2 ^ 63 \<le> sint ?e - sint ?i"
      using sint_diff_u64 [OF True] r by (auto split: if_splits)
    then show ?thesis using True unfolding validate_claims_Ok MAX_LIFETIME_MILLIS_def Let_def by auto
  next
    case False
    then show ?thesis unfolding validate_claims_Ok Let_def by auto
  qed
qed

section \<open>Witnesses\<close>

definition demo_claims :: AuthorizationClaims where
  "demo_claims = \<lparr>owner = ''o'', session = ''s'', call_id = ''c'', action_name = ''a'',
     normalized_digest = ContentHash [], issued_at = TimestampMillis 0, expires_at = TimestampMillis 1000, nonce = ''n''\<rparr>"

definition demo_expected :: ExpectedAuthorization where
  "demo_expected = \<lparr>exp_owner = ''o'', exp_session = ''s'', exp_call_id = ''c'', exp_action = ''a'', exp_digest = ContentHash []\<rparr>"

definition demo_mac :: "bytes \<Rightarrow> bytes \<Rightarrow> bytes" where
  "demo_mac key payload = replicate 32 (of_nat (length payload))"

definition demo_slice :: "bytes \<Rightarrow> AuthorizationClaims option" where
  "demo_slice payload = (if payload = [1, 2] then Some demo_claims else None)"

lemma demo_text_ok: "claim_text_ok [c]" if "c \<in> {CHR ''o'', CHR ''s'', CHR ''c'', CHR ''a'', CHR ''n''}"
  using that by (auto simp: claim_text_ok_def MAX_CLAIM_TEXT_BYTES_def str_chars.simps next_char_def is_control_def char_code_def)

lemma demo_valid: "validate_claims demo_claims = Ok ()"
  unfolding validate_claims_Ok by (simp add: demo_claims_def demo_text_ok MAX_LIFETIME_MILLIS_def)

lemma demo_sealed:
  "seal_authorization (\<lambda>c. Ok [1, 2]) demo_mac encode_hex demo_claims (AuthorizationKey []) =
     Ok (''v1.'' @ encode_hex [1, 2] @ ''.'' @ encode_hex (demo_mac [] [1, 2]))"
  by (simp add: seal_authorization_def demo_valid MAX_PAYLOAD_BYTES_def TOKEN_VERSION_def)

lemma demo_binds: "binds demo_claims demo_expected"
  by (simp add: binds_def demo_claims_def demo_expected_def)

lemma demo_in_time: "validate_time demo_claims (TimestampMillis 500) = Ok ()"
  unfolding validate_time_Ok by (simp add: demo_claims_def CLOCK_SKEW_MILLIS_def i64_max_def)

theorem authorization_round_trip_witness:
  "verify_authorization demo_slice demo_mac (''v1.'' @ encode_hex [1, 2] @ ''.'' @ encode_hex (demo_mac [] [1, 2]))
     (AuthorizationKey []) demo_expected (TimestampMillis 500) = Ok demo_claims"
  by (rule authorization_round_trip [OF demo_sealed])
    (simp_all add: demo_slice_def demo_mac_def demo_binds demo_in_time)

lemma demo_split: "split_dots (''v1.'' @ a) = ''v1'' # split_dots a"
  using split_dots_append [of "''v1''" a] by simp

theorem authorization_sound_witness: "binds demo_claims demo_expected \<and> demo_slice [1, 2] = Some demo_claims"
proof -
  have "split_dots (''v1.'' @ encode_hex [1, 2] @ ''.'' @ encode_hex (demo_mac [] [1, 2])) =
      [''v1'', encode_hex [1, 2], encode_hex (demo_mac [] [1, 2])]"
    unfolding demo_split by (simp add: split_dots_append split_dots_plain encode_hex_no_dot)
  then have "verify_authorization demo_slice demo_mac (''v1.'' @ encode_hex [1, 2] @ ''.'' @ encode_hex (demo_mac [] [1, 2]))
      (AuthorizationKey []) demo_expected (TimestampMillis 500) = Ok demo_claims"
    by (simp add: verify_authorization_def hex.dec_enc demo_valid constant_time_equal_iff demo_in_time demo_binds
        demo_mac_def MAX_PAYLOAD_BYTES_def TOKEN_VERSION_def demo_slice_def)
  from authorization_sound [OF this] show ?thesis by (auto simp: demo_slice_def)
qed

end
