(* ===== verification/Graph_Types.thy ===== *)
theory Graph_Types
  imports Expr_Eval Primitives "HOL-Library.Option_ord" "HOL-Library.Product_Lexorder"
begin

text \<open>
  \<^verbatim>\<open>core/graph-engine/src/lib.rs\<close>, first part: the data of the graph compiler, from the
  parsed \<^verbatim>\<open>GraphDefinition\<close> to the \<^verbatim>\<open>ExecutableGraph\<close>, and its errors.

  Constructor arguments and record fields are in the order of the source. A field whose
  name is taken carries the name of its struct (\<^verbatim>\<open>node.id\<close> is \<open>node_id\<close>, \<^verbatim>\<open>edge.from\<close> is
  \<open>edge_from\<close>, \<^verbatim>\<open>definition.nodes\<close> is \<open>graph_nodes\<close>); constructors that two enums share are
  told apart by their type (\<open>NodeKind.Delay\<close>, \<open>NodeConfiguration.Delay\<close>). The number type of
  JSON values is the type parameter \<open>'n\<close>, as in the expression engine. Bounds and counts
  are only compared, so they are \<open>nat\<close>.

  Every check is a \<open>checked\<close> value: \<open>Rejected\<close> is an \<^verbatim>\<open>Err(GraphError)\<close> of the source,
  \<open>Panicked\<close> an \<^verbatim>\<open>expect\<close>, an index or a subtraction that would abort the program.
\<close>

section \<open>Limits and inputs\<close>

definition GRAPH_FORMAT_VERSION :: nat where
  "GRAPH_FORMAT_VERSION = 1"

record CompilerLimits =
  max_source_bytes :: nat
  max_nodes :: nat
  max_edges :: nat
  max_variables :: nat
  max_configuration_items :: nat
  max_configuration_bytes :: nat
  max_value_depth :: nat
  max_parallelism :: nat
  max_name_bytes :: nat
  max_retry_limit :: nat
  max_loop_iterations :: nat
  max_steps :: nat
  max_tokens :: nat
  max_cost_micros :: nat
  max_duration_ms :: nat
  allow_legacy_unconfigured_artifact_persistence :: bool
  limit_expression :: ExpressionLimits

definition CompilerLimits_default :: CompilerLimits where
  "CompilerLimits_default =
     \<lparr>max_source_bytes = 1024 * 1024, CompilerLimits.max_nodes = 10000, max_edges = 50000,
      max_variables = 10000, max_configuration_items = 1024, max_configuration_bytes = 256 * 1024,
      max_value_depth = 32, max_parallelism = 256, max_name_bytes = 256, max_retry_limit = 32,
      max_loop_iterations = 10000, max_steps = 10000000, max_tokens = 10000000000,
      max_cost_micros = 1000000000000, max_duration_ms = 365 * 24 * 60 * 60 * 1000,
      allow_legacy_unconfigured_artifact_persistence = False,
      limit_expression = ExpressionLimits_default\<rparr>"

record GraphCacheInputs =
  inputs_plugin_set_hash :: ContentHash
  runtime_api_version :: string
  capability_set :: "string fset"

record GraphBudget =
  max_steps :: nat
  max_tokens :: nat
  max_cost_micros :: nat
  max_duration_ms :: nat

record GraphDeclarations =
  declared_capabilities :: "string fset"
  declared_tools :: "string fset"
  declared_providers :: "string fset"
  declared_events :: "string fset"
  declared_plugins :: "string fset"

section \<open>Variables\<close>

datatype VariableValueType =
    VBoolean
  | VInteger
  | VDecimal
  | VString
  | VEnum "string fset"
  | VList VariableValueType nat
  | VMap VariableValueType nat
  | VSessionId
  | VChildId
  | VTaskId
  | VArtifactReference
  | VSecretReference
  | VToolResultReference
  | VApprovalResult
  | VNodeResultReference
  | VTimestamp
  | VDuration

datatype VariableScope = ScopeNode | ScopeBranch | ScopeRun | ScopeSession

datatype VariableMutability = Immutable | Mutable

datatype VariableMergePolicy = Append | Union | DeepMerge | FirstBranch

datatype SecurityClassification = Public | Internal | Confidential | SecretReference

record VariableDeclaration =
  variable_name :: string
  value_type :: VariableValueType
  variable_scope :: VariableScope
  producer :: string
  merge_contributors :: "string fset"
  consumers :: "string fset"
  mutability :: VariableMutability
  merge_policy :: "VariableMergePolicy option"
  max_size_bytes :: nat
  security_classification :: SecurityClassification

section \<open>Node configurations\<close>

datatype ContextTransformStrategy = PreserveHistory | Fresh

datatype CompleteTurnCleanup = PreserveProjection | DiscardProjection

datatype 'n NodeValueSource = Static "'n json" | Variable string

datatype NodeTextSource = StaticText string | TextVariable string

datatype ChildWorkspaceMergePolicy = ManualReview | ReviewedFastForward | ReviewedThreeWay

datatype ChildWorkspaceConfiguration =
    SharedReadOnly
  | SharedSerializedWrites string
  | IndependentGitWorktree
  | TemporaryCopy
  | IsolatedCopy
  | BranchWorkspace ChildWorkspaceMergePolicy
  | ExplicitCustomWorkspace NodeTextSource

datatype ChildSetSource = ExactChildren "string fset" | ChildrenVariable string

datatype ChildWaitCancellation = Cascade | Detach | Wait

record ReviewResultSchema =
  maximum_findings :: nat
  maximum_finding_bytes :: nat
  maximum_rejections :: nat
  require_artifact_evidence :: bool

record ReviewRoutes =
  route_approved :: string
  route_revision :: string
  route_failure :: string

datatype 'n ArtifactContentSource =
    StaticJson "'n json"
  | StaticContent string
  | ContentVariable string
  | ProviderResultText string
  | NodeResultProjection string

datatype ArtifactSecurityClassification = Standard | Private

datatype ArtifactRetentionPolicy = Permanent | RetainSession

datatype ChildSelector = ExactChild string | ChildVariable string

datatype ChildMessageCancellation = RejectMessage | DeliverIfRunning

datatype JoinFailurePolicy = FailFast | WaitRequired | MinimumSuccess

datatype JoinOrderingPolicy = MemberId | CompletionSequence

datatype JoinResultProjection = Inline | NodeReferences | ArtifactReferences

datatype JoinArtifactCollection = CollectNone | CollectDeclared | CollectAll

datatype ParallelJoinPolicy = RequireAll | RequireMinimum

datatype ParallelSerializationPolicy = StableBranchOrder

datatype DelayResolution = Duration nat | WakeTimestamp string

datatype DelayCancellation = CancelContinuation | SuppressEffects

datatype ScheduleTrigger =
    At string
  | Interval nat "string option"
  | RuntimeEvent string
  | ProcessOutput string string

datatype ScheduleCancellation = CancelTrigger | CancelWaitOnly

datatype NodeKind =
    ContextTransform
  | ModelCall
  | ToolExecutionGate
  | UserApproval
  | SpawnChildAgent
  | SendChildAgentMessage
  | WaitForAgents
  | JoinResults
  | Review
  | Loop
  | ConditionalBranch
  | ParallelBranch
  | Delay
  | Schedule
  | EmitEvent
  | PersistArtifact
  | CompleteTurn
  | CompleteSession
  | Fail

fun is_terminal :: "NodeKind \<Rightarrow> bool" where
  "is_terminal NodeKind.CompleteTurn = True"
| "is_terminal CompleteSession = True"
| "is_terminal Fail = True"
| "is_terminal _ = False"

fun implied_capability :: "NodeKind \<Rightarrow> string option" where
  "implied_capability NodeKind.ContextTransform = Some ''context''"
| "implied_capability ModelCall = Some ''model''"
| "implied_capability NodeKind.Review = Some ''model''"
| "implied_capability ToolExecutionGate = Some ''tools''"
| "implied_capability NodeKind.UserApproval = Some ''approval''"
| "implied_capability NodeKind.SpawnChildAgent = Some ''agents''"
| "implied_capability NodeKind.SendChildAgentMessage = Some ''agents''"
| "implied_capability NodeKind.WaitForAgents = Some ''agents''"
| "implied_capability NodeKind.JoinResults = Some ''agents''"
| "implied_capability NodeKind.Delay = Some ''scheduling''"
| "implied_capability NodeKind.Schedule = Some ''scheduling''"
| "implied_capability NodeKind.EmitEvent = Some ''events''"
| "implied_capability NodeKind.PersistArtifact = Some ''artifacts''"
| "implied_capability Loop = None"
| "implied_capability ConditionalBranch = None"
| "implied_capability NodeKind.ParallelBranch = None"
| "implied_capability NodeKind.CompleteTurn = None"
| "implied_capability CompleteSession = None"
| "implied_capability Fail = None"

text \<open>Three configurations have many fields; they are records.\<close>

record 'n SpawnConfiguration =
  task_input :: "'n NodeValueSource"
  task_id_prefix :: string
  child_style :: string
  tool_groups :: "string fset"
  spawn_maximum_children :: nat
  maximum_depth :: nat
  token_budget :: nat
  context_budget_tokens :: nat
  cost_budget_micros :: nat
  workspace :: ChildWorkspaceConfiguration
  spawn_artifact_references :: "string fset"
  spawn_artifact_reference_variables :: "string fset"
  spawn_security_classification :: SecurityClassification
  approval_required :: bool

record JoinConfiguration =
  join_required :: "string fset"
  join_optional :: "string fset"
  join_minimum_successes :: nat
  join_failure_policy :: JoinFailurePolicy
  join_ordering_policy :: JoinOrderingPolicy
  join_timeout_ms :: nat
  cancellation_propagates :: bool
  result_projection :: JoinResultProjection
  artifact_collection :: JoinArtifactCollection

record ParallelConfiguration =
  parallel_max_parallelism :: nat
  max_queue_depth :: nat
  join_target :: string
  join_policy :: ParallelJoinPolicy
  variable_merge_policies :: "(string, VariableMergePolicy) fmap"
  serialization_policy :: "ParallelSerializationPolicy option"

record 'n PluginConfiguration =
  plugin_id :: string
  executor_id :: string
  executor_version :: string
  plugin_node_kind :: NodeKind
  input_schema :: string
  output_schema :: string
  configuration_reference :: string
  plugin_input :: "'n json"

datatype 'n NodeConfiguration =
    ContextTransform ContextTransformStrategy
  | ModelRequest string string "(string, string) fmap" "(string, string) fmap"
      "(string, 'n NodeValueSource) fmap"
  | ToolExecution "'n NodeValueSource"
  | ProviderToolBatchExecution string string nat "string fset"
  | UserApproval NodeTextSource
  | SpawnChildAgent "'n SpawnConfiguration"
  | WaitForAgents ChildSetSource nat nat nat ChildWaitCancellation
  | Review "'n NodeValueSource" "string fset" "string fset" ReviewResultSchema ReviewRoutes nat
  | PersistArtifact "'n ArtifactContentSource" string ArtifactSecurityClassification
      ArtifactRetentionPolicy
  | SendChildAgentMessage ChildSelector "'n json" "string fset" SecurityClassification nat
      ChildMessageCancellation
  | JoinResults JoinConfiguration
  | ParallelBranch ParallelConfiguration
  | Delay DelayResolution "string option" DelayCancellation
  | Schedule ScheduleTrigger bool ScheduleCancellation
  | EmitEvent string "'n json" "string fset" "(string, string) fmap"
  | CompleteTurn string CompleteTurnCleanup
  | Plugin "'n PluginConfiguration"

section \<open>Graphs\<close>

record 'n NodeDefinition =
  node_id :: string
  node_kind :: NodeKind
  configuration :: "'n NodeConfiguration option"
  node_condition :: "string option"
  tool :: "string option"
  provider :: "string option"
  required_capabilities :: "string fset"
  read_scopes :: "string fset"
  write_scopes :: "string fset"
  read_variables :: "string fset"
  write_variables :: "string fset"
  retry_limit :: nat
  max_iterations :: "nat option"

record EdgeDefinition =
  edge_from :: string
  edge_to :: string
  edge_condition :: "string option"
  edge_label :: "string option"

record 'n GraphDefinition =
  graph_format_version :: nat
  graph_entry :: string
  graph_budget :: GraphBudget
  graph_declarations :: GraphDeclarations
  graph_variables :: "VariableDeclaration list"
  graph_nodes :: "'n NodeDefinition list"
  graph_edges :: "EdgeDefinition list"

record 'n ExecutableNode =
  exec_index :: nat
  exec_id :: string
  exec_kind :: NodeKind
  exec_configuration :: "'n NodeConfiguration option"
  exec_condition :: "'n Expression option"
  exec_tool :: "string option"
  exec_provider :: "string option"
  exec_required_capabilities :: "string fset"
  exec_read_scopes :: "string fset"
  exec_write_scopes :: "string fset"
  exec_read_variables :: "string fset"
  exec_write_variables :: "string fset"
  exec_retry_limit :: nat
  exec_max_iterations :: "nat option"

record 'n ExecutableEdge =
  exec_from :: nat
  exec_to :: nat
  exec_edge_condition :: "'n Expression option"
  exec_label :: "string option"

record GraphCacheKey =
  graph_content_hash :: ContentHash
  plugin_set_hash :: ContentHash
  capability_set_hash :: ContentHash
  runtime_api_hash :: ContentHash
  combined_hash :: ContentHash

record 'n ExecutableGraph =
  exec_format_version :: nat
  exec_entry_index :: nat
  exec_budget :: GraphBudget
  exec_declarations :: GraphDeclarations
  exec_variables :: "VariableDeclaration list"
  exec_nodes :: "'n ExecutableNode list"
  exec_edges :: "'n ExecutableEdge list"
  cache_key :: GraphCacheKey

section \<open>Errors\<close>

text \<open>
  The enum \<^verbatim>\<open>GraphError\<close> in six groups: the shape of the graph, node contracts, parallel
  regions, variable declarations, uses of variables, node configurations.
\<close>

datatype StructureError =
    SourceTooLarge nat nat
  | InvalidToml string
  | UnsupportedVersion nat nat
  | TooManyNodes nat nat
  | TooManyEdges nat nat
  | InvalidBudget string nat nat
  | InvalidName string string nat
  | DuplicateNode string
  | UnknownEntry string
  | UnknownEdgeNode string string
  | DuplicateEdge string
  | UnreachableNodes "string list"
  | MissingTermination
  | TerminalHasOutgoingEdge string
  | NoTerminationPath "string list"
  | IllegalCycle "string list"

datatype ContractError =
    RetryLimitExceeded string nat nat
  | InvalidLoopBound string "nat option" nat
  | LoopBoundOnNonLoop string
  | UndeclaredCapability string string
  | RuntimeCapabilityUnavailable string
  | MissingTool string
  | UndeclaredTool string string
  | MissingProvider string
  | UndeclaredProvider string string
  | InvalidCondition string ParseError

datatype ParallelError =
    ParallelNeedsBranches string
  | ParallelMissingJoin string
  | ConditionalParallelFanout string string
  | UnlabeledParallelFanout string string
  | DuplicateParallelMemberReference string string
  | DuplicateParallelBranchTarget string string
  | ParallelJoinMemberMismatch string string "string list" "string list"
  | ParallelJoinPolicyMismatch string string
  | OverlappingParallelBranchRegions string "string list" string
  | ExternalParallelBranchEntry string string string string
  | ExternalParallelJoinEntry string string string
  | ParallelBranchTerminalCompletion string string string
  | ParallelBranchBypassesJoin string string string
  | ConflictingParallelWrites string string "string list"
  | InvalidParallelJoinTarget string string
  | ConflictingParallelVariableWrites string string "string list"
  | UnknownParallelMergeVariable string string
  | InvalidParallelMergeContributorOwnership string string
  | ParallelMergeContributorPolicyMismatch string string VariableMergePolicy
      "VariableMergePolicy option"

datatype VariableError =
    TooManyVariables nat nat
  | TooManyVariableMergeContributors string nat nat
  | DuplicateVariable string
  | InvalidVariableSize string nat nat
  | InvalidVariableType string string
  | VariableTypeTooDeep string nat
  | UnknownVariableProducer string string
  | UnknownVariableMergeContributor string string
  | UnknownVariableConsumer string string
  | InvalidVariableMergePolicy string string
  | InvalidVariableScope string string
  | InvalidVariableSecurityClassification string
  | UndeclaredVariableRead string string
  | UndeclaredVariableWrite string string
  | UnauthorizedVariableConsumer string string
  | VariableProducerDoesNotWrite string string
  | VariableMergeContributorDoesNotWrite string string
  | InvalidVariableMergeContributors string string
  | UnauthorizedVariableWriter string string string

datatype EffectError =
    InvalidEffectOutputType string string string
  | EffectOutputSlotUnavailable string string string
  | DuplicateEffectOutputSlot string string "string list"
  | AmbiguousChildEffectOutput string "string list"
  | ConfigurationVariableNotDeclaredRead string string
  | ConfigurationVariableTypeMismatch string string string
  | UndeclaredConditionVariable string string
  | ConditionVariableNotDeclaredRead string string

datatype ConfigurationError =
    ConfigurationKindMismatch string NodeKind NodeKind
  | InvalidNodeConfiguration string string
  | NodeConfigurationTooLarge string nat nat
  | ConfigurationCollectionTooLarge string string nat nat
  | NodeConfigurationTooDeep string string nat
  | InvalidTimestamp string string
  | UndeclaredEventType string string
  | InvalidPluginNodeKind string NodeKind NodeKind
  | UndeclaredPlugin string string
  | Inspection string

datatype GraphError =
    Structure StructureError
  | Contract ContractError
  | Parallel ParallelError
  | Variables VariableError
  | Effects EffectError
  | Configuration ConfigurationError

datatype failure = Rejected GraphError | Panicked

type_synonym 'a checked = "('a, failure) result"

abbreviation reject_if :: "bool \<Rightarrow> GraphError \<Rightarrow> unit checked" where
  "reject_if b e \<equiv> fail_if b (Rejected e)"

definition expect_some :: "'a option \<Rightarrow> 'a checked" where
  "expect_some x = ok_or Panicked x"

section \<open>External code\<close>

text \<open>
  What the compiler takes from other crates: TOML parsing, the serialized bytes of a node
  configuration and of a JSON value (\<^verbatim>\<open>serde_json::to_vec\<close>), BLAKE3, and the JSON text
  functions of the expression engine.
\<close>

record 'n graph_ops =
  json :: "'n json_ops"
  toml_from_str :: "string \<Rightarrow> ('n GraphDefinition, string) result"
  configuration_to_vec :: "'n NodeConfiguration \<Rightarrow> (bytes, string) result"
  value_to_vec :: "'n json \<Rightarrow> (bytes, string) result"
  blake3 :: "bytes \<Rightarrow> bytes"

end
