(* ===== verification/Graph_Text.thy ===== *)
theory Graph_Text
  imports Graph_Types
begin

text \<open>
  \<^verbatim>\<open>core/graph-engine/src/lib.rs\<close>, second part: the checks of single names, texts and JSON
  values, and the canonical form of JSON values.
\<close>

section \<open>Names and texts\<close>

definition name_char :: "char \<Rightarrow> bool" where
  "name_char c \<longleftrightarrow> is_ascii_alphanumeric c \<or> c \<in> set ''_.:/-''"

definition validate_name :: "string \<Rightarrow> string \<Rightarrow> nat \<Rightarrow> unit checked" where
  "validate_name what name maximum =
     reject_if (name = [] \<or> maximum < length name \<or> \<not> list_all name_char name)
       (Structure (InvalidName what name maximum))"

definition trim_is_empty :: "string \<Rightarrow> bool" where
  "trim_is_empty s \<longleftrightarrow> list_all is_whitespace (str_chars s)"

definition is_mime_token_byte :: "char \<Rightarrow> bool" where
  "is_mime_token_byte c \<longleftrightarrow> is_ascii_digit c \<or> is_ascii_alphabetic c \<or> c \<in> set ''!#$&^_.+-''"

definition valid_mime_type :: "string \<Rightarrow> nat \<Rightarrow> bool" where
  "valid_mime_type s maximum =
     (case split_once (CHR ''/'') s of
        None \<Rightarrow> False
      | Some (type_name, subtype) \<Rightarrow>
          length s \<le> maximum \<and> type_name \<noteq> [] \<and> subtype \<noteq> [] \<and> CHR ''/'' \<notin> set subtype \<and>
          list_all is_mime_token_byte type_name \<and> list_all is_mime_token_byte subtype)"

fun valid_json_pointer_escapes :: "string \<Rightarrow> bool" where
  "valid_json_pointer_escapes [] = True"
| "valid_json_pointer_escapes (c # cs) =
     (if c = CHR ''~''
      then (case cs of
              d # ds \<Rightarrow> (d = CHR ''0'' \<or> d = CHR ''1'') \<and> valid_json_pointer_escapes ds
            | [] \<Rightarrow> False)
      else valid_json_pointer_escapes cs)"

definition validate_json_pointer ::
  "'n NodeDefinition \<Rightarrow> string \<Rightarrow> string \<Rightarrow> nat \<Rightarrow> unit checked" where
  "validate_json_pointer nd variable pointer maximum =
     (let valid = pointer = [] \<or>
        (hd pointer = CHR ''/'' \<and> length pointer \<le> maximum \<and> \<not> has_control pointer \<and>
         valid_json_pointer_escapes pointer)
      in if valid then Ok ()
         else Err (Rejected (Configuration (InvalidNodeConfiguration (node_id nd)
           (''model JSON output `'' @ variable @ ''` must use a bounded RFC 6901 JSON Pointer'')))))"

definition validate_bounded_configuration_string ::
  "'n NodeDefinition \<Rightarrow> string \<Rightarrow> string \<Rightarrow> nat \<Rightarrow> unit checked" where
  "validate_bounded_configuration_string nd field s maximum =
     (if length s \<le> maximum \<and> \<not> has_control s then Ok ()
      else Err (Rejected (Configuration (InvalidNodeConfiguration (node_id nd)
        (field @ '' must be bounded and contain no control characters'')))))"

definition validate_collection_len ::
  "string \<Rightarrow> string \<Rightarrow> nat \<Rightarrow> CompilerLimits \<Rightarrow> unit checked" where
  "validate_collection_len nd field actual limits =
     reject_if (max_configuration_items limits < actual)
       (Configuration (ConfigurationCollectionTooLarge nd field actual (max_configuration_items limits)))"

definition require_configuration_kind :: "'n NodeDefinition \<Rightarrow> NodeKind \<Rightarrow> unit checked" where
  "require_configuration_kind nd expected =
     (if node_kind nd = expected then Ok ()
      else Err (Rejected (Configuration (ConfigurationKindMismatch (node_id nd) expected (node_kind nd)))))"

section \<open>RFC 3339 timestamps\<close>

definition digits_value :: "string \<Rightarrow> nat" where
  "digits_value = foldl (\<lambda>n c. n * 10 + (char_code c - 48)) 0"

text \<open>\<^verbatim>\<open>bytes.get(start..end)?\<close>; the components have at most four digits, so \<^verbatim>\<open>u32\<close> parsing cannot fail.\<close>

definition decimal_component :: "string \<Rightarrow> nat \<Rightarrow> nat \<Rightarrow> nat option" where
  "decimal_component bytes start stop =
     (if stop \<le> length bytes
      then (let component = take (stop - start) (drop start bytes) in
            if list_all is_ascii_digit component then Some (digits_value component) else None)
      else None)"

definition days_in_month :: "nat \<Rightarrow> nat \<Rightarrow> nat" where
  "days_in_month year month =
     (if month \<in> {1, 3, 5, 7, 8, 10, 12} then 31
      else if month \<in> {4, 6, 9, 11} then 30
      else if month = 2 then (if year mod 4 = 0 \<and> (year mod 100 \<noteq> 0 \<or> year mod 400 = 0) then 29 else 28)
      else 0)"

definition byte_at :: "string \<Rightarrow> nat \<Rightarrow> char option" where
  "byte_at bytes i = (if i < length bytes then Some (bytes ! i) else None)"

definition timestamp_date_valid :: "string \<Rightarrow> bool" where
  "timestamp_date_valid bytes =
     (case (decimal_component bytes 0 4, decimal_component bytes 5 7, decimal_component bytes 8 10) of
        (Some year, Some month, Some day) \<Rightarrow>
          (case (decimal_component bytes 11 13, decimal_component bytes 14 16, decimal_component bytes 17 19) of
             (Some hour, Some minute, Some second) \<Rightarrow>
               \<not> (month = 0 \<or> 12 < month \<or> day = 0 \<or> days_in_month year month < day \<or>
                  23 < hour \<or> 59 < minute \<or> 60 < second)
           | _ \<Rightarrow> False)
      | _ \<Rightarrow> False)"

text \<open>The index after the optional fraction that starts at byte 19; \<open>None\<close> for an empty fraction.\<close>

definition timestamp_fraction_end :: "string \<Rightarrow> nat option" where
  "timestamp_fraction_end bytes =
     (if byte_at bytes 19 = Some (CHR ''.'')
      then (let n = length (takeWhile is_ascii_digit (drop 20 bytes)) in
            if n = 0 then None else Some (20 + n))
      else Some 19)"

definition timestamp_offset_valid :: "string \<Rightarrow> nat \<Rightarrow> bool" where
  "timestamp_offset_valid bytes index =
     (case byte_at bytes index of
        None \<Rightarrow> False
      | Some c \<Rightarrow>
          if c = CHR ''Z'' then index + 1 = length bytes
          else if c = CHR ''+'' \<or> c = CHR ''-''
          then (case decimal_component bytes (index + 1) (index + 3) of
                  Some offset_hour \<Rightarrow> offset_hour \<le> 23 | None \<Rightarrow> False) \<and>
               byte_at bytes (index + 3) = Some (CHR '':'') \<and>
               (case decimal_component bytes (index + 4) (index + 6) of
                  Some offset_minute \<Rightarrow> offset_minute \<le> 59 | None \<Rightarrow> False) \<and>
               index + 6 = length bytes
          else False)"

definition is_rfc3339_timestamp :: "string \<Rightarrow> bool" where
  "is_rfc3339_timestamp bytes =
     (if length bytes < 20 \<or> byte_at bytes 4 \<noteq> Some (CHR ''-'') \<or> byte_at bytes 7 \<noteq> Some (CHR ''-'') \<or>
         byte_at bytes 10 \<noteq> Some (CHR ''T'') \<or> byte_at bytes 13 \<noteq> Some (CHR '':'') \<or>
         byte_at bytes 16 \<noteq> Some (CHR '':'')
      then False
      else timestamp_date_valid bytes \<and>
           (case timestamp_fraction_end bytes of
              None \<Rightarrow> False | Some index \<Rightarrow> timestamp_offset_valid bytes index))"

definition validate_timestamp :: "string \<Rightarrow> string \<Rightarrow> CompilerLimits \<Rightarrow> unit checked" where
  "validate_timestamp what timestamp limits =
     reject_if (max_name_bytes limits < length timestamp \<or> \<not> is_rfc3339_timestamp timestamp)
       (Configuration (InvalidTimestamp what timestamp))"

section \<open>JSON values\<close>

fun json_depth :: "'n json \<Rightarrow> nat" where
  "json_depth (JArray xs) = 1 + foldr max (map json_depth xs) 0"
| "json_depth (JObject ms) = 1 + foldr max (map (\<lambda>(k, v). json_depth v) ms) 0"
| "json_depth _ = 1"

text \<open>
  An object is rebuilt from a \<^verbatim>\<open>BTreeMap\<close> of its canonical members: ordered by key, the last
  of equal keys winning.
\<close>

fun insert_member :: "string \<times> 'v \<Rightarrow> (string \<times> 'v) list \<Rightarrow> (string \<times> 'v) list" where
  "insert_member (k, v) [] = [(k, v)]"
| "insert_member (k, v) ((k', v') # ms) =
     (if k < k' then (k, v) # (k', v') # ms
      else if k = k' then (k, v) # ms
      else (k', v') # insert_member (k, v) ms)"

definition sort_members :: "(string \<times> 'v) list \<Rightarrow> (string \<times> 'v) list" where
  "sort_members ms = fold insert_member ms []"

fun canonicalize_json :: "'n json \<Rightarrow> 'n json" where
  "canonicalize_json (JArray xs) = JArray (map canonicalize_json xs)"
| "canonicalize_json (JObject ms) = JObject (sort_members (map (\<lambda>(k, v). (k, canonicalize_json v)) ms))"
| "canonicalize_json v = v"

definition canonical_json_bytes :: "'n graph_ops \<Rightarrow> 'n json \<Rightarrow> bytes checked" where
  "canonical_json_bytes ops v =
     map_err (\<lambda>detail. Rejected (Configuration (Inspection detail))) (value_to_vec ops (canonicalize_json v))"

definition validate_json_value ::
  "'n graph_ops \<Rightarrow> string \<Rightarrow> string \<Rightarrow> 'n json \<Rightarrow> CompilerLimits \<Rightarrow> unit checked" where
  "validate_json_value ops nd field v limits =
     rbind (canonical_json_bytes ops v) (\<lambda>serialized.
     rbind (reject_if (max_configuration_bytes limits < length serialized)
       (Configuration (NodeConfigurationTooLarge nd (length serialized) (max_configuration_bytes limits)))) (\<lambda>_.
     reject_if (max_value_depth limits < json_depth v)
       (Configuration (NodeConfigurationTooDeep nd field (max_value_depth limits)))))"

fun as_str :: "'n json \<Rightarrow> string option" where
  "as_str (JString s) = Some s"
| "as_str _ = None"

definition is_task_text :: "'n json \<Rightarrow> bool" where
  "is_task_text v = (case as_str v of Some s \<Rightarrow> \<not> trim_is_empty s | None \<Rightarrow> False)"

fun valid_static_child_tasks :: "'n json \<Rightarrow> nat \<Rightarrow> bool" where
  "valid_static_child_tasks (JString s) maximum_children = (\<not> trim_is_empty s \<and> 1 \<le> maximum_children)"
| "valid_static_child_tasks (JArray vs) maximum_children =
     (vs \<noteq> [] \<and> length vs \<le> maximum_children \<and> list_all is_task_text vs)"
| "valid_static_child_tasks (JObject ms) maximum_children =
     (ms \<noteq> [] \<and> length ms \<le> maximum_children \<and>
      list_all (\<lambda>(task_id, v). \<not> trim_is_empty task_id \<and> is_task_text v) ms)"
| "valid_static_child_tasks _ maximum_children = False"

definition forbidden_secret_keys :: "string list" where
  "forbidden_secret_keys = [''secret'', ''password'', ''token'', ''api_key'', ''private_key'']"

fun contains_forbidden_inline_secret :: "'n json \<Rightarrow> bool" where
  "contains_forbidden_inline_secret (JObject ms) =
     list_ex (\<lambda>(key, v). to_ascii_lowercase key \<in> set forbidden_secret_keys \<or>
       contains_forbidden_inline_secret v) ms"
| "contains_forbidden_inline_secret (JArray vs) = list_ex contains_forbidden_inline_secret vs"
| "contains_forbidden_inline_secret _ = False"

section \<open>The canonical form of JSON values\<close>

text \<open>
  The members of a \<^verbatim>\<open>serde_json\<close> object have distinct keys (\<open>json_wf\<close>). \<open>same_json\<close> is equality
  of values up to the order of members.
\<close>

fun json_wf :: "'n json \<Rightarrow> bool" where
  "json_wf (JArray xs) = list_all json_wf xs"
| "json_wf (JObject ms) = (distinct (map fst ms) \<and> list_all (\<lambda>(k, v). json_wf v) ms)"
| "json_wf _ = True"

inductive same_json :: "'n json \<Rightarrow> 'n json \<Rightarrow> bool" where
  same_null: "same_json JNull JNull"
| same_bool: "same_json (JBool b) (JBool b)"
| same_number: "same_json (JNumber n) (JNumber n)"
| same_string: "same_json (JString s) (JString s)"
| same_array: "list_all2 same_json xs ys \<Longrightarrow> same_json (JArray xs) (JArray ys)"
| same_object: "fst ` set ms = fst ` set ns \<Longrightarrow>
    (\<And>k v w. (k, v) \<in> set ms \<Longrightarrow> (k, w) \<in> set ns \<Longrightarrow> same_json v w) \<Longrightarrow>
    same_json (JObject ms) (JObject ns)"
  monos list_all2_mono


lemma insert_member_set:
  "sorted (map fst ms) \<Longrightarrow> distinct (map fst ms) \<Longrightarrow>
   set (insert_member (k, v) ms) = insert (k, v) {m \<in> set ms. fst m \<noteq> k} \<and>
   sorted (map fst (insert_member (k, v) ms)) \<and> distinct (map fst (insert_member (k, v) ms))"
proof (induction "(k, v)" ms rule: insert_member.induct)
  case (2 k' v' ms)
  have "m \<in> set ms \<Longrightarrow> k' \<noteq> fst m \<and> k' \<le> fst m" for m using "2.prems" by auto
  moreover from this have "k < k' \<Longrightarrow> m \<in> set ms \<Longrightarrow> k < fst m" for m by (meson order_less_le_trans)
  moreover from this have "k < k' \<Longrightarrow> (k, b) \<notin> set ms" for b by fastforce
  ultimately show ?case using 2 by (auto simp: image_iff less_imp_le)
qed auto

lemma sorted_members_unique:
  assumes "sorted (map fst ms)" "distinct (map fst ms)" "sorted (map fst ns)" "distinct (map fst ns)"
    and "set ms = set ns"
  shows "ms = ns"
  using map_sorted_distinct_set_unique [of fst ms ns] assms by (simp add: distinct_map)

lemma sort_members_snoc: "sort_members (ms @ [m]) = insert_member m (sort_members ms)"
  by (simp add: sort_members_def)

lemma sort_members_props:
  "sorted (map fst (sort_members ms)) \<and> distinct (map fst (sort_members ms)) \<and>
   fst ` set (sort_members ms) = fst ` set ms \<and> set (sort_members ms) \<subseteq> set ms \<and>
   (distinct (map fst ms) \<longrightarrow> set (sort_members ms) = set ms)"
proof (induction ms rule: rev_induct)
  case Nil
  then show ?case by (simp add: sort_members_def)
next
  case (snoc m ms)
  obtain k v where m: "m = (k, v)" by (meson surj_pair)
  have ins: "set (insert_member (k, v) (sort_members ms)) =
      insert (k, v) {m \<in> set (sort_members ms). fst m \<noteq> k}"
    "sorted (map fst (insert_member (k, v) (sort_members ms)))"
    "distinct (map fst (insert_member (k, v) (sort_members ms)))"
    using insert_member_set [of "sort_members ms" k v] snoc by auto
  have keys: "fst ` insert (k, v) {m \<in> S. fst m \<noteq> k} = insert k (fst ` S)" for S :: "(string \<times> 'a) set"
    by (auto simp: image_iff)
  have keep: "{m \<in> set ms. fst m \<noteq> k} = set ms" if "distinct (map fst (ms @ [m]))"
    using that m by force
  have "fst ` set (sort_members (ms @ [m])) = fst ` set (ms @ [m])"
    using snoc unfolding sort_members_snoc m ins(1) keys by simp
  then show ?case using snoc ins keep unfolding sort_members_snoc m by auto
qed

lemma sort_members_eq_iff:
  assumes "distinct (map fst ms)" "distinct (map fst ns)"
  shows "sort_members ms = sort_members ns \<longleftrightarrow> set ms = set ns"
proof
  assume eq: "set ms = set ns"
  have "sorted (map fst (sort_members ms))" "sorted (map fst (sort_members ns))"
    "distinct (map fst (sort_members ms))" "distinct (map fst (sort_members ns))"
    "set (sort_members ms) = set ms" "set (sort_members ns) = set ms"
    using sort_members_props [of ms] sort_members_props [of ns] assms eq by simp_all
  then show "sort_members ms = sort_members ns" by (intro sorted_members_unique) simp_all
next
  assume "sort_members ms = sort_members ns"
  then show "set ms = set ns"
    using sort_members_props [of ms] sort_members_props [of ns] assms by metis
qed

lemma canonical_object_eq_iff:
  assumes ms: "distinct (map fst ms)" and ns: "distinct (map fst ns)"
  shows "sort_members (map (\<lambda>(k, v). (k, c v)) ms) = sort_members (map (\<lambda>(k, v). (k, c v)) ns) \<longleftrightarrow>
    fst ` set ms = fst ` set ns \<and> (\<forall>k v w. (k, v) \<in> set ms \<longrightarrow> (k, w) \<in> set ns \<longrightarrow> c v = c w)"
    (is "?L \<longleftrightarrow> ?R")
proof -
  let ?f = "\<lambda>(k, v). (k, c v)"
  have fst_f: "fst \<circ> ?f = fst" by auto
  have L: "?L \<longleftrightarrow> ?f ` set ms = ?f ` set ns"
    using sort_members_eq_iff [of "map ?f ms" "map ?f ns"] ms ns by (simp add: fst_f)
  have uniq: "v = w" if "(k, v) \<in> set ns" "(k, w) \<in> set ns" for k v w
    using that ns by (metis eq_key_imp_eq_value)
  have uniq': "v = w" if "(k, v) \<in> set ms" "(k, w) \<in> set ms" for k v w
    using that ms by (metis eq_key_imp_eq_value)
  show ?thesis unfolding L
  proof
    assume eq: "?f ` set ms = ?f ` set ns"
    then have "fst ` ?f ` set ms = fst ` ?f ` set ns" by simp
    then have "fst ` set ms = fst ` set ns" by (simp add: image_comp fst_f)
    moreover have "c v = c w" if v: "(k, v) \<in> set ms" and w: "(k, w) \<in> set ns" for k v w
    proof -
      have "(k, c v) \<in> ?f ` set ns" unfolding eq [symmetric] using v by (auto intro: rev_image_eqI)
      then obtain v' where "(k, v') \<in> set ns" "c v = c v'" by auto
      then show ?thesis using uniq [OF w] by metis
    qed
    ultimately show ?R by blast
  next
    assume R: ?R
    have "(k, c v) \<in> ?f ` set ns" if v: "(k, v) \<in> set ms" for k v
    proof -
      have "k \<in> fst ` set ms" using v by (auto intro: rev_image_eqI)
      then have "k \<in> fst ` set ns" using R by simp
      then obtain w where w: "(k, w) \<in> set ns" by auto
      then have "c v = c w" using R v by blast
      then show ?thesis using w by (auto intro: rev_image_eqI)
    qed
    moreover have "(k, c w) \<in> ?f ` set ms" if w: "(k, w) \<in> set ns" for k w
    proof -
      have "k \<in> fst ` set ns" using w by (auto intro: rev_image_eqI)
      then have "k \<in> fst ` set ms" using R by simp
      then obtain v where v: "(k, v) \<in> set ms" by auto
      then have "c w = c v" using R w by metis
      then show ?thesis using v by (auto intro: rev_image_eqI)
    qed
    ultimately show "?f ` set ms = ?f ` set ns" by auto
  qed
qed

inductive_simps same_json_array: "same_json (JArray xs) (JArray ys)"
inductive_simps same_json_object: "same_json (JObject ms) (JObject ns)"
inductive_cases same_json_cases: "same_json u v"

lemma canonicalize_eq_iff:
  "json_wf u \<Longrightarrow> json_wf v \<Longrightarrow> canonicalize_json u = canonicalize_json v \<longleftrightarrow> same_json u v"
proof (induction u arbitrary: v)
  case (JArray xs)
  show ?case
  proof (cases v)
    case v: (JArray ys)
    have "map canonicalize_json xs = map canonicalize_json ys \<longleftrightarrow>
        list_all2 (\<lambda>x y. canonicalize_json x = canonicalize_json y) xs ys"
      by (auto simp: list_eq_iff_nth_eq list_all2_conv_all_nth)
    also have "\<dots> \<longleftrightarrow> list_all2 same_json xs ys"
      unfolding list_all2_conv_all_nth using JArray v by (fastforce simp: list_all_iff)
    finally show ?thesis using v by (simp add: same_json_array)
  qed (auto elim: same_json_cases)
next
  case (JObject ms)
  show ?case
  proof (cases v)
    case v: (JObject ns)
    have "canonicalize_json x = canonicalize_json y \<longleftrightarrow> same_json x y"
      if "(k, x) \<in> set ms" "(k, y) \<in> set ns" for k x y
      using JObject.IH [of "(k, x)" x y] that JObject.prems v by (fastforce simp: list_all_iff)
    then show ?thesis
      using JObject.prems v by (auto simp: canonical_object_eq_iff same_json_object)
  qed (auto elim: same_json_cases)
qed (case_tac v; auto intro: same_json.intros elim: same_json_cases)+

lemma canonicalize_wf: "json_wf (canonicalize_json v)"
proof (induction v)
  case (JObject ms)
  let ?ms = "map (\<lambda>(k, v). (k, canonicalize_json v)) ms"
  have "distinct (map fst (sort_members ?ms))" "set (sort_members ?ms) \<subseteq> set ?ms"
    using sort_members_props [of ?ms] by auto
  then show ?case using JObject by (fastforce simp: list_all_iff)
qed (auto simp: list_all_iff)

lemma same_json_refl: "json_wf v \<Longrightarrow> same_json v v"
  using canonicalize_eq_iff by blast

lemma sort_members_sorted:
  "sorted (map fst ms) \<Longrightarrow> distinct (map fst ms) \<Longrightarrow> sort_members ms = ms"
  using sort_members_props [of ms] by (intro sorted_members_unique) simp_all

lemma canonicalize_idem: "canonicalize_json (canonicalize_json v) = canonicalize_json v"
proof (induction v)
  case (JObject ms)
  let ?ms = "sort_members (map (\<lambda>(k, v). (k, canonicalize_json v)) ms)"
  have props: "sorted (map fst ?ms)" "distinct (map fst ?ms)"
    "set ?ms \<subseteq> set (map (\<lambda>(k, v). (k, canonicalize_json v)) ms)"
    using sort_members_props by blast+
  have "map (\<lambda>(k, v). (k, canonicalize_json v)) ?ms = ?ms"
    by (rule map_idI) (use props(3) JObject in force)
  then show ?case using sort_members_sorted [OF props(1,2)] by simp
qed auto

text \<open>
  \<open>canonicalize_json\<close> computes a canonical form: it is idempotent, and two JSON values
  (with distinct member keys, as every \<^verbatim>\<open>serde_json\<close> object has) have the same canonical
  form exactly when they differ only in the order of members, at any depth. So the
  configuration bytes that the compiler measures and retains do not depend on the order
  in which the source wrote the members.
\<close>

theorem canonicalize_canonical:
  assumes "json_wf u" and "json_wf v"
  shows "(canonicalize_json u = canonicalize_json v \<longleftrightarrow> same_json u v) \<and>
    canonicalize_json (canonicalize_json u) = canonicalize_json u \<and>
    (same_json u v \<longrightarrow> canonical_json_bytes ops u = canonical_json_bytes ops v)"
  using canonicalize_eq_iff [OF assms] canonicalize_idem [of u]
  by (auto simp: canonical_json_bytes_def)


theorem canonicalize_canonical_witness:
  "canonicalize_json (JObject [(''b'', JBool True), (''a'', JArray [JNumber (0 :: nat)])]) =
   canonicalize_json (JObject [(''a'', JArray [JNumber 0]), (''b'', JBool True)]) \<and>
   canonicalize_json (JArray [JNumber (0 :: nat), JNull]) \<noteq> canonicalize_json (JArray [JNull, JNumber 0])"
proof -
  let ?u = "JObject [(''b'', JBool True), (''a'', JArray [JNumber (0 :: nat)])]"
  let ?v = "JObject [(''a'', JArray [JNumber (0 :: nat)]), (''b'', JBool True)]"
  have "same_json ?u ?v"
    by (auto simp: same_json_object intro!: same_json.intros)
  then have "canonicalize_json ?u = canonicalize_json ?v"
    using canonicalize_canonical [of ?u ?v] by simp
  then show ?thesis by simp
qed

end
