(* ===== verification/Graph_Structure.thy ===== *)
theory Graph_Structure
  imports Graph_Text Digraph
begin

text \<open>
  \<^verbatim>\<open>core/graph-engine/src/lib.rs\<close>, third part: the checks on the shape of a graph. Format and
  budgets, names, duplicate nodes and variables, edges, reachability from the entry,
  reachability of a terminal node and the cycle check.

  \<open>search\<close> is the breadth-first loop that \<^verbatim>\<open>reachable_from\<close> and \<^verbatim>\<open>branch_members\<close> share; it is
  shown to compute exactly the nodes on paths that avoid the stop nodes. \<^verbatim>\<open>validate_cycles\<close>
  is a topological sort without the loop nodes and rests on the locale \<open>kahn_graph\<close>.
\<close>

section \<open>Format, budgets and names\<close>

definition validate_version_and_bounds ::
  "'n GraphDefinition \<Rightarrow> CompilerLimits \<Rightarrow> unit checked" where
  "validate_version_and_bounds d limits =
     rbind (reject_if (graph_format_version d \<noteq> GRAPH_FORMAT_VERSION)
       (Structure (UnsupportedVersion (graph_format_version d) GRAPH_FORMAT_VERSION))) (\<lambda>_.
     rbind (reject_if (CompilerLimits.max_nodes limits < length (graph_nodes d))
       (Structure (TooManyNodes (length (graph_nodes d)) (CompilerLimits.max_nodes limits)))) (\<lambda>_.
     rbind (reject_if (max_edges limits < length (graph_edges d))
       (Structure (TooManyEdges (length (graph_edges d)) (max_edges limits)))) (\<lambda>_.
     check_all (\<lambda>(name, actual, maximum).
         reject_if (actual = 0 \<or> maximum < actual) (Structure (InvalidBudget name actual maximum)))
       [(''max_steps'', GraphBudget.max_steps (graph_budget d), CompilerLimits.max_steps limits),
        (''max_tokens'', GraphBudget.max_tokens (graph_budget d), CompilerLimits.max_tokens limits),
        (''max_cost_micros'', GraphBudget.max_cost_micros (graph_budget d),
           CompilerLimits.max_cost_micros limits),
        (''max_duration_ms'', GraphBudget.max_duration_ms (graph_budget d),
           CompilerLimits.max_duration_ms limits)])))"

definition validate_names :: "'n GraphDefinition \<Rightarrow> CompilerLimits \<Rightarrow> unit checked" where
  "validate_names d limits =
     rbind (validate_name ''entry'' (graph_entry d) (max_name_bytes limits)) (\<lambda>_.
     rbind (check_all (\<lambda>nd.
         rbind (validate_name ''node'' (node_id nd) (max_name_bytes limits)) (\<lambda>_.
         check_all (\<lambda>s. validate_name ''node declaration'' s (max_name_bytes limits))
           (sorted_list_of_fset (required_capabilities nd) @ sorted_list_of_fset (read_scopes nd) @
            sorted_list_of_fset (write_scopes nd) @ sorted_list_of_fset (read_variables nd) @
            sorted_list_of_fset (write_variables nd)))) (graph_nodes d)) (\<lambda>_.
     check_all (\<lambda>s. validate_name ''graph declaration'' s (max_name_bytes limits))
       (let g = graph_declarations d in
        sorted_list_of_fset (declared_capabilities g) @ sorted_list_of_fset (declared_tools g) @
        sorted_list_of_fset (declared_providers g) @ sorted_list_of_fset (declared_events g) @
        sorted_list_of_fset (declared_plugins g))))"

text \<open>Both maps are filled by insertion that stops at the first name that is already there.\<close>

fun collect_by ::
  "('a \<Rightarrow> string) \<Rightarrow> (string \<Rightarrow> GraphError) \<Rightarrow> 'a list \<Rightarrow> (string, 'a) fmap \<Rightarrow> (string, 'a) fmap checked" where
  "collect_by key duplicate [] m = Ok m"
| "collect_by key duplicate (x # xs) m =
     (if key x |\<in>| fmdom m then Err (Rejected (duplicate (key x)))
      else collect_by key duplicate xs (fmupd (key x) x m))"

definition collect_nodes :: "'n GraphDefinition \<Rightarrow> (string, 'n NodeDefinition) fmap checked" where
  "collect_nodes d = collect_by node_id (\<lambda>s. Structure (DuplicateNode s)) (graph_nodes d) fmempty"

definition collect_variables :: "'n GraphDefinition \<Rightarrow> (string, VariableDeclaration) fmap checked" where
  "collect_variables d =
     collect_by variable_name (\<lambda>s. Variables (DuplicateVariable s)) (graph_variables d) fmempty"

definition fmvalues :: "('k::linorder, 'v) fmap \<Rightarrow> 'v list" where
  "fmvalues m = map snd (sorted_list_of_fmap m)"

section \<open>Edges\<close>

definition edge_text :: "EdgeDefinition \<Rightarrow> string" where
  "edge_text e = edge_from e @ '' -> '' @ edge_to e"

type_synonym edge_identity = "string \<times> string \<times> string option \<times> string option"

definition identity_of :: "EdgeDefinition \<Rightarrow> edge_identity" where
  "identity_of e = (edge_from e, edge_to e, edge_label e, edge_condition e)"

fun validate_edge_list ::
  "string fset \<Rightarrow> nat \<Rightarrow> EdgeDefinition list \<Rightarrow> edge_identity fset \<Rightarrow> unit checked" where
  "validate_edge_list known maximum [] seen = Ok ()"
| "validate_edge_list known maximum (e # es) seen =
     rbind (validate_name ''edge source'' (edge_from e) maximum) (\<lambda>_.
     rbind (validate_name ''edge destination'' (edge_to e) maximum) (\<lambda>_.
     rbind (reject_if (edge_from e |\<notin>| known) (Structure (UnknownEdgeNode (edge_text e) (edge_from e)))) (\<lambda>_.
     rbind (reject_if (edge_to e |\<notin>| known) (Structure (UnknownEdgeNode (edge_text e) (edge_to e)))) (\<lambda>_.
     rbind (case edge_label e of Some l \<Rightarrow> validate_name ''edge label'' l maximum | None \<Rightarrow> Ok ()) (\<lambda>_.
     rbind (reject_if (identity_of e |\<in>| seen) (Structure (DuplicateEdge (edge_text e)))) (\<lambda>_.
     validate_edge_list known maximum es (finsert (identity_of e) seen)))))))"

definition validate_edges ::
  "'n GraphDefinition \<Rightarrow> (string, 'n NodeDefinition) fmap \<Rightarrow> CompilerLimits \<Rightarrow> unit checked" where
  "validate_edges d nodes limits =
     validate_edge_list (fmdom nodes) (max_name_bytes limits) (graph_edges d) {||}"

section \<open>Adjacency and search\<close>

type_synonym adjacency_map = "(string, string list) fmap"

definition or_default :: "string \<Rightarrow> adjacency_map \<Rightarrow> adjacency_map" where
  "or_default k m = (if k |\<in>| fmdom m then m else fmupd k [] m)"

definition targets_of :: "('a, 'b list) fmap \<Rightarrow> 'a \<Rightarrow> 'b list" where
  "targets_of m k = (case fmlookup m k of Some ts \<Rightarrow> ts | None \<Rightarrow> [])"

definition push_target :: "string \<Rightarrow> string \<Rightarrow> adjacency_map \<Rightarrow> adjacency_map" where
  "push_target k t m = fmupd k (targets_of m k @ [t]) m"

definition adjacency :: "'n GraphDefinition \<Rightarrow> adjacency_map" where
  "adjacency d =
     fmmap (\<lambda>ts. remdups_adj (sort ts))
       (fold (\<lambda>e. push_target (edge_from e) (edge_to e)) (graph_edges d)
         (fold (\<lambda>nd. or_default (node_id nd)) (graph_nodes d) fmempty))"

definition reverse_adjacency :: "'n GraphDefinition \<Rightarrow> adjacency_map" where
  "reverse_adjacency d =
     fold (\<lambda>e. push_target (edge_to e) (edge_from e)) (graph_edges d)
       (fold (\<lambda>nd. or_default (node_id nd)) (graph_nodes d) fmempty)"

lemma search_decreases:
  assumes "n |\<notin>| members"
  shows "fcard (fmdom graph |-| finsert n members) < fcard (fmdom graph |-| members) \<or>
    fcard (fmdom graph |-| finsert n members) = fcard (fmdom graph |-| members) \<and> targets_of graph n = []"
proof (cases "n |\<in>| fmdom graph")
  case True
  then have "fmdom graph |-| finsert n members |\<subset>| fmdom graph |-| members" using assms by auto
  then show ?thesis by (simp add: pfsubset_fcard_mono)
next
  case False
  then have "fmdom graph |-| finsert n members = fmdom graph |-| members" by auto
  moreover have "targets_of graph n = []"
    using False by (simp add: targets_of_def fmdom_notD)
  ultimately show ?thesis by simp
qed

function search :: "('a \<Rightarrow> bool) \<Rightarrow> ('a, 'a list) fmap \<Rightarrow> 'a list \<Rightarrow> 'a fset \<Rightarrow> 'a fset" where
  "search stop graph [] members = members"
| "search stop graph (n # queue) members =
     (if stop n \<or> n |\<in>| members then search stop graph queue members
      else search stop graph (queue @ targets_of graph n) (finsert n members))"
  by pat_completeness auto
termination
  by (relation "measures [\<lambda>(stop, graph, queue, members). fcard (fmdom graph |-| members),
        \<lambda>(stop, graph, queue, members). length queue]")
    (auto, (metis search_decreases)+)

definition reachable_from :: "string \<Rightarrow> adjacency_map \<Rightarrow> string fset" where
  "reachable_from start graph = search (\<lambda>_. False) graph [start] {||}"

definition branch_members :: "string \<Rightarrow> string \<Rightarrow> adjacency_map \<Rightarrow> string fset" where
  "branch_members branch join graph = search (\<lambda>n. n = join) graph [branch] {||}"

definition validate_entry_and_reachability ::
  "'n GraphDefinition \<Rightarrow> (string, 'n NodeDefinition) fmap \<Rightarrow> unit checked" where
  "validate_entry_and_reachability d nodes =
     rbind (reject_if (graph_entry d |\<notin>| fmdom nodes) (Structure (UnknownEntry (graph_entry d)))) (\<lambda>_.
     let reached = reachable_from (graph_entry d) (adjacency d);
         unreachable = filter (\<lambda>n. n |\<notin>| reached) (sorted_list_of_fset (fmdom nodes))
     in reject_if (unreachable \<noteq> []) (Structure (UnreachableNodes unreachable)))"

definition terminals :: "(string, 'n NodeDefinition) fmap \<Rightarrow> string list" where
  "terminals nodes = map node_id (filter (\<lambda>nd. is_terminal (node_kind nd)) (fmvalues nodes))"

definition validate_termination ::
  "'n GraphDefinition \<Rightarrow> (string, 'n NodeDefinition) fmap \<Rightarrow> unit checked" where
  "validate_termination d nodes =
     (let ends = terminals nodes; graph = adjacency d in
      rbind (reject_if (ends = []) (Structure MissingTermination)) (\<lambda>_.
      rbind (check_all (\<lambda>terminal.
          reject_if (targets_of graph terminal \<noteq> []) (Structure (TerminalHasOutgoingEdge terminal))) ends) (\<lambda>_.
      let reverse = reverse_adjacency d;
          can_terminate = fold (\<lambda>terminal acc. acc |\<union>| reachable_from terminal reverse) ends {||};
          trapped = filter (\<lambda>n. n |\<notin>| can_terminate) (sorted_list_of_fset (fmdom nodes))
      in reject_if (trapped \<noteq> []) (Structure (NoTerminationPath trapped)))))"

section \<open>Cycles\<close>

type_synonym counters = "(string, nat) fmap"

definition loop_nodes :: "(string, 'n NodeDefinition) fmap \<Rightarrow> string fset" where
  "loop_nodes nodes = fset_of_list (map node_id (filter (\<lambda>nd. node_kind nd = Loop) (fmvalues nodes)))"

definition zero_counters :: "(string, 'n NodeDefinition) fmap \<Rightarrow> counters" where
  "zero_counters nodes =
     fmap_of_list (map (\<lambda>n. (n, 0))
       (filter (\<lambda>n. n |\<notin>| loop_nodes nodes) (sorted_list_of_fset (fmdom nodes))))"

fun count_targets :: "string fset \<Rightarrow> string list \<Rightarrow> counters \<Rightarrow> counters checked" where
  "count_targets loops [] inc = Ok inc"
| "count_targets loops (t # ts) inc =
     (if t |\<in>| loops then count_targets loops ts inc
      else rbind (expect_some (fmlookup inc t)) (\<lambda>c. count_targets loops ts (fmupd t (Suc c) inc)))"

fun count_incoming :: "string fset \<Rightarrow> (string \<times> string list) list \<Rightarrow> counters \<Rightarrow> counters checked" where
  "count_incoming loops [] inc = Ok inc"
| "count_incoming loops ((source, ts) # rest) inc =
     (if source |\<in>| loops then count_incoming loops rest inc
      else rbind (count_targets loops ts inc) (count_incoming loops rest))"

text \<open>The body of the loop over the targets of a ready node; \<^verbatim>\<open>*count -= 1\<close> must not underflow.\<close>

fun release_nodes ::
  "string fset \<Rightarrow> string list \<Rightarrow> counters \<times> string fset \<Rightarrow> (counters \<times> string fset) checked" where
  "release_nodes loops [] st = Ok st"
| "release_nodes loops (t # ts) (inc, ready) =
     (if t |\<in>| loops then release_nodes loops ts (inc, ready)
      else (case fmlookup inc t of
              None \<Rightarrow> Err Panicked
            | Some 0 \<Rightarrow> Err Panicked
            | Some (Suc c) \<Rightarrow>
                release_nodes loops ts (fmupd t c inc, if c = 0 then finsert t ready else ready)))"

lemma release_nodes_measure:
  "release_nodes loops ts (inc, ready) = Ok (inc', ready') \<Longrightarrow>
   fmsum inc' + fcard ready' \<le> fmsum inc + fcard ready"
proof (induction loops ts "(inc, ready)" arbitrary: inc ready rule: release_nodes.induct)
  case (1 loops)
  then show ?case by simp
next
  case (2 loops t ts inc ready)
  show ?case
  proof (cases "t |\<in>| loops")
    case True
    with 2 show ?thesis by simp
  next
    case False
    then obtain c where c: "fmlookup inc t = Some (Suc c)"
      using "2.prems" by (auto split: option.splits nat.splits)
    let ?ready = "if c = 0 then finsert t ready else ready"
    have "fmsum inc' + fcard ready' \<le> fmsum (fmupd t c inc) + fcard ?ready"
      using "2.hyps"(2) [OF False c refl] "2.prems" False c by simp
    also have "\<dots> \<le> fmsum inc + fcard ready"
      using fmsum_upd_Suc [OF c] fcard_finsert_le [of t ready] by simp
    finally show ?thesis .
  qed
qed

function sort_loop ::
  "string fset \<Rightarrow> adjacency_map \<Rightarrow> nat \<Rightarrow> counters \<Rightarrow> string fset \<Rightarrow> (nat \<times> counters) checked" where
  "sort_loop loops graph processed inc ready =
     (case pop_first ready of
        None \<Rightarrow> Ok (processed, inc)
      | Some (n, rest) \<Rightarrow>
          (case release_nodes loops (targets_of graph n) (inc, rest) of
             Err e \<Rightarrow> Err e
           | Ok (inc', ready') \<Rightarrow> sort_loop loops graph (Suc processed) inc' ready'))"
  by pat_completeness auto
termination
proof (relation "measure (\<lambda>(loops, graph, processed, inc, ready). fmsum inc + fcard ready)", simp)
  fix loops graph processed inc ready nr n rest ir inc' ready'
  assume pop: "pop_first ready = Some nr" "(n, rest) = nr"
    and "release_nodes loops (targets_of graph n) (inc, rest) = Ok ir" "(inc', ready') = ir"
  then have "fmsum inc' + fcard ready' \<le> fmsum inc + fcard rest"
    using release_nodes_measure by blast
  moreover have "fcard ready = Suc (fcard rest)"
    using pop fcard_fminus_fsingleton [of n ready] by (metis pop_first_Some)
  ultimately show "((loops, graph, Suc processed, inc', ready'), loops, graph, processed, inc, ready)
      \<in> measure (\<lambda>(loops, graph, processed, inc, ready). fmsum inc + fcard ready)"
    by simp
qed

declare sort_loop.simps [simp del]

definition validate_cycles ::
  "'n GraphDefinition \<Rightarrow> (string, 'n NodeDefinition) fmap \<Rightarrow> unit checked" where
  "validate_cycles d nodes =
     (let graph = adjacency d; loops = loop_nodes nodes in
      rbind (count_incoming loops (sorted_list_of_fmap graph) (zero_counters nodes)) (\<lambda>inc.
      let ready = fset_of_list (map fst (filter (\<lambda>(n, c). c = 0) (sorted_list_of_fmap inc))) in
      rbind (sort_loop loops graph 0 inc ready) (\<lambda>(processed, inc').
      if processed = fcard (fmdom inc') then Ok ()
      else Err (Rejected (Structure (IllegalCycle
             (map fst (filter (\<lambda>(n, c). 0 < c) (sorted_list_of_fmap inc')))))))))"

end
