(* ===== verification/Graph_Config.thy ===== *)
theory Graph_Config
  imports Graph_Structure
begin

text \<open>
  \<^verbatim>\<open>core/graph-engine/src/lib.rs\<close>, fourth part: the checks of node configurations. One
  definition per arm of \<^verbatim>\<open>validate_node_configuration\<close>, composed by the match of the source;
  then the contracts of nodes (\<^verbatim>\<open>validate_node_contracts\<close>) and the configuration that the
  compiled node keeps.
\<close>

section \<open>Variables used by a configuration\<close>

abbreviation invalid_configuration :: "'n NodeDefinition \<Rightarrow> string \<Rightarrow> failure" where
  "invalid_configuration nd detail \<equiv> Rejected (Configuration (InvalidNodeConfiguration (node_id nd) detail))"

definition configuration_variable ::
  "'n NodeDefinition \<Rightarrow> 'n GraphDefinition \<Rightarrow> string \<Rightarrow> VariableDeclaration checked" where
  "configuration_variable nd d variable =
     ok_or (invalid_configuration nd (''configuration variable `'' @ variable @ ''` is not declared''))
       (find (\<lambda>declaration. variable_name declaration = variable) (graph_variables d))"

fun is_model_disposition_type :: "VariableValueType \<Rightarrow> bool" where
  "is_model_disposition_type (VEnum values) =
     (fcard values = 2 \<and> ''response_complete'' |\<in>| values \<and> ''tool_requests'' |\<in>| values)"
| "is_model_disposition_type _ = False"

fun ordinary_effect_output_type :: "VariableValueType \<Rightarrow> bool" where
  "ordinary_effect_output_type VBoolean = True"
| "ordinary_effect_output_type VInteger = True"
| "ordinary_effect_output_type VDecimal = True"
| "ordinary_effect_output_type VString = True"
| "ordinary_effect_output_type (VEnum _) = True"
| "ordinary_effect_output_type (VList item_type _) = ordinary_effect_output_type item_type"
| "ordinary_effect_output_type (VMap entry_type _) = ordinary_effect_output_type entry_type"
| "ordinary_effect_output_type _ = False"

definition runtime_handle_type :: "VariableValueType \<Rightarrow> bool" where
  "runtime_handle_type t \<longleftrightarrow>
     t \<in> {VSessionId, VChildId, VTaskId, VArtifactReference, VSecretReference, VToolResultReference,
          VNodeResultReference}"

definition validate_configuration_variable ::
  "'n NodeDefinition \<Rightarrow> 'n GraphDefinition \<Rightarrow> string \<Rightarrow> bool \<Rightarrow> bool \<Rightarrow> nat \<Rightarrow> unit checked" where
  "validate_configuration_variable nd d variable require_string require_inline_artifact_value max_bytes =
     rbind (validate_name ''configuration variable'' variable max_bytes) (\<lambda>_.
     rbind (configuration_variable nd d variable) (\<lambda>declaration.
     fail_if (variable |\<notin>| read_variables nd \<or> node_id nd |\<notin>| consumers declaration \<or>
         (require_string \<and> value_type declaration \<noteq> VString) \<or>
         (require_inline_artifact_value \<and> runtime_handle_type (value_type declaration)))
       (invalid_configuration nd
         (''configuration variable `'' @ variable @ ''` is not an authorized compatible read''))))"

definition type_mismatch :: "'n NodeDefinition \<Rightarrow> string \<Rightarrow> string \<Rightarrow> failure" where
  "type_mismatch nd variable expected =
     Rejected (Effects (ConfigurationVariableTypeMismatch (node_id nd) variable expected))"

definition validate_configuration_variable_type ::
  "'n NodeDefinition \<Rightarrow> 'n GraphDefinition \<Rightarrow> string \<Rightarrow> string \<Rightarrow> (VariableValueType \<Rightarrow> bool) \<Rightarrow> nat \<Rightarrow>
   unit checked" where
  "validate_configuration_variable_type nd d variable expected compatible max_bytes =
     rbind (validate_configuration_variable nd d variable False False max_bytes) (\<lambda>_.
     rbind (configuration_variable nd d variable) (\<lambda>declaration.
     fail_if (\<not> compatible (value_type declaration)) (type_mismatch nd variable expected)))"

definition validate_configuration_output_variable_type ::
  "'n NodeDefinition \<Rightarrow> 'n GraphDefinition \<Rightarrow> string \<Rightarrow> string \<Rightarrow> (VariableValueType \<Rightarrow> bool) \<Rightarrow> nat \<Rightarrow>
   unit checked" where
  "validate_configuration_output_variable_type nd d variable expected compatible max_bytes =
     rbind (validate_name ''configuration output variable'' variable max_bytes) (\<lambda>_.
     rbind (configuration_variable nd d variable) (\<lambda>declaration.
     rbind (fail_if (variable |\<notin>| write_variables nd \<or> producer declaration \<noteq> node_id nd)
       (invalid_configuration nd
         (''configuration output variable `'' @ variable @ ''` is not an exact declared node write''))) (\<lambda>_.
     fail_if (\<not> compatible (value_type declaration)) (type_mismatch nd variable expected))))"

definition is_node_result :: "VariableValueType \<Rightarrow> bool" where
  "is_node_result t \<longleftrightarrow> t = VNodeResultReference"

definition is_artifact_reference :: "VariableValueType \<Rightarrow> bool" where
  "is_artifact_reference t \<longleftrightarrow> t = VArtifactReference"

definition is_list_of :: "VariableValueType \<Rightarrow> VariableValueType \<Rightarrow> bool" where
  "is_list_of item t = (case t of VList item_type _ \<Rightarrow> item_type = item | _ \<Rightarrow> False)"

section \<open>Child tasks, workspaces and reviews\<close>

definition is_child_task_type :: "VariableValueType \<Rightarrow> bool" where
  "is_child_task_type t =
     (case t of
        VString \<Rightarrow> True
      | VSecretReference \<Rightarrow> True
      | VList item_type _ \<Rightarrow> item_type = VString
      | VMap entry_type _ \<Rightarrow> entry_type = VString
      | _ \<Rightarrow> False)"

fun validate_child_task_source ::
  "'n graph_ops \<Rightarrow> 'n NodeDefinition \<Rightarrow> 'n GraphDefinition \<Rightarrow> 'n NodeValueSource \<Rightarrow> nat \<Rightarrow>
   SecurityClassification \<Rightarrow> CompilerLimits \<Rightarrow> unit checked" where
  "validate_child_task_source ops nd d (Static v) maximum_children classification limits =
     rbind (validate_json_value ops (node_id nd) ''child task input'' v limits) (\<lambda>_.
     fail_if (classification = SecretReference \<or> \<not> valid_static_child_tasks v maximum_children \<or>
         contains_forbidden_inline_secret v)
       (invalid_configuration nd
         ''static child tasks must be bounded strings/list/map values without inline secret fields''))"
| "validate_child_task_source ops nd d (Variable variable) maximum_children classification limits =
     rbind (validate_configuration_variable_type nd d variable
       ''string, list<string>, map<string>, or secret_reference'' is_child_task_type
       (max_name_bytes limits)) (\<lambda>_.
     rbind (configuration_variable nd d variable) (\<lambda>declaration.
     fail_if ((classification = SecretReference) \<noteq> (value_type declaration = VSecretReference))
       (invalid_configuration nd
         ''child task secret-reference classification must match its variable type'')))"

fun validate_child_workspace ::
  "'n NodeDefinition \<Rightarrow> 'n GraphDefinition \<Rightarrow> ChildWorkspaceConfiguration \<Rightarrow> CompilerLimits \<Rightarrow> unit checked" where
  "validate_child_workspace nd d (SharedSerializedWrites serialization_key) limits =
     validate_name ''child workspace serialization key'' serialization_key (max_name_bytes limits)"
| "validate_child_workspace nd d (ExplicitCustomWorkspace (StaticText s)) limits =
     (if \<not> trim_is_empty s \<and> length s \<le> max_configuration_bytes limits then Ok ()
      else Err (invalid_configuration nd ''custom child workspace must be non-empty and bounded''))"
| "validate_child_workspace nd d (ExplicitCustomWorkspace (TextVariable variable)) limits =
     validate_configuration_variable_type nd d variable ''string'' (\<lambda>t. t = VString) (max_name_bytes limits)"
| "validate_child_workspace nd d _ limits = Ok ()"

fun validate_review_input ::
  "'n graph_ops \<Rightarrow> 'n NodeDefinition \<Rightarrow> 'n GraphDefinition \<Rightarrow> 'n NodeValueSource \<Rightarrow> CompilerLimits \<Rightarrow>
   unit checked" where
  "validate_review_input ops nd d (Static v) limits =
     rbind (validate_json_value ops (node_id nd) ''review input'' v limits) (\<lambda>_.
     fail_if (contains_forbidden_inline_secret v)
       (invalid_configuration nd ''review input cannot contain inline secret fields''))"
| "validate_review_input ops nd d (Variable variable) limits =
     validate_configuration_variable nd d variable False False (max_name_bytes limits)"

definition validate_review_routes ::
  "'n NodeDefinition \<Rightarrow> (string, 'n NodeDefinition) fmap \<Rightarrow> 'n GraphDefinition \<Rightarrow> ReviewRoutes \<Rightarrow>
   CompilerLimits \<Rightarrow> unit checked" where
  "validate_review_routes nd nodes d routes limits =
     rbind (check_all (\<lambda>destination.
         rbind (validate_name ''review route'' destination (max_name_bytes limits)) (\<lambda>_.
         fail_if (\<not> list_ex (\<lambda>e. edge_from e = node_id nd \<and> edge_to e = destination) (graph_edges d) \<or>
             destination |\<notin>| fmdom nodes)
           (invalid_configuration nd (''review route `'' @ destination @ ''` is not an exact outgoing edge''))))
       [route_approved routes, route_revision routes, route_failure routes]) (\<lambda>_.
     fail_if (route_approved routes = route_revision routes \<or> route_approved routes = route_failure routes \<or>
         route_revision routes = route_failure routes \<or>
         (case fmlookup nodes (route_failure routes) of None \<Rightarrow> True | Some f \<Rightarrow> node_kind f \<noteq> Fail))
       (invalid_configuration nd ''review routes must be distinct and failure must target a fail node''))"

section \<open>The arms of the configuration check\<close>

definition check_names :: "string \<Rightarrow> string fset \<Rightarrow> CompilerLimits \<Rightarrow> unit checked" where
  "check_names what names limits =
     check_all (\<lambda>s. validate_name what s (max_name_bytes limits)) (sorted_list_of_fset names)"

definition check_artifact_variables ::
  "'n NodeDefinition \<Rightarrow> 'n GraphDefinition \<Rightarrow> string fset \<Rightarrow> CompilerLimits \<Rightarrow> unit checked" where
  "check_artifact_variables nd d variables limits =
     check_all (\<lambda>v. validate_configuration_variable_type nd d v ''artifact_reference''
         is_artifact_reference (max_name_bytes limits)) (sorted_list_of_fset variables)"

fun check_value_source ::
  "'n graph_ops \<Rightarrow> 'n NodeDefinition \<Rightarrow> 'n GraphDefinition \<Rightarrow> string \<Rightarrow> 'n NodeValueSource \<Rightarrow>
   CompilerLimits \<Rightarrow> unit checked" where
  "check_value_source ops nd d field (Static v) limits = validate_json_value ops (node_id nd) field v limits"
| "check_value_source ops nd d field (Variable variable) limits =
     validate_configuration_variable nd d variable False False (max_name_bytes limits)"

definition check_model_request ::
  "'n graph_ops \<Rightarrow> 'n NodeDefinition \<Rightarrow> 'n GraphDefinition \<Rightarrow> CompilerLimits \<Rightarrow> string \<Rightarrow> string \<Rightarrow>
   (string, string) fmap \<Rightarrow> (string, string) fmap \<Rightarrow> (string, 'n NodeValueSource) fmap \<Rightarrow> unit checked" where
  "check_model_request ops nd d limits disposition_output result_output provider_options json_outputs inputs =
     rbind (require_configuration_kind nd ModelCall) (\<lambda>_.
     let exact_outputs = finsert result_output (finsert disposition_output (fmdom json_outputs));
         outputs_are_distinct = disposition_output \<noteq> result_output \<and>
           disposition_output |\<notin>| fmdom json_outputs \<and> result_output |\<notin>| fmdom json_outputs
     in
     rbind (fail_if (\<not> outputs_are_distinct \<or> write_variables nd \<noteq> exact_outputs)
       (invalid_configuration nd ''model request disposition, result, and JSON outputs must have distinct names and exactly match declared node writes'')) (\<lambda>_.
     rbind (validate_collection_len (node_id nd) ''model provider options'' (fcard (fmdom provider_options)) limits) (\<lambda>_.
     rbind (validate_collection_len (node_id nd) ''model JSON outputs'' (fcard (fmdom json_outputs)) limits) (\<lambda>_.
     rbind (validate_collection_len (node_id nd) ''model inputs'' (fcard (fmdom inputs)) limits) (\<lambda>_.
     rbind (check_all (\<lambda>(name, v).
         rbind (validate_name ''model provider option'' name (max_name_bytes limits)) (\<lambda>_.
         validate_bounded_configuration_string nd ''model provider option value'' v (max_name_bytes limits)))
       (sorted_list_of_fmap provider_options)) (\<lambda>_.
     rbind (validate_configuration_output_variable_type nd d disposition_output
       ''enum(response_complete, tool_requests)'' is_model_disposition_type (max_name_bytes limits)) (\<lambda>_.
     rbind (validate_configuration_output_variable_type nd d result_output
       ''node_result_reference'' is_node_result (max_name_bytes limits)) (\<lambda>_.
     rbind (check_all (\<lambda>(variable, pointer).
         rbind (validate_configuration_output_variable_type nd d variable
           ''ordinary bounded canonical value'' ordinary_effect_output_type (max_name_bytes limits)) (\<lambda>_.
         validate_json_pointer nd variable pointer (max_name_bytes limits)))
       (sorted_list_of_fmap json_outputs)) (\<lambda>_.
     check_all (\<lambda>(name, source).
         rbind (validate_name ''model input'' name (max_name_bytes limits)) (\<lambda>_.
         check_value_source ops nd d ''model input'' source limits))
       (sorted_list_of_fmap inputs))))))))))"

definition check_tool_batch ::
  "'n NodeDefinition \<Rightarrow> 'n GraphDefinition \<Rightarrow> CompilerLimits \<Rightarrow> string \<Rightarrow> string \<Rightarrow> nat \<Rightarrow> string fset \<Rightarrow> unit checked" where
  "check_tool_batch nd d limits request_reference_variable disposition_variable maximum_calls allowed_tools =
     rbind (require_configuration_kind nd ToolExecutionGate) (\<lambda>_.
     rbind (validate_configuration_variable_type nd d request_reference_variable
       ''node_result_reference'' is_node_result (max_name_bytes limits)) (\<lambda>_.
     rbind (validate_configuration_variable_type nd d disposition_variable
       ''enum(response_complete, tool_requests)'' is_model_disposition_type (max_name_bytes limits)) (\<lambda>_.
     rbind (fail_if (maximum_calls = 0 \<or> max_configuration_items limits < maximum_calls)
       (invalid_configuration nd ''provider tool-batch maximum_calls must be nonzero and bounded'')) (\<lambda>_.
     rbind (fail_if (allowed_tools = {||} \<or> max_configuration_items limits < fcard allowed_tools)
       (invalid_configuration nd ''provider tool-batch allowed_tools must be nonempty and bounded'')) (\<lambda>_.
     rbind (check_all (\<lambda>t.
         rbind (validate_name ''provider tool-batch allowed tool'' t (max_name_bytes limits)) (\<lambda>_.
         reject_if (t |\<notin>| declared_tools (graph_declarations d)) (Contract (UndeclaredTool (node_id nd) t))))
       (sorted_list_of_fset allowed_tools)) (\<lambda>_.
     case pop_first (write_variables nd) of
       None \<Rightarrow> Err (invalid_configuration nd ''provider tool-batch execution must declare one terminal result output'')
     | Some (result_output, _) \<Rightarrow>
         rbind (fail_if (fcard (write_variables nd) \<noteq> 1)
           (invalid_configuration nd
             ''provider tool-batch execution must declare exactly one terminal result output'')) (\<lambda>_.
         validate_configuration_output_variable_type nd d result_output ''node_result_reference''
           is_node_result (max_name_bytes limits))))))))"

definition check_user_approval ::
  "'n NodeDefinition \<Rightarrow> 'n GraphDefinition \<Rightarrow> CompilerLimits \<Rightarrow> NodeTextSource \<Rightarrow> unit checked" where
  "check_user_approval nd d limits action_summary =
     rbind (require_configuration_kind nd NodeKind.UserApproval) (\<lambda>_.
     case action_summary of
       StaticText s \<Rightarrow>
         if \<not> trim_is_empty s \<and> length s \<le> max_configuration_bytes limits then Ok ()
         else Err (invalid_configuration nd ''approval summary must be non-empty and bounded'')
     | TextVariable variable \<Rightarrow>
         validate_configuration_variable nd d variable True False (max_name_bytes limits))"

definition check_spawn ::
  "'n graph_ops \<Rightarrow> 'n NodeDefinition \<Rightarrow> 'n GraphDefinition \<Rightarrow> CompilerLimits \<Rightarrow> 'n SpawnConfiguration \<Rightarrow>
   unit checked" where
  "check_spawn ops nd d limits c =
     rbind (require_configuration_kind nd NodeKind.SpawnChildAgent) (\<lambda>_.
     rbind (validate_name ''child task id prefix'' (task_id_prefix c) (max_name_bytes limits)) (\<lambda>_.
     rbind (fail_if (trim_is_empty (child_style c) \<or> max_name_bytes limits < length (child_style c) \<or>
         has_control (child_style c))
       (invalid_configuration nd ''child style selector must be non-empty and bounded'')) (\<lambda>_.
     rbind (validate_collection_len (node_id nd) ''child tool groups'' (fcard (tool_groups c)) limits) (\<lambda>_.
     rbind (validate_collection_len (node_id nd) ''child artifact references''
       (fcard (spawn_artifact_references c)) limits) (\<lambda>_.
     rbind (validate_collection_len (node_id nd) ''child artifact reference variables''
       (fcard (spawn_artifact_reference_variables c)) limits) (\<lambda>_.
     rbind (fail_if
       (spawn_maximum_children c = 0 \<or> max_configuration_items limits < spawn_maximum_children c \<or>
        maximum_depth c = 0 \<or> 64 < maximum_depth c \<or>
        token_budget c = 0 \<or> GraphBudget.max_tokens (graph_budget d) < token_budget c \<or>
        context_budget_tokens c = 0 \<or> token_budget c < context_budget_tokens c \<or>
        cost_budget_micros c = 0 \<or> GraphBudget.max_cost_micros (graph_budget d) < cost_budget_micros c \<or>
        \<not> approval_required c)
       (invalid_configuration nd ''child count, depth, token/context/cost budgets, and mandatory approval must be positive and within graph bounds'')) (\<lambda>_.
     rbind (check_names ''child tool group'' (tool_groups c) limits) (\<lambda>_.
     rbind (check_names ''child artifact reference'' (spawn_artifact_references c) limits) (\<lambda>_.
     rbind (check_artifact_variables nd d (spawn_artifact_reference_variables c) limits) (\<lambda>_.
     rbind (validate_child_task_source ops nd d (task_input c) (spawn_maximum_children c)
       (spawn_security_classification c) limits) (\<lambda>_.
     validate_child_workspace nd d (workspace c) limits)))))))))))"

definition check_wait ::
  "'n NodeDefinition \<Rightarrow> 'n GraphDefinition \<Rightarrow> CompilerLimits \<Rightarrow> ChildSetSource \<Rightarrow> nat \<Rightarrow> nat \<Rightarrow> nat \<Rightarrow> unit checked" where
  "check_wait nd d limits children maximum_children minimum_successes timeout_ms =
     rbind (require_configuration_kind nd NodeKind.WaitForAgents) (\<lambda>_.
     rbind (fail_if (maximum_children = 0 \<or> max_configuration_items limits < maximum_children \<or>
         minimum_successes = 0 \<or> maximum_children < minimum_successes \<or>
         timeout_ms = 0 \<or> GraphBudget.max_duration_ms (graph_budget d) < timeout_ms)
       (invalid_configuration nd ''child wait count, success threshold, and timeout must be positive and within graph bounds'')) (\<lambda>_.
     case children of
       ExactChildren child_ids \<Rightarrow>
         rbind (validate_collection_len (node_id nd) ''wait child ids'' (fcard child_ids) limits) (\<lambda>_.
         rbind (fail_if (child_ids = {||} \<or> maximum_children < fcard child_ids \<or> fcard child_ids < minimum_successes)
           (invalid_configuration nd ''exact child set must be non-empty and satisfy configured bounds'')) (\<lambda>_.
         check_names ''wait child id'' child_ids limits))
     | ChildrenVariable variable \<Rightarrow>
         validate_configuration_variable_type nd d variable ''child_id or list<child_id>''
           (\<lambda>t. t = VChildId \<or> is_list_of VChildId t) (max_name_bytes limits)))"

definition check_review ::
  "'n graph_ops \<Rightarrow> 'n NodeDefinition \<Rightarrow> (string, 'n NodeDefinition) fmap \<Rightarrow> 'n GraphDefinition \<Rightarrow> CompilerLimits \<Rightarrow>
   'n NodeValueSource \<Rightarrow> string fset \<Rightarrow> string fset \<Rightarrow> ReviewResultSchema \<Rightarrow> ReviewRoutes \<Rightarrow> nat \<Rightarrow> unit checked" where
  "check_review ops nd nodes d limits input artifact_references artifact_reference_variables schema routes
       maximum_revisions =
     rbind (require_configuration_kind nd NodeKind.Review) (\<lambda>_.
     rbind (validate_collection_len (node_id nd) ''review artifact references'' (fcard artifact_references) limits) (\<lambda>_.
     rbind (validate_collection_len (node_id nd) ''review artifact reference variables''
       (fcard artifact_reference_variables) limits) (\<lambda>_.
     rbind (fail_if
       (maximum_findings schema = 0 \<or> max_configuration_items limits < maximum_findings schema \<or>
        maximum_finding_bytes schema = 0 \<or> max_configuration_bytes limits < maximum_finding_bytes schema \<or>
        maximum_rejections schema = 0 \<or> max_configuration_items limits < maximum_rejections schema \<or>
        maximum_revisions = 0 \<or> max_loop_iterations limits < maximum_revisions)
       (invalid_configuration nd ''review schema and revision limits must be positive and compiler-bounded'')) (\<lambda>_.
     rbind (check_names ''review artifact reference'' artifact_references limits) (\<lambda>_.
     rbind (check_artifact_variables nd d artifact_reference_variables limits) (\<lambda>_.
     rbind (validate_review_input ops nd d input limits) (\<lambda>_.
     validate_review_routes nd nodes d routes limits)))))))"

definition check_persist ::
  "'n graph_ops \<Rightarrow> 'n NodeDefinition \<Rightarrow> 'n GraphDefinition \<Rightarrow> CompilerLimits \<Rightarrow> 'n ArtifactContentSource \<Rightarrow> string \<Rightarrow>
   unit checked" where
  "check_persist ops nd d limits content mime_type =
     rbind (require_configuration_kind nd NodeKind.PersistArtifact) (\<lambda>_.
     rbind (fail_if (\<not> valid_mime_type mime_type (max_name_bytes limits))
       (invalid_configuration nd ''artifact mime_type must be a bounded ASCII type/subtype'')) (\<lambda>_.
     case content of
       StaticJson v \<Rightarrow> validate_json_value ops (node_id nd) ''artifact content'' v limits
     | StaticContent s \<Rightarrow>
         fail_if (max_configuration_bytes limits < length s)
           (invalid_configuration nd ''artifact text exceeds the compiler bound'')
     | ContentVariable variable \<Rightarrow>
         validate_configuration_variable nd d variable False True (max_name_bytes limits)
     | ProviderResultText reference_variable \<Rightarrow>
         validate_configuration_variable_type nd d reference_variable ''node_result_reference''
           is_node_result (max_name_bytes limits)
     | NodeResultProjection reference_variable \<Rightarrow>
         validate_configuration_variable_type nd d reference_variable ''node_result_reference''
           is_node_result (max_name_bytes limits)))"

definition check_message ::
  "'n graph_ops \<Rightarrow> 'n NodeDefinition \<Rightarrow> CompilerLimits \<Rightarrow> ChildSelector \<Rightarrow> 'n json \<Rightarrow> string fset \<Rightarrow> nat \<Rightarrow>
   unit checked" where
  "check_message ops nd limits child payload artifact_references max_message_bytes =
     rbind (require_configuration_kind nd NodeKind.SendChildAgentMessage) (\<lambda>_.
     rbind (validate_collection_len (node_id nd) ''artifact_references'' (fcard artifact_references) limits) (\<lambda>_.
     rbind (validate_json_value ops (node_id nd) ''payload'' payload limits) (\<lambda>_.
     rbind (canonical_json_bytes ops payload) (\<lambda>payload_bytes.
     rbind (fail_if (max_message_bytes = 0 \<or> max_configuration_bytes limits < max_message_bytes \<or>
         max_message_bytes < length payload_bytes)
       (invalid_configuration nd ''max_message_bytes must bound the canonical payload and compiler maximum'')) (\<lambda>_.
     rbind (case child of
         ExactChild child_id \<Rightarrow> validate_name ''child id'' child_id (max_name_bytes limits)
       | ChildVariable variable \<Rightarrow> validate_name ''child variable'' variable (max_name_bytes limits)) (\<lambda>_.
     check_names ''artifact reference'' artifact_references limits))))))"

definition check_join :: "'n NodeDefinition \<Rightarrow> CompilerLimits \<Rightarrow> JoinConfiguration \<Rightarrow> unit checked" where
  "check_join nd limits c =
     rbind (require_configuration_kind nd NodeKind.JoinResults) (\<lambda>_.
     rbind (validate_collection_len (node_id nd) ''required'' (fcard (join_required c)) limits) (\<lambda>_.
     rbind (validate_collection_len (node_id nd) ''optional'' (fcard (join_optional c)) limits) (\<lambda>_.
     rbind (validate_collection_len (node_id nd) ''members''
       (saturating_add_usize (fcard (join_required c)) (fcard (join_optional c))) limits) (\<lambda>_.
     rbind (fail_if (join_required c |\<inter>| join_optional c \<noteq> {||} \<or> join_minimum_successes c = 0 \<or>
         fcard (join_required c) + fcard (join_optional c) < join_minimum_successes c \<or> join_timeout_ms c = 0)
       (invalid_configuration nd ''join members must be disjoint, minimum_successes must be feasible, and timeout_ms must be positive'')) (\<lambda>_.
     rbind (check_names ''join member'' (join_required c) limits) (\<lambda>_.
     check_names ''join member'' (join_optional c) limits))))))"

definition check_parallel ::
  "'n NodeDefinition \<Rightarrow> (string, 'n NodeDefinition) fmap \<Rightarrow> CompilerLimits \<Rightarrow> ParallelConfiguration \<Rightarrow> unit checked" where
  "check_parallel nd nodes limits c =
     rbind (require_configuration_kind nd NodeKind.ParallelBranch) (\<lambda>_.
     rbind (fail_if (parallel_max_parallelism c = 0 \<or> max_parallelism limits < parallel_max_parallelism c \<or>
         max_queue_depth c = 0 \<or> max_configuration_items limits < max_queue_depth c)
       (invalid_configuration nd ''parallelism and queue depth must be positive and within compiler bounds'')) (\<lambda>_.
     rbind (validate_name ''parallel join target'' (join_target c) (max_name_bytes limits)) (\<lambda>_.
     rbind (reject_if (case fmlookup nodes (join_target c) of
           None \<Rightarrow> True | Some target \<Rightarrow> node_kind target \<noteq> NodeKind.JoinResults)
       (Parallel (InvalidParallelJoinTarget (node_id nd) (join_target c)))) (\<lambda>_.
     rbind (validate_collection_len (node_id nd) ''variable_merge_policies''
       (fcard (fmdom (variable_merge_policies c))) limits) (\<lambda>_.
     check_names ''parallel merge variable'' (fmdom (variable_merge_policies c)) limits)))))"

definition check_delay ::
  "'n NodeDefinition \<Rightarrow> CompilerLimits \<Rightarrow> DelayResolution \<Rightarrow> string option \<Rightarrow> unit checked" where
  "check_delay nd limits resolution expiration_timestamp =
     rbind (require_configuration_kind nd NodeKind.Delay) (\<lambda>_.
     rbind (case resolution of
         Duration duration_ms \<Rightarrow>
           if 0 < duration_ms then Ok ()
           else Err (invalid_configuration nd ''delay duration_ms must be positive'')
       | WakeTimestamp timestamp \<Rightarrow> validate_timestamp ''delay wake timestamp'' timestamp limits) (\<lambda>_.
     case expiration_timestamp of
       Some timestamp \<Rightarrow> validate_timestamp ''delay expiration timestamp'' timestamp limits
     | None \<Rightarrow> Ok ()))"

definition check_schedule ::
  "'n NodeDefinition \<Rightarrow> 'n GraphDefinition \<Rightarrow> CompilerLimits \<Rightarrow> ScheduleTrigger \<Rightarrow> unit checked" where
  "check_schedule nd d limits trigger =
     rbind (require_configuration_kind nd NodeKind.Schedule) (\<lambda>_.
     case trigger of
       At timestamp \<Rightarrow> validate_timestamp ''schedule timestamp'' timestamp limits
     | Interval interval_ms start_timestamp \<Rightarrow>
         rbind (fail_if (interval_ms = 0)
           (invalid_configuration nd ''schedule interval_ms must be positive'')) (\<lambda>_.
         case start_timestamp of
           Some timestamp \<Rightarrow> validate_timestamp ''schedule start timestamp'' timestamp limits
         | None \<Rightarrow> Ok ())
     | RuntimeEvent event_type \<Rightarrow>
         rbind (validate_name ''runtime event'' event_type (max_name_bytes limits)) (\<lambda>_.
         reject_if (event_type |\<notin>| declared_events (graph_declarations d))
           (Configuration (UndeclaredEventType (node_id nd) event_type)))
     | ProcessOutput process_reference pattern \<Rightarrow>
         rbind (validate_name ''process reference'' process_reference (max_name_bytes limits)) (\<lambda>_.
         fail_if (pattern = [] \<or> max_name_bytes limits < length pattern)
           (invalid_configuration nd ''process output pattern must be non-empty and bounded'')))"

definition check_emit ::
  "'n graph_ops \<Rightarrow> 'n NodeDefinition \<Rightarrow> 'n GraphDefinition \<Rightarrow> CompilerLimits \<Rightarrow> string \<Rightarrow> 'n json \<Rightarrow> string fset \<Rightarrow>
   (string, string) fmap \<Rightarrow> unit checked" where
  "check_emit ops nd d limits event_type payload artifact_references metadata =
     rbind (require_configuration_kind nd NodeKind.EmitEvent) (\<lambda>_.
     rbind (validate_name ''event type'' event_type (max_name_bytes limits)) (\<lambda>_.
     rbind (reject_if (event_type |\<notin>| declared_events (graph_declarations d))
       (Configuration (UndeclaredEventType (node_id nd) event_type))) (\<lambda>_.
     rbind (validate_json_value ops (node_id nd) ''event payload'' payload limits) (\<lambda>_.
     rbind (validate_collection_len (node_id nd) ''event artifact references'' (fcard artifact_references) limits) (\<lambda>_.
     rbind (validate_collection_len (node_id nd) ''event metadata'' (fcard (fmdom metadata)) limits) (\<lambda>_.
     rbind (check_names ''artifact reference'' artifact_references limits) (\<lambda>_.
     check_all (\<lambda>(key, v).
         rbind (validate_name ''event metadata key'' key (max_name_bytes limits)) (\<lambda>_.
         fail_if (max_name_bytes limits < length v)
           (invalid_configuration nd ''event metadata value exceeds the bounded size'')))
       (sorted_list_of_fmap metadata))))))))"

definition check_complete_turn ::
  "'n NodeDefinition \<Rightarrow> 'n GraphDefinition \<Rightarrow> CompilerLimits \<Rightarrow> string \<Rightarrow> unit checked" where
  "check_complete_turn nd d limits result_reference_variable =
     rbind (require_configuration_kind nd NodeKind.CompleteTurn) (\<lambda>_.
     rbind (fail_if (write_variables nd \<noteq> {||})
       (invalid_configuration nd ''complete-turn configuration cannot declare node writes'')) (\<lambda>_.
     validate_configuration_variable_type nd d result_reference_variable ''node_result_reference''
       is_node_result (max_name_bytes limits)))"

definition check_plugin ::
  "'n graph_ops \<Rightarrow> 'n NodeDefinition \<Rightarrow> 'n GraphDefinition \<Rightarrow> CompilerLimits \<Rightarrow> 'n PluginConfiguration \<Rightarrow> unit checked" where
  "check_plugin ops nd d limits c =
     rbind (reject_if (plugin_node_kind c \<noteq> node_kind nd)
       (Configuration (InvalidPluginNodeKind (node_id nd) (plugin_node_kind c) (node_kind nd)))) (\<lambda>_.
     rbind (reject_if (plugin_id c |\<notin>| declared_plugins (graph_declarations d))
       (Configuration (UndeclaredPlugin (node_id nd) (plugin_id c)))) (\<lambda>_.
     rbind (check_all (\<lambda>(what, s). validate_name what s (max_name_bytes limits))
       [(''plugin id'', plugin_id c), (''plugin executor id'', executor_id c),
        (''plugin executor version'', executor_version c), (''plugin input schema'', input_schema c),
        (''plugin output schema'', output_schema c),
        (''plugin configuration reference'', configuration_reference c)]) (\<lambda>_.
     validate_json_value ops (node_id nd) ''plugin input'' (plugin_input c) limits)))"

section \<open>The configuration check\<close>

fun validate_configuration_arm ::
  "'n graph_ops \<Rightarrow> 'n NodeDefinition \<Rightarrow> (string, 'n NodeDefinition) fmap \<Rightarrow> 'n GraphDefinition \<Rightarrow> CompilerLimits \<Rightarrow>
   'n NodeConfiguration \<Rightarrow> unit checked" where
  "validate_configuration_arm ops nd nodes d limits (NodeConfiguration.ContextTransform _) =
     require_configuration_kind nd NodeKind.ContextTransform"
| "validate_configuration_arm ops nd nodes d limits (ModelRequest disposition res options outputs inputs) =
     check_model_request ops nd d limits disposition res options outputs inputs"
| "validate_configuration_arm ops nd nodes d limits (ToolExecution arguments) =
     rbind (require_configuration_kind nd ToolExecutionGate) (\<lambda>_.
     check_value_source ops nd d ''tool arguments'' arguments limits)"
| "validate_configuration_arm ops nd nodes d limits (ProviderToolBatchExecution request disposition calls tools) =
     check_tool_batch nd d limits request disposition calls tools"
| "validate_configuration_arm ops nd nodes d limits (NodeConfiguration.UserApproval summary) =
     check_user_approval nd d limits summary"
| "validate_configuration_arm ops nd nodes d limits (NodeConfiguration.SpawnChildAgent c) =
     check_spawn ops nd d limits c"
| "validate_configuration_arm ops nd nodes d limits (NodeConfiguration.WaitForAgents children maxi mini timeout _) =
     check_wait nd d limits children maxi mini timeout"
| "validate_configuration_arm ops nd nodes d limits (NodeConfiguration.Review input refs vars schema routes revisions) =
     check_review ops nd nodes d limits input refs vars schema routes revisions"
| "validate_configuration_arm ops nd nodes d limits (NodeConfiguration.PersistArtifact content mime _ _) =
     check_persist ops nd d limits content mime"
| "validate_configuration_arm ops nd nodes d limits (NodeConfiguration.SendChildAgentMessage child payload refs _ bound _) =
     check_message ops nd limits child payload refs bound"
| "validate_configuration_arm ops nd nodes d limits (NodeConfiguration.JoinResults c) = check_join nd limits c"
| "validate_configuration_arm ops nd nodes d limits (NodeConfiguration.ParallelBranch c) =
     check_parallel nd nodes limits c"
| "validate_configuration_arm ops nd nodes d limits (NodeConfiguration.Delay resolution expiration _) =
     check_delay nd limits resolution expiration"
| "validate_configuration_arm ops nd nodes d limits (NodeConfiguration.Schedule trigger _ _) =
     check_schedule nd d limits trigger"
| "validate_configuration_arm ops nd nodes d limits (NodeConfiguration.EmitEvent event payload refs metadata) =
     check_emit ops nd d limits event payload refs metadata"
| "validate_configuration_arm ops nd nodes d limits (NodeConfiguration.CompleteTurn reference _) =
     check_complete_turn nd d limits reference"
| "validate_configuration_arm ops nd nodes d limits (Plugin c) = check_plugin ops nd d limits c"

definition validate_node_configuration ::
  "'n graph_ops \<Rightarrow> 'n NodeDefinition \<Rightarrow> (string, 'n NodeDefinition) fmap \<Rightarrow> 'n GraphDefinition \<Rightarrow> CompilerLimits \<Rightarrow>
   unit checked" where
  "validate_node_configuration ops nd nodes d limits =
     (case configuration nd of
        None \<Rightarrow>
          fail_if (node_kind nd = NodeKind.PersistArtifact \<and> \<not> allow_legacy_unconfigured_artifact_persistence limits)
            (invalid_configuration nd ''artifact persistence requires explicit bounded content configuration'')
      | Some c \<Rightarrow>
          rbind (map_err (invalid_configuration nd) (configuration_to_vec ops c)) (\<lambda>serialized.
          rbind (reject_if (max_configuration_bytes limits < length serialized)
            (Configuration (NodeConfigurationTooLarge (node_id nd) (length serialized)
              (max_configuration_bytes limits)))) (\<lambda>_.
          validate_configuration_arm ops nd nodes d limits c)))"

definition effective_node_configuration :: "'n NodeDefinition \<Rightarrow> 'n NodeConfiguration option" where
  "effective_node_configuration nd =
     (case configuration nd of
        Some c \<Rightarrow> Some c
      | None \<Rightarrow>
          if node_kind nd = NodeKind.ContextTransform
          then Some (NodeConfiguration.ContextTransform PreserveHistory)
          else if node_kind nd = ToolExecutionGate then Some (ToolExecution (Static (JObject [])))
          else if node_kind nd = NodeKind.UserApproval
          then Some (NodeConfiguration.UserApproval (StaticText ''graph requested user approval''))
          else None)"

fun canonicalize_node_configuration :: "'n NodeConfiguration \<Rightarrow> 'n NodeConfiguration" where
  "canonicalize_node_configuration (ToolExecution (Static v)) = ToolExecution (Static (canonicalize_json v))"
| "canonicalize_node_configuration (NodeConfiguration.SpawnChildAgent c) =
     NodeConfiguration.SpawnChildAgent
       (case task_input c of
          Static v \<Rightarrow> c\<lparr>task_input := Static (canonicalize_json v)\<rparr>
        | Variable _ \<Rightarrow> c)"
| "canonicalize_node_configuration (NodeConfiguration.Review (Static v) refs vars schema routes revisions) =
     NodeConfiguration.Review (Static (canonicalize_json v)) refs vars schema routes revisions"
| "canonicalize_node_configuration (NodeConfiguration.PersistArtifact (StaticJson v) mime security retention) =
     NodeConfiguration.PersistArtifact (StaticJson (canonicalize_json v)) mime security retention"
| "canonicalize_node_configuration (NodeConfiguration.SendChildAgentMessage child v refs security bound cancel) =
     NodeConfiguration.SendChildAgentMessage child (canonicalize_json v) refs security bound cancel"
| "canonicalize_node_configuration (NodeConfiguration.EmitEvent event v refs metadata) =
     NodeConfiguration.EmitEvent event (canonicalize_json v) refs metadata"
| "canonicalize_node_configuration (Plugin c) = Plugin (c\<lparr>plugin_input := canonicalize_json (plugin_input c)\<rparr>)"
| "canonicalize_node_configuration c = c"

section \<open>Node contracts\<close>

definition parse_condition ::
  "'n graph_ops \<Rightarrow> string option \<Rightarrow> string \<Rightarrow> ExpressionLimits \<Rightarrow> 'n Expression option checked" where
  "parse_condition ops source owner limits =
     (case source of
        None \<Rightarrow> Ok None
      | Some condition \<Rightarrow>
          (case parse (json ops) condition limits of
             None \<Rightarrow> Err Panicked
           | Some (Err error) \<Rightarrow> Err (Rejected (Contract (InvalidCondition owner error)))
           | Some (Ok expression) \<Rightarrow> Ok (Some expression)))"

definition check_loop_bound :: "'n NodeDefinition \<Rightarrow> CompilerLimits \<Rightarrow> unit checked" where
  "check_loop_bound nd limits =
     (if node_kind nd = Loop
      then reject_if (case max_iterations nd of
               Some n \<Rightarrow> \<not> (0 < n \<and> n \<le> max_loop_iterations limits) | None \<Rightarrow> True)
             (Contract (InvalidLoopBound (node_id nd) (max_iterations nd) (max_loop_iterations limits)))
      else reject_if (max_iterations nd \<noteq> None) (Contract (LoopBoundOnNonLoop (node_id nd))))"

definition is_tool_batch :: "'n NodeConfiguration option \<Rightarrow> bool" where
  "is_tool_batch c = (case c of Some (ProviderToolBatchExecution _ _ _ _) \<Rightarrow> True | _ \<Rightarrow> False)"

definition check_implementation :: "'n NodeDefinition \<Rightarrow> 'n GraphDefinition \<Rightarrow> unit checked" where
  "check_implementation nd d =
     (if node_kind nd = ToolExecutionGate
      then (if is_tool_batch (configuration nd)
            then fail_if (tool nd \<noteq> None)
                   (invalid_configuration nd ''provider tool-batch execution selects tools only from its declared allowlist'')
            else rbind (ok_or (Rejected (Contract (MissingTool (node_id nd)))) (tool nd)) (\<lambda>t.
                 reject_if (t |\<notin>| declared_tools (graph_declarations d))
                   (Contract (UndeclaredTool (node_id nd) t))))
      else if node_kind nd = ModelCall \<or> node_kind nd = NodeKind.Review
      then rbind (ok_or (Rejected (Contract (MissingProvider (node_id nd)))) (provider nd)) (\<lambda>p.
           reject_if (p |\<notin>| declared_providers (graph_declarations d))
             (Contract (UndeclaredProvider (node_id nd) p)))
      else Ok ())"

definition node_capabilities :: "'n NodeDefinition \<Rightarrow> string list" where
  "node_capabilities nd =
     sorted_list_of_fset (required_capabilities nd) @
     (case implied_capability (node_kind nd) of Some c \<Rightarrow> [c] | None \<Rightarrow> [])"

definition validate_node_contract ::
  "'n graph_ops \<Rightarrow> 'n GraphDefinition \<Rightarrow> (string, 'n NodeDefinition) fmap \<Rightarrow> CompilerLimits \<Rightarrow>
   'n NodeDefinition \<Rightarrow> unit checked" where
  "validate_node_contract ops d nodes limits nd =
     rbind (reject_if (max_retry_limit limits < retry_limit nd)
       (Contract (RetryLimitExceeded (node_id nd) (retry_limit nd) (max_retry_limit limits)))) (\<lambda>_.
     rbind (check_loop_bound nd limits) (\<lambda>_.
     rbind (check_all (\<lambda>capability.
         reject_if (capability |\<notin>| declared_capabilities (graph_declarations d))
           (Contract (UndeclaredCapability (node_id nd) capability))) (node_capabilities nd)) (\<lambda>_.
     rbind (check_implementation nd d) (\<lambda>_.
     rbind (validate_node_configuration ops nd nodes d limits) (\<lambda>_.
     rbind (parse_condition ops (node_condition nd) (node_id nd) (limit_expression limits)) (\<lambda>_. Ok ()))))))"

definition validate_node_contracts ::
  "'n graph_ops \<Rightarrow> 'n GraphDefinition \<Rightarrow> (string, 'n NodeDefinition) fmap \<Rightarrow> GraphCacheInputs \<Rightarrow> CompilerLimits \<Rightarrow>
   unit checked" where
  "validate_node_contracts ops d nodes cache_inputs limits =
     rbind (check_all (\<lambda>capability.
         reject_if (capability |\<notin>| capability_set cache_inputs)
           (Contract (RuntimeCapabilityUnavailable capability)))
       (sorted_list_of_fset (declared_capabilities (graph_declarations d)))) (\<lambda>_.
     rbind (check_all (validate_node_contract ops d nodes limits) (graph_nodes d)) (\<lambda>_.
     check_all (\<lambda>e. rbind (parse_condition ops (edge_condition e) (edge_text e) (limit_expression limits)) (\<lambda>_. Ok ()))
       (graph_edges d)))"

end
