(* ===== verification/Graph_Variables.thy ===== *)
theory Graph_Variables
  imports Graph_Config
begin

text \<open>
  \<^verbatim>\<open>core/graph-engine/src/lib.rs\<close>, fifth part: declarations and uses of graph variables. Types,
  scopes, merge policies, who may read and write a variable, which variables a condition
  reads, and which outputs of a node's effect a variable receives.
\<close>

section \<open>Declarations\<close>

fun validate_variable_type ::
  "string \<Rightarrow> VariableValueType \<Rightarrow> CompilerLimits \<Rightarrow> nat \<Rightarrow> unit checked" where
  "validate_variable_type variable t limits depth =
     rbind (reject_if (max_value_depth limits < depth)
       (Variables (VariableTypeTooDeep variable (max_value_depth limits)))) (\<lambda>_.
     case t of
       VEnum values \<Rightarrow>
         rbind (reject_if (values = {||} \<or> max_configuration_items limits < fcard values)
           (Variables (InvalidVariableType variable
             ''enum values must be non-empty and within the collection bound''))) (\<lambda>_.
         check_all (\<lambda>v. validate_name ''enum value'' v (max_name_bytes limits)) (sorted_list_of_fset values))
     | VList item_type max_items \<Rightarrow>
         rbind (reject_if (max_items = 0 \<or> max_configuration_items limits < max_items)
           (Variables (InvalidVariableType variable ''list max_items must be within the collection bound''))) (\<lambda>_.
         validate_variable_type variable item_type limits (depth + 1))
     | VMap entry_type max_entries \<Rightarrow>
         rbind (reject_if (max_entries = 0 \<or> max_configuration_items limits < max_entries)
           (Variables (InvalidVariableType variable ''map max_entries must be within the collection bound''))) (\<lambda>_.
         validate_variable_type variable entry_type limits (depth + 1))
     | _ \<Rightarrow> Ok ())"

declare validate_variable_type.simps [simp del]

definition validate_variable_security :: "VariableDeclaration \<Rightarrow> unit checked" where
  "validate_variable_security variable =
     (let is_secret_reference = (value_type variable = VSecretReference);
          is_secret_classification = (security_classification variable = SecretReference)
      in if is_secret_reference = is_secret_classification then Ok ()
         else Err (Rejected (Variables (InvalidVariableSecurityClassification (variable_name variable)))))"

fun policy_debug :: "VariableMergePolicy \<Rightarrow> string" where
  "policy_debug Append = ''Append''"
| "policy_debug Union = ''Union''"
| "policy_debug DeepMerge = ''DeepMerge''"
| "policy_debug FirstBranch = ''FirstBranch''"

definition policy_compatible :: "VariableMergePolicy \<Rightarrow> VariableValueType \<Rightarrow> bool" where
  "policy_compatible policy t =
     (case policy of
        Append \<Rightarrow> (case t of VList _ _ \<Rightarrow> True | _ \<Rightarrow> False)
      | Union \<Rightarrow> (case t of VList _ _ \<Rightarrow> True | _ \<Rightarrow> False)
      | DeepMerge \<Rightarrow> (case t of VMap _ _ \<Rightarrow> True | _ \<Rightarrow> False)
      | FirstBranch \<Rightarrow> True)"

definition validate_variable_merge_policy :: "VariableDeclaration \<Rightarrow> unit checked" where
  "validate_variable_merge_policy variable =
     (case merge_policy variable of
        None \<Rightarrow> Ok ()
      | Some policy \<Rightarrow>
          rbind (reject_if (mutability variable \<noteq> Mutable)
            (Variables (InvalidVariableMergePolicy (variable_name variable) ''a merged variable must be mutable''))) (\<lambda>_.
          reject_if (\<not> policy_compatible policy (value_type variable))
            (Variables (InvalidVariableMergePolicy (variable_name variable)
              (''merge policy `'' @ policy_debug policy @ ''` is incompatible with the declared value type'')))))"

section \<open>Scopes\<close>

definition joins_reached ::
  "adjacency_map \<Rightarrow> (string, 'n NodeDefinition) fmap \<Rightarrow> string \<Rightarrow> string fset" where
  "joins_reached graph nodes branch =
     ffilter (\<lambda>n. case fmlookup nodes n of Some item \<Rightarrow> node_kind item = NodeKind.JoinResults | None \<Rightarrow> False)
       (reachable_from branch graph)"

definition common_join ::
  "string list \<Rightarrow> adjacency_map \<Rightarrow> (string, 'n NodeDefinition) fmap \<Rightarrow> string option" where
  "common_join branches graph nodes =
     (case fold (\<lambda>branch common.
              let joins = joins_reached graph nodes branch in
              Some (case common of None \<Rightarrow> joins | Some found \<Rightarrow> found |\<inter>| joins)) branches None of
        None \<Rightarrow> None
      | Some common \<Rightarrow> map_option fst (pop_first common))"

definition parallel_nodes :: "(string, 'n NodeDefinition) fmap \<Rightarrow> 'n NodeDefinition list" where
  "parallel_nodes nodes = filter (\<lambda>nd. node_kind nd = NodeKind.ParallelBranch) (fmvalues nodes)"

text \<open>The branch regions that contain the producer, in the order the source collects them.\<close>

definition producer_regions ::
  "'n GraphDefinition \<Rightarrow> (string, 'n NodeDefinition) fmap \<Rightarrow> string \<Rightarrow> string fset list" where
  "producer_regions d nodes p =
     (let graph = adjacency d in
      concat (map (\<lambda>parallel.
        let branches = targets_of graph (node_id parallel) in
        case common_join branches graph nodes of
          None \<Rightarrow> []
        | Some join \<Rightarrow> filter (\<lambda>members. p |\<in>| members)
            (map (\<lambda>branch. branch_members branch join graph) branches)) (parallel_nodes nodes)))"

definition validate_variable_scope ::
  "'n GraphDefinition \<Rightarrow> (string, 'n NodeDefinition) fmap \<Rightarrow> VariableDeclaration \<Rightarrow> unit checked" where
  "validate_variable_scope d nodes variable =
     (case variable_scope variable of
        ScopeRun \<Rightarrow> Ok ()
      | ScopeSession \<Rightarrow> Ok ()
      | ScopeNode \<Rightarrow>
          reject_if (\<not> (if producer variable = ''runtime'' then fcard (consumers variable) = 1
                        else fBall (consumers variable) (\<lambda>c. c = producer variable)))
            (Variables (InvalidVariableScope (variable_name variable)
              ''node-scoped values may be consumed only by their producing node''))
      | ScopeBranch \<Rightarrow>
          rbind (reject_if (producer variable = ''runtime'')
            (Variables (InvalidVariableScope (variable_name variable)
              ''branch-scoped values require a graph-node producer''))) (\<lambda>_.
          let regions = sort_key fcard (producer_regions d nodes (producer variable)) in
          reject_if (\<not> (case regions of
                 [] \<Rightarrow> False
               | region # _ \<Rightarrow> fBall (consumers variable) (\<lambda>c. c |\<in>| region)))
            (Variables (InvalidVariableScope (variable_name variable)
              ''branch-scoped values cannot escape their innermost parallel branch''))))"

section \<open>Conditions\<close>

fun collect_path_root :: "PathSegment list \<Rightarrow> string fset \<Rightarrow> string fset" where
  "collect_path_root (Key root # _) roots = finsert root roots"
| "collect_path_root _ roots = roots"

fun collect_operand_root :: "'n Operand \<Rightarrow> string fset \<Rightarrow> string fset" where
  "collect_operand_root (Path path) roots = collect_path_root (segments path) roots"
| "collect_operand_root (Literal _) roots = roots"

fun collect_expression_roots :: "'n Expression \<Rightarrow> string fset \<Rightarrow> string fset" where
  "collect_expression_roots (Value operand) roots = collect_operand_root operand roots"
| "collect_expression_roots (Not inner) roots = collect_expression_roots inner roots"
| "collect_expression_roots (And left right) roots =
     collect_expression_roots right (collect_expression_roots left roots)"
| "collect_expression_roots (Or left right) roots =
     collect_expression_roots right (collect_expression_roots left roots)"
| "collect_expression_roots (Compare left _ right) roots =
     collect_operand_root right (collect_operand_root left roots)"
| "collect_expression_roots (Exists path) roots = collect_path_root (segments path) roots"

definition is_runtime_condition_root :: "string \<Rightarrow> bool" where
  "is_runtime_condition_root root \<longleftrightarrow>
     root \<in> set [''session'', ''model'', ''runtime'', ''budget'', ''node'', ''loop'']"

definition check_condition_root ::
  "string \<Rightarrow> string fset \<Rightarrow> (string, VariableDeclaration) fmap \<Rightarrow> string \<Rightarrow> unit checked" where
  "check_condition_root owner declared_reads variables root =
     (if is_runtime_condition_root root then Ok ()
      else rbind (reject_if (root |\<notin>| fmdom variables) (Effects (UndeclaredConditionVariable owner root))) (\<lambda>_.
           reject_if (root |\<notin>| declared_reads) (Effects (ConditionVariableNotDeclaredRead owner root))))"

definition validate_expression_variable_access ::
  "'n graph_ops \<Rightarrow> string option \<Rightarrow> string \<Rightarrow> string fset \<Rightarrow> (string, VariableDeclaration) fmap \<Rightarrow>
   ExpressionLimits \<Rightarrow> bool \<Rightarrow> unit checked" where
  "validate_expression_variable_access ops source owner declared_reads variables limits strict_variable_access =
     rbind (parse_condition ops source owner limits) (\<lambda>parsed.
     case parsed of
       None \<Rightarrow> Ok ()
     | Some expression \<Rightarrow>
         if \<not> strict_variable_access then Ok ()
         else check_all (check_condition_root owner declared_reads variables)
                (sorted_list_of_fset (collect_expression_roots expression {||})))"

section \<open>Configurations\<close>

datatype VariableValueTypeDiscriminant = ChildIdDiscriminant

fun discriminant_of :: "VariableValueType \<Rightarrow> VariableValueTypeDiscriminant option" where
  "discriminant_of VChildId = Some ChildIdDiscriminant"
| "discriminant_of _ = None"

fun discriminant_name :: "VariableValueTypeDiscriminant \<Rightarrow> string" where
  "discriminant_name ChildIdDiscriminant = ''child_id''"

definition validate_configuration_variable_access ::
  "'n NodeDefinition \<Rightarrow> (string, VariableDeclaration) fmap \<Rightarrow> unit checked" where
  "validate_configuration_variable_access nd variables =
     (case configuration nd of
        Some (NodeConfiguration.SendChildAgentMessage (ChildVariable variable) _ _ _ _ _) \<Rightarrow>
          rbind (ok_or (Rejected (Variables (UndeclaredVariableRead (node_id nd) variable)))
            (fmlookup variables variable)) (\<lambda>declaration.
          rbind (reject_if (variable |\<notin>| read_variables nd)
            (Effects (ConfigurationVariableNotDeclaredRead (node_id nd) variable))) (\<lambda>_.
          rbind (reject_if (node_id nd |\<notin>| consumers declaration)
            (Variables (UnauthorizedVariableConsumer (node_id nd) variable))) (\<lambda>_.
          reject_if (discriminant_of (value_type declaration) \<noteq> Some ChildIdDiscriminant)
            (Effects (ConfigurationVariableTypeMismatch (node_id nd) variable
              (discriminant_name ChildIdDiscriminant))))))
      | _ \<Rightarrow> Ok ())"

section \<open>The variable check\<close>

definition invalid_contributors :: "VariableDeclaration \<Rightarrow> string \<Rightarrow> GraphError" where
  "invalid_contributors variable detail =
     Variables (InvalidVariableMergeContributors (variable_name variable) detail)"

definition check_merge_contributors ::
  "(string, 'n NodeDefinition) fmap \<Rightarrow> CompilerLimits \<Rightarrow> VariableDeclaration \<Rightarrow> unit checked" where
  "check_merge_contributors nodes limits variable =
     rbind (if merge_contributors variable = {||} then Ok ()
       else
         rbind (reject_if (producer variable = ''runtime'')
           (invalid_contributors variable ''parallel merge contributors require one graph-node producer'')) (\<lambda>_.
         rbind (reject_if (mutability variable \<noteq> Mutable)
           (invalid_contributors variable ''parallel merge contributors require a mutable variable'')) (\<lambda>_.
         rbind (reject_if (variable_scope variable \<notin> {ScopeRun, ScopeSession})
           (invalid_contributors variable ''parallel merge contributors require run or session variable scope'')) (\<lambda>_.
         reject_if (merge_policy variable = None)
           (invalid_contributors variable ''parallel merge contributors require a declared merge policy''))))) (\<lambda>_.
     check_all (\<lambda>contributor.
         rbind (validate_name ''variable merge contributor'' contributor (max_name_bytes limits)) (\<lambda>_.
         rbind (reject_if (contributor = producer variable)
           (invalid_contributors variable
             ''the singular producer cannot also be an additional merge contributor'')) (\<lambda>_.
         rbind (ok_or (Rejected (Variables (UnknownVariableMergeContributor (variable_name variable) contributor)))
           (fmlookup nodes contributor)) (\<lambda>nd.
         reject_if (variable_name variable |\<notin>| write_variables nd)
           (Variables (VariableMergeContributorDoesNotWrite (variable_name variable) contributor))))))
       (sorted_list_of_fset (merge_contributors variable)))"

definition check_producer :: "(string, 'n NodeDefinition) fmap \<Rightarrow> VariableDeclaration \<Rightarrow> unit checked" where
  "check_producer nodes variable =
     rbind (reject_if (producer variable \<noteq> ''runtime'' \<and> producer variable |\<notin>| fmdom nodes)
       (Variables (UnknownVariableProducer (variable_name variable) (producer variable)))) (\<lambda>_.
     reject_if (case fmlookup nodes (producer variable) of
         Some nd \<Rightarrow> variable_name variable |\<notin>| write_variables nd | None \<Rightarrow> False)
       (Variables (VariableProducerDoesNotWrite (variable_name variable) (producer variable))))"

definition validate_declaration ::
  "'n GraphDefinition \<Rightarrow> (string, 'n NodeDefinition) fmap \<Rightarrow> CompilerLimits \<Rightarrow> VariableDeclaration \<Rightarrow> unit checked" where
  "validate_declaration d nodes limits variable =
     rbind (validate_name ''variable'' (variable_name variable) (max_name_bytes limits)) (\<lambda>_.
     rbind (if producer variable = ''runtime'' then Ok ()
            else validate_name ''variable producer'' (producer variable) (max_name_bytes limits)) (\<lambda>_.
     rbind (reject_if (max_size_bytes variable = 0 \<or> max_configuration_bytes limits < max_size_bytes variable)
       (Variables (InvalidVariableSize (variable_name variable) (max_size_bytes variable)
         (max_configuration_bytes limits)))) (\<lambda>_.
     rbind (reject_if (max_configuration_items limits < fcard (merge_contributors variable))
       (Variables (TooManyVariableMergeContributors (variable_name variable)
         (fcard (merge_contributors variable)) (max_configuration_items limits)))) (\<lambda>_.
     rbind (validate_variable_type (variable_name variable) (value_type variable) limits 1) (\<lambda>_.
     rbind (validate_variable_security variable) (\<lambda>_.
     rbind (validate_variable_merge_policy variable) (\<lambda>_.
     rbind (check_producer nodes variable) (\<lambda>_.
     rbind (check_merge_contributors nodes limits variable) (\<lambda>_.
     rbind (check_all (\<lambda>consumer.
         rbind (validate_name ''variable consumer'' consumer (max_name_bytes limits)) (\<lambda>_.
         reject_if (consumer |\<notin>| fmdom nodes)
           (Variables (UnknownVariableConsumer (variable_name variable) consumer))))
       (sorted_list_of_fset (consumers variable))) (\<lambda>_.
     rbind (reject_if (variable_scope variable = ScopeBranch \<and> merge_policy variable \<noteq> None)
       (Variables (InvalidVariableMergePolicy (variable_name variable)
         ''branch-scoped values cannot declare a shared merge policy''))) (\<lambda>_.
     validate_variable_scope d nodes variable)))))))))))"

definition check_read ::
  "(string, VariableDeclaration) fmap \<Rightarrow> 'n NodeDefinition \<Rightarrow> string \<Rightarrow> unit checked" where
  "check_read variables nd variable =
     rbind (ok_or (Rejected (Variables (UndeclaredVariableRead (node_id nd) variable)))
       (fmlookup variables variable)) (\<lambda>declaration.
     reject_if (node_id nd |\<notin>| consumers declaration)
       (Variables (UnauthorizedVariableConsumer (node_id nd) variable)))"

definition check_write ::
  "(string, VariableDeclaration) fmap \<Rightarrow> 'n NodeDefinition \<Rightarrow> string \<Rightarrow> unit checked" where
  "check_write variables nd variable =
     rbind (ok_or (Rejected (Variables (UndeclaredVariableWrite (node_id nd) variable)))
       (fmlookup variables variable)) (\<lambda>declaration.
     reject_if (producer declaration \<noteq> node_id nd \<and> node_id nd |\<notin>| merge_contributors declaration)
       (Variables (UnauthorizedVariableWriter (node_id nd) variable (producer declaration))))"

definition strict_access :: "'n GraphDefinition \<Rightarrow> bool" where
  "strict_access d \<longleftrightarrow>
     graph_variables d \<noteq> [] \<or>
     list_ex (\<lambda>nd. read_variables nd \<noteq> {||} \<or> write_variables nd \<noteq> {||}) (graph_nodes d)"

definition validate_node_access ::
  "'n graph_ops \<Rightarrow> 'n GraphDefinition \<Rightarrow> (string, VariableDeclaration) fmap \<Rightarrow> CompilerLimits \<Rightarrow>
   'n NodeDefinition \<Rightarrow> unit checked" where
  "validate_node_access ops d variables limits nd =
     rbind (check_all (check_read variables nd) (sorted_list_of_fset (read_variables nd))) (\<lambda>_.
     rbind (check_all (check_write variables nd) (sorted_list_of_fset (write_variables nd))) (\<lambda>_.
     rbind (validate_configuration_variable_access nd variables) (\<lambda>_.
     validate_expression_variable_access ops (node_condition nd) (node_id nd) (read_variables nd) variables
       (limit_expression limits) (strict_access d))))"

definition validate_variables ::
  "'n graph_ops \<Rightarrow> 'n GraphDefinition \<Rightarrow> (string, 'n NodeDefinition) fmap \<Rightarrow>
   (string, VariableDeclaration) fmap \<Rightarrow> CompilerLimits \<Rightarrow> unit checked" where
  "validate_variables ops d nodes variables limits =
     rbind (reject_if (max_variables limits < length (graph_variables d))
       (Variables (TooManyVariables (length (graph_variables d)) (max_variables limits)))) (\<lambda>_.
     rbind (check_all (validate_declaration d nodes limits) (graph_variables d)) (\<lambda>_.
     rbind (check_all (validate_node_access ops d variables limits) (graph_nodes d)) (\<lambda>_.
     check_all (\<lambda>e.
         rbind (expect_some (fmlookup nodes (edge_from e))) (\<lambda>source.
         validate_expression_variable_access ops (edge_condition e) (edge_text e) (read_variables source)
           variables (limit_expression limits) (strict_access d))) (graph_edges d))))"

section \<open>Effect outputs\<close>

datatype EffectOutputSlot =
    ToolResult
  | ApprovalResult
  | ArtifactReference
  | ChildId
  | ChildIds
  | NodeResult
  | Timestamp
  | SlotDuration

fun slot_rank :: "EffectOutputSlot \<Rightarrow> nat" where
  "slot_rank ToolResult = 0"
| "slot_rank ApprovalResult = 1"
| "slot_rank ArtifactReference = 2"
| "slot_rank ChildId = 3"
| "slot_rank ChildIds = 4"
| "slot_rank NodeResult = 5"
| "slot_rank Timestamp = 6"
| "slot_rank SlotDuration = 7"

lemma slot_rank_inject: "slot_rank a = slot_rank b \<longleftrightarrow> a = b"
  by (cases a; cases b) simp_all

text \<open>The derived \<^verbatim>\<open>Ord\<close> compares the position of the variant.\<close>

instantiation EffectOutputSlot :: linorder
begin

definition less_eq_EffectOutputSlot :: "EffectOutputSlot \<Rightarrow> EffectOutputSlot \<Rightarrow> bool" where
  "less_eq_EffectOutputSlot a b \<longleftrightarrow> slot_rank a \<le> slot_rank b"

definition less_EffectOutputSlot :: "EffectOutputSlot \<Rightarrow> EffectOutputSlot \<Rightarrow> bool" where
  "less_EffectOutputSlot a b \<longleftrightarrow> slot_rank a < slot_rank b"

instance
  by standard (auto simp: less_eq_EffectOutputSlot_def less_EffectOutputSlot_def slot_rank_inject
      dest: order_antisym)

end

fun slot_name :: "EffectOutputSlot \<Rightarrow> string" where
  "slot_name ToolResult = ''tool_result_reference''"
| "slot_name ApprovalResult = ''approval_result''"
| "slot_name ArtifactReference = ''artifact_reference''"
| "slot_name ChildId = ''child_id''"
| "slot_name ChildIds = ''child_ids''"
| "slot_name NodeResult = ''node_result_reference''"
| "slot_name Timestamp = ''timestamp''"
| "slot_name SlotDuration = ''duration''"

definition effect_output_slot :: "VariableValueType \<Rightarrow> (EffectOutputSlot option, string) result" where
  "effect_output_slot t =
     (case t of
        VBoolean \<Rightarrow> Ok None
      | VInteger \<Rightarrow> Ok None
      | VDecimal \<Rightarrow> Ok None
      | VString \<Rightarrow> Ok None
      | VEnum _ \<Rightarrow> Ok None
      | VList item_type _ \<Rightarrow>
          if item_type = VChildId then Ok (Some ChildIds)
          else if ordinary_effect_output_type item_type then Ok None
          else Err ''ordinary effect-output collections cannot contain runtime-owned slot types''
      | VMap entry_type _ \<Rightarrow>
          if ordinary_effect_output_type entry_type then Ok None
          else Err ''ordinary effect-output collections cannot contain runtime-owned slot types''
      | VArtifactReference \<Rightarrow> Ok (Some ArtifactReference)
      | VChildId \<Rightarrow> Ok (Some ChildId)
      | VToolResultReference \<Rightarrow> Ok (Some ToolResult)
      | VApprovalResult \<Rightarrow> Ok (Some ApprovalResult)
      | VNodeResultReference \<Rightarrow> Ok (Some NodeResult)
      | VTimestamp \<Rightarrow> Ok (Some Timestamp)
      | VDuration \<Rightarrow> Ok (Some SlotDuration)
      | VSessionId \<Rightarrow> Err ''session/task handles and secret references cannot be effect outputs''
      | VTaskId \<Rightarrow> Err ''session/task handles and secret references cannot be effect outputs''
      | VSecretReference \<Rightarrow> Err ''session/task handles and secret references cannot be effect outputs'')"

fun native_effect_slot_available :: "NodeKind \<Rightarrow> EffectOutputSlot \<Rightarrow> bool" where
  "native_effect_slot_available kd ToolResult = (kd = ToolExecutionGate)"
| "native_effect_slot_available kd ApprovalResult = (kd = NodeKind.UserApproval)"
| "native_effect_slot_available kd ArtifactReference = (kd = NodeKind.PersistArtifact)"
| "native_effect_slot_available kd ChildId = (kd = NodeKind.SpawnChildAgent)"
| "native_effect_slot_available kd ChildIds = (kd = NodeKind.SpawnChildAgent)"
| "native_effect_slot_available kd NodeResult = (implied_capability kd \<noteq> None)"
| "native_effect_slot_available kd Timestamp = (implied_capability kd \<noteq> None)"
| "native_effect_slot_available kd SlotDuration = (implied_capability kd \<noteq> None)"

type_synonym slot_map = "(EffectOutputSlot, string list) fmap"

fun collect_slots ::
  "(string, VariableDeclaration) fmap \<Rightarrow> 'n NodeDefinition \<Rightarrow> string list \<Rightarrow> slot_map \<Rightarrow> slot_map checked" where
  "collect_slots variables nd [] slots = Ok slots"
| "collect_slots variables nd (v # vs) slots =
     rbind (expect_some (fmlookup variables v)) (\<lambda>declaration.
     rbind (map_err (\<lambda>detail. Rejected (Effects (InvalidEffectOutputType (node_id nd) v detail)))
       (effect_output_slot (value_type declaration))) (\<lambda>found.
     case found of
       None \<Rightarrow> collect_slots variables nd vs slots
     | Some slot \<Rightarrow>
         rbind (reject_if (\<not> native_effect_slot_available (node_kind nd) slot)
           (Effects (EffectOutputSlotUnavailable (node_id nd) v (slot_name slot)))) (\<lambda>_.
         collect_slots variables nd vs (fmupd slot (targets_of slots slot @ [v]) slots))))"

definition validate_node_effects ::
  "(string, VariableDeclaration) fmap \<Rightarrow> 'n NodeDefinition \<Rightarrow> unit checked" where
  "validate_node_effects variables nd =
     (if write_variables nd = {||} then Ok ()
      else
        rbind (collect_slots variables nd (sorted_list_of_fset (write_variables nd)) fmempty) (\<lambda>slots.
        rbind (check_all (\<lambda>(slot, vs).
            reject_if (1 < length vs) (Effects (DuplicateEffectOutputSlot (node_id nd) (slot_name slot) (sort vs))))
          (sorted_list_of_fmap slots)) (\<lambda>_.
        reject_if (ChildId |\<in>| fmdom slots \<and> ChildIds |\<in>| fmdom slots)
          (Effects (AmbiguousChildEffectOutput (node_id nd) (sort (concat (fmvalues slots))))))))"

definition validate_effect_output_writes ::
  "(string, 'n NodeDefinition) fmap \<Rightarrow> (string, VariableDeclaration) fmap \<Rightarrow> unit checked" where
  "validate_effect_output_writes nodes variables =
     check_all (validate_node_effects variables) (fmvalues nodes)"

end
