(* ===== verification/Graph_Parallel.thy ===== *)
theory Graph_Parallel
  imports Graph_Variables
begin

text \<open>
  \<^verbatim>\<open>core/graph-engine/src/lib.rs\<close>, sixth part: parallel regions. A parallel node fans out to
  branches that meet again at one join node; the compiler requires the regions between
  them to be disjoint and closed, and their writes to be separate, merged or serialized.
\<close>

section \<open>Regions and writes of a branch\<close>

function region_loop ::
  "string \<Rightarrow> string \<Rightarrow> string \<Rightarrow> adjacency_map \<Rightarrow> (string, 'n NodeDefinition) fmap \<Rightarrow> string list \<Rightarrow>
   string fset \<Rightarrow> string fset checked" where
  "region_loop parallel branch join graph nodes [] members = Ok members"
| "region_loop parallel branch join graph nodes (n # queue) members =
     (if n = join \<or> n |\<in>| members then region_loop parallel branch join graph nodes queue members
      else (case fmlookup nodes n of
         None \<Rightarrow> Err Panicked
       | Some nd \<Rightarrow>
           if node_kind nd = Fail
           then region_loop parallel branch join graph nodes queue (finsert n members)
           else if node_kind nd = NodeKind.CompleteTurn \<or> node_kind nd = CompleteSession
           then Err (Rejected (Parallel (ParallelBranchTerminalCompletion parallel branch n)))
           else if targets_of graph n = []
           then Err (Rejected (Parallel (ParallelBranchBypassesJoin parallel branch n)))
           else region_loop parallel branch join graph nodes (queue @ targets_of graph n) (finsert n members)))"
  by pat_completeness auto
termination
  by (relation "measures [\<lambda>(parallel, branch, join, graph, nodes, queue, members). fcard (fmdom graph |-| members),
        \<lambda>(parallel, branch, join, graph, nodes, queue, members). length queue]")
    (auto, (metis search_decreases)+)

definition parallel_branch_region ::
  "string \<Rightarrow> string \<Rightarrow> string \<Rightarrow> adjacency_map \<Rightarrow> (string, 'n NodeDefinition) fmap \<Rightarrow> string fset checked" where
  "parallel_branch_region parallel branch join graph nodes =
     region_loop parallel branch join graph nodes [branch] {||}"

function writes_loop ::
  "('n NodeDefinition \<Rightarrow> string fset) \<Rightarrow> string \<Rightarrow> adjacency_map \<Rightarrow> (string, 'n NodeDefinition) fmap \<Rightarrow>
   string list \<Rightarrow> string fset \<Rightarrow> string fset \<Rightarrow> string fset" where
  "writes_loop writes join graph nodes [] visited acc = acc"
| "writes_loop writes join graph nodes (n # queue) visited acc =
     (if n = join \<or> n |\<in>| visited then writes_loop writes join graph nodes queue visited acc
      else writes_loop writes join graph nodes (queue @ targets_of graph n) (finsert n visited)
             (case fmlookup nodes n of Some nd \<Rightarrow> acc |\<union>| writes nd | None \<Rightarrow> acc))"
  by pat_completeness auto
termination
  by (relation "measures [\<lambda>(writes, join, graph, nodes, queue, visited, acc). fcard (fmdom graph |-| visited),
        \<lambda>(writes, join, graph, nodes, queue, visited, acc). length queue]")
    (auto, (metis search_decreases)+)

definition branch_write_scopes ::
  "string \<Rightarrow> string \<Rightarrow> adjacency_map \<Rightarrow> (string, 'n NodeDefinition) fmap \<Rightarrow> string fset" where
  "branch_write_scopes branch join graph nodes = writes_loop write_scopes join graph nodes [branch] {||} {||}"

definition branch_write_variables ::
  "string \<Rightarrow> string \<Rightarrow> adjacency_map \<Rightarrow> (string, 'n NodeDefinition) fmap \<Rightarrow> string fset" where
  "branch_write_variables branch join graph nodes = writes_loop write_variables join graph nodes [branch] {||} {||}"

section \<open>Topology\<close>

text \<open>\<^verbatim>\<open>let Some(NodeConfiguration::ParallelBranch { .. }) = &node.configuration else ..\<close> and its like.\<close>

definition parallel_configuration :: "'n NodeDefinition \<Rightarrow> ParallelConfiguration option" where
  "parallel_configuration nd =
     (case configuration nd of Some (NodeConfiguration.ParallelBranch c) \<Rightarrow> Some c | _ \<Rightarrow> None)"

definition join_configuration :: "'n NodeDefinition \<Rightarrow> JoinConfiguration option" where
  "join_configuration nd =
     (case configuration nd of Some (NodeConfiguration.JoinResults c) \<Rightarrow> Some c | _ \<Rightarrow> None)"


fun check_fanout ::
  "string \<Rightarrow> string \<Rightarrow> nat \<Rightarrow> EdgeDefinition list \<Rightarrow> string fset \<times> string fset \<Rightarrow> (string fset \<times> string fset) checked" where
  "check_fanout parallel join maximum [] st = Ok st"
| "check_fanout parallel join maximum (e # es) (labels, targets) =
     rbind (reject_if (edge_condition e \<noteq> None) (Parallel (ConditionalParallelFanout parallel (edge_to e)))) (\<lambda>_.
     rbind (ok_or (Rejected (Parallel (UnlabeledParallelFanout parallel (edge_to e)))) (edge_label e)) (\<lambda>label.
     rbind (validate_name ''parallel member reference'' label maximum) (\<lambda>_.
     rbind (reject_if (label |\<in>| labels) (Parallel (DuplicateParallelMemberReference parallel label))) (\<lambda>_.
     rbind (reject_if (edge_to e = join) (Parallel (InvalidParallelJoinTarget parallel join))) (\<lambda>_.
     rbind (reject_if (edge_to e |\<in>| targets) (Parallel (DuplicateParallelBranchTarget parallel (edge_to e)))) (\<lambda>_.
     check_fanout parallel join maximum es (finsert label labels, finsert (edge_to e) targets)))))))"

definition index_pairs :: "nat \<Rightarrow> (nat \<times> nat) list" where
  "index_pairs n = concat (map (\<lambda>left. map (\<lambda>right. (left, right)) [left + 1..<n]) [0..<n])"

definition join_policy_mismatch :: "ParallelConfiguration \<Rightarrow> JoinConfiguration \<Rightarrow> nat \<Rightarrow> bool" where
  "join_policy_mismatch c j target_count =
     (case join_policy c of
        RequireAll \<Rightarrow> join_optional j \<noteq> {||} \<or> fcard (join_required j) \<noteq> target_count \<or>
          join_minimum_successes j \<noteq> target_count
      | RequireMinimum \<Rightarrow> join_failure_policy j \<noteq> MinimumSuccess)"

definition check_overlaps :: "string \<Rightarrow> string list \<Rightarrow> string fset list \<Rightarrow> unit checked" where
  "check_overlaps parallel branches regions =
     check_all (\<lambda>(left, right).
         case first_common (regions ! left) (regions ! right) of
           Some shared \<Rightarrow> Err (Rejected (Parallel (OverlappingParallelBranchRegions parallel
             [branches ! left, branches ! right] shared)))
         | None \<Rightarrow> Ok ()) (index_pairs (length regions))"

definition check_region_entries ::
  "string \<Rightarrow> adjacency_map \<Rightarrow> (string \<times> string fset) list \<Rightarrow> unit checked" where
  "check_region_entries parallel reverse branch_regions =
     check_all (\<lambda>(branch, region).
         check_all (\<lambda>member.
             check_all (\<lambda>source.
                 reject_if (\<not> (member = branch \<and> source = parallel) \<and> source |\<notin>| region)
                   (Parallel (ExternalParallelBranchEntry parallel branch source member)))
               (targets_of reverse member)) (sorted_list_of_fset region)) branch_regions"

definition validate_parallel_topology ::
  "'n NodeDefinition \<Rightarrow> EdgeDefinition list \<Rightarrow> adjacency_map \<Rightarrow> adjacency_map \<Rightarrow>
   (string, 'n NodeDefinition) fmap \<Rightarrow> CompilerLimits \<Rightarrow> string list checked" where
  "validate_parallel_topology parallel outgoing graph reverse nodes limits =
     (let p = node_id parallel in
     rbind (reject_if (length outgoing < 2) (Parallel (ParallelNeedsBranches p))) (\<lambda>_.
     case parallel_configuration parallel of
       Some c \<Rightarrow>
         (let active_capacity = (if serialization_policy c \<noteq> None then 1 else parallel_max_parallelism c);
              total_capacity = saturating_add_usize active_capacity (max_queue_depth c)
          in
          rbind (fail_if (total_capacity < length outgoing)
            (invalid_configuration parallel ''parallel fan-out exceeds active plus queued branch capacity'')) (\<lambda>_.
          rbind (ok_or (Rejected (Parallel (InvalidParallelJoinTarget p (join_target c))))
            (fmlookup nodes (join_target c))) (\<lambda>join.
          case join_configuration join of
            Some j \<Rightarrow>
              rbind (check_fanout p (join_target c) (max_name_bytes limits) outgoing ({||}, {||})) (\<lambda>(labels, targets).
              let configured_members = join_required j |\<union>| join_optional j in
              rbind (reject_if (labels \<noteq> configured_members)
                (Parallel (ParallelJoinMemberMismatch p (node_id join) (sorted_list_of_fset labels)
                  (sorted_list_of_fset configured_members)))) (\<lambda>_.
              rbind (reject_if (join_policy_mismatch c j (fcard targets))
                (Parallel (ParallelJoinPolicyMismatch p (node_id join)))) (\<lambda>_.
              let branches = map edge_to outgoing in
              rbind (try_map (\<lambda>branch. parallel_branch_region p branch (join_target c) graph nodes) branches) (\<lambda>regions.
              rbind (check_overlaps p branches regions) (\<lambda>_.
              rbind (check_region_entries p reverse (zip branches regions)) (\<lambda>_.
              rbind (check_all (\<lambda>source.
                  reject_if (\<not> list_ex (\<lambda>region. source |\<in>| region) regions)
                    (Parallel (ExternalParallelJoinEntry p (node_id join) source)))
                (targets_of reverse (join_target c))) (\<lambda>_.
              Ok branches)))))))
          | None \<Rightarrow> Err (invalid_configuration join
                  ''configured parallel join requires typed join_results configuration''))))
     | None \<Rightarrow> Err (invalid_configuration parallel ''parallel_branch requires typed configuration'')))"

section \<open>Ownership of merged variables\<close>

definition region_index :: "string \<Rightarrow> string fset list \<Rightarrow> nat option" where
  "region_index writer regions =
     (case filter (\<lambda>i. writer |\<in>| regions ! i) [0..<length regions] of [] \<Rightarrow> None | i # _ \<Rightarrow> Some i)"

definition writers_of :: "VariableDeclaration \<Rightarrow> string fset" where
  "writers_of v = finsert (producer v) (merge_contributors v)"

definition writer_regions :: "VariableDeclaration \<Rightarrow> string fset list \<Rightarrow> nat fset" where
  "writer_regions v regions =
     fset_of_list (List.map_filter (\<lambda>w. region_index w regions) (sorted_list_of_fset (writers_of v)))"

type_synonym owner_map = "(string, (string \<times> VariableMergePolicy option) list) fmap"

fun record_owner ::
  "string \<Rightarrow> ParallelConfiguration \<Rightarrow> string fset list \<Rightarrow> VariableDeclaration list \<Rightarrow> owner_map \<Rightarrow> owner_map checked" where
  "record_owner parallel c regions [] owners = Ok owners"
| "record_owner parallel c regions (v # vs) owners =
     (if fcard (writer_regions v regions) = fcard (writers_of v)
      then rbind (expect_some (fmlookup owners (variable_name v))) (\<lambda>found.
           record_owner parallel c regions vs
             (fmupd (variable_name v)
               (found @ [(parallel, fmlookup (variable_merge_policies c) (variable_name v))]) owners))
      else record_owner parallel c regions vs owners)"

fun collect_owners ::
  "'n GraphDefinition \<Rightarrow> (string, 'n NodeDefinition) fmap \<Rightarrow> VariableDeclaration list \<Rightarrow> adjacency_map \<Rightarrow>
   'n NodeDefinition list \<Rightarrow> owner_map \<Rightarrow> owner_map checked" where
  "collect_owners d nodes merged graph [] owners = Ok owners"
| "collect_owners d nodes merged graph (parallel # ps) owners =
     (case parallel_configuration parallel of
        Some c \<Rightarrow>
          rbind (try_map (\<lambda>branch. parallel_branch_region (node_id parallel) branch (join_target c) graph nodes)
            (map edge_to (filter (\<lambda>e. edge_from e = node_id parallel) (graph_edges d)))) (\<lambda>regions.
          rbind (record_owner (node_id parallel) c regions merged owners)
            (collect_owners d nodes merged graph ps))
      | None \<Rightarrow> collect_owners d nodes merged graph ps owners)"

definition check_owner :: "owner_map \<Rightarrow> VariableDeclaration \<Rightarrow> unit checked" where
  "check_owner owners v =
     rbind (expect_some (fmlookup owners (variable_name v))) (\<lambda>found.
     case found of
       [(owner, configured_policy)] \<Rightarrow>
         if configured_policy \<noteq> merge_policy v
         then rbind (expect_some (merge_policy v)) (\<lambda>declared.
              Err (Rejected (Parallel (ParallelMergeContributorPolicyMismatch (variable_name v) owner
                declared configured_policy))))
         else Ok ()
     | [] \<Rightarrow> Err (Rejected (Parallel (InvalidParallelMergeContributorOwnership (variable_name v)
         ''producer and contributors must occupy distinct branches of one exact parallel region before its configured join'')))
     | _ \<Rightarrow> Err (Rejected (Parallel (InvalidParallelMergeContributorOwnership (variable_name v)
         ''producer and contributors match more than one parallel region''))))"

definition merged_variables :: "(string, VariableDeclaration) fmap \<Rightarrow> VariableDeclaration list" where
  "merged_variables variables = filter (\<lambda>v. merge_contributors v \<noteq> {||}) (fmvalues variables)"

definition validate_parallel_merge_contributor_ownership ::
  "'n GraphDefinition \<Rightarrow> (string, 'n NodeDefinition) fmap \<Rightarrow> (string, VariableDeclaration) fmap \<Rightarrow>
   adjacency_map \<Rightarrow> unit checked" where
  "validate_parallel_merge_contributor_ownership d nodes variables graph =
     (let merged = merged_variables variables;
          contributor_owners = fmap_of_list (map (\<lambda>v. (variable_name v, [])) merged)
      in rbind (collect_owners d nodes merged graph (parallel_nodes nodes) contributor_owners) (\<lambda>owners.
         check_all (check_owner owners) merged))"

section \<open>The parallel check\<close>

definition check_scope_conflicts ::
  "string \<Rightarrow> ParallelConfiguration \<Rightarrow> string list \<Rightarrow> string fset list \<Rightarrow> unit checked" where
  "check_scope_conflicts parallel c branches scopes =
     check_all (\<lambda>(left, right).
         if serialization_policy c \<noteq> None then Ok ()
         else (case first_common (scopes ! left) (scopes ! right) of
                 Some scope \<Rightarrow> Err (Rejected (Parallel (ConflictingParallelWrites parallel scope
                   [branches ! left, branches ! right])))
               | None \<Rightarrow> Ok ())) (index_pairs (length branches))"

definition check_variable_conflicts ::
  "string \<Rightarrow> ParallelConfiguration \<Rightarrow> (string, VariableDeclaration) fmap \<Rightarrow> string list \<Rightarrow> string fset list \<Rightarrow> unit checked" where
  "check_variable_conflicts parallel c variables branches written =
     check_all (\<lambda>(left, right).
         check_all (\<lambda>variable.
             rbind (expect_some (fmlookup variables variable)) (\<lambda>declaration.
             let configured_policy = fmlookup (variable_merge_policies c) variable;
                 serialized = (serialization_policy c \<noteq> None);
                 has_merge = (merge_policy declaration \<noteq> None \<or> configured_policy \<noteq> None)
             in reject_if (variable_scope declaration \<noteq> ScopeBranch \<and> \<not> has_merge \<and> \<not> serialized)
                  (Parallel (ConflictingParallelVariableWrites parallel variable
                    [branches ! left, branches ! right]))))
           (sorted_list_of_fset (written ! left |\<inter>| written ! right))) (index_pairs (length branches))"

definition validate_parallel_node ::
  "'n GraphDefinition \<Rightarrow> (string, 'n NodeDefinition) fmap \<Rightarrow> (string, VariableDeclaration) fmap \<Rightarrow> CompilerLimits \<Rightarrow>
   'n NodeDefinition \<Rightarrow> unit checked" where
  "validate_parallel_node d nodes variables limits parallel =
     (let graph = adjacency d; reverse = reverse_adjacency d; p = node_id parallel;
          outgoing = filter (\<lambda>e. edge_from e = p) (graph_edges d)
      in
      rbind (validate_parallel_topology parallel outgoing graph reverse nodes limits) (\<lambda>branches.
      rbind (reject_if (length branches < 2) (Parallel (ParallelNeedsBranches p))) (\<lambda>_.
      case parallel_configuration parallel of
        Some c \<Rightarrow>
          (let join = join_target c;
               scopes = map (\<lambda>branch. branch_write_scopes branch join graph nodes) branches;
               written = map (\<lambda>branch. branch_write_variables branch join graph nodes) branches
           in
           rbind (check_scope_conflicts p c branches scopes) (\<lambda>_.
           rbind (check_variable_conflicts p c variables branches written) (\<lambda>_.
           check_all (\<lambda>variable.
               reject_if (variable |\<notin>| fmdom variables) (Parallel (UnknownParallelMergeVariable p variable)))
             (sorted_list_of_fset (fmdom (variable_merge_policies c))))))
      | None \<Rightarrow> Err (invalid_configuration parallel ''parallel_branch requires typed configuration''))))"

definition validate_parallel_writes ::
  "'n GraphDefinition \<Rightarrow> (string, 'n NodeDefinition) fmap \<Rightarrow> (string, VariableDeclaration) fmap \<Rightarrow> CompilerLimits \<Rightarrow>
   unit checked" where
  "validate_parallel_writes d nodes variables limits =
     rbind (check_all (validate_parallel_node d nodes variables limits) (parallel_nodes nodes)) (\<lambda>_.
     validate_parallel_merge_contributor_ownership d nodes variables (adjacency d))"

end
