(* ===== verification/Graph_Shape.thy ===== *)
theory Graph_Shape
  imports Graph_Structure
begin

text \<open>
  What the shape checks of the graph compiler accept: the collected maps hold exactly the
  listed items, the breadth-first search is exact, reachability and termination checks
  decide the stated path properties, and the cycle check accepts exactly the graphs whose
  cycles all pass through a loop node.
\<close>

section \<open>Collected maps\<close>

lemma collect_by_Ok:
  "collect_by key dup xs m = Ok m' \<longleftrightarrow>
   distinct (map key xs) \<and> (\<forall>x \<in> set xs. key x |\<notin>| fmdom m) \<and>
   m' = fold (\<lambda>x. fmupd (key x) x) xs m"
  by (induction xs arbitrary: m) (auto simp: image_iff)

lemma fmlookup_fold_upd:
  "distinct (map key xs) \<Longrightarrow>
   fmlookup (fold (\<lambda>x. fmupd (key x) x) xs fmempty) k = Some x \<longleftrightarrow> x \<in> set xs \<and> key x = k"
proof (induction xs rule: rev_induct)
  case (snoc y ys)
  then show ?case by auto
qed simp

lemma collect_by_lookup:
  "collect_by key dup xs fmempty = Ok m \<Longrightarrow> fmlookup m k = Some x \<longleftrightarrow> x \<in> set xs \<and> key x = k"
  by (auto simp: collect_by_Ok fmlookup_fold_upd)

lemma collect_by_dom:
  assumes "collect_by key dup xs fmempty = Ok m"
  shows "fset (fmdom m) = key ` set xs"
proof -
  have "k |\<in>| fmdom m \<longleftrightarrow> (\<exists>x. fmlookup m k = Some x)" for k
    by (auto simp: fmlookup_dom_iff)
  then show ?thesis using collect_by_lookup [OF assms] by auto
qed

lemma collect_by_no_panic: "collect_by key dup xs m \<noteq> Err Panicked"
  by (induction xs arbitrary: m) auto

lemma set_fmvalues: "set (fmvalues m) = {v. \<exists>k. fmlookup m k = Some v}"
  by (auto simp: fmvalues_def sorted_list_of_fmap_def fmlookup_dom_iff image_iff) (metis fmlookup_dom_iff option.sel)+

lemma collect_by_values: "collect_by key dup xs fmempty = Ok m \<Longrightarrow> set (fmvalues m) = set xs"
  by (auto simp: set_fmvalues collect_by_lookup)

text \<open>The node map of a definition; the maps are what the checks below receive.\<close>

definition node_map_of :: "'n GraphDefinition \<Rightarrow> (string, 'n NodeDefinition) fmap \<Rightarrow> bool" where
  "node_map_of d nodes \<longleftrightarrow>
     distinct (map node_id (graph_nodes d)) \<and>
     (\<forall>k nd. fmlookup nodes k = Some nd \<longleftrightarrow> nd \<in> set (graph_nodes d) \<and> node_id nd = k)"

lemma collect_nodes_map: "collect_nodes d = Ok nodes \<Longrightarrow> node_map_of d nodes"
  using collect_by_lookup unfolding collect_nodes_def node_map_of_def
  by (auto simp: collect_by_Ok fmlookup_fold_upd)

lemma node_map_dom: "node_map_of d nodes \<Longrightarrow> fset (fmdom nodes) = node_id ` set (graph_nodes d)"
  by (auto simp: node_map_of_def fmlookup_dom_iff)

lemma node_map_values: "node_map_of d nodes \<Longrightarrow> set (fmvalues nodes) = set (graph_nodes d)"
  by (auto simp: set_fmvalues node_map_of_def)

lemma node_map_lookup: "node_map_of d nodes \<Longrightarrow> nd \<in> set (graph_nodes d) \<Longrightarrow> fmlookup nodes (node_id nd) = Some nd"
  by (simp add: node_map_of_def)

section \<open>Edges\<close>

definition edge_rel :: "'n GraphDefinition \<Rightarrow> (string \<times> string) set" where
  "edge_rel d = (\<lambda>e. (edge_from e, edge_to e)) ` set (graph_edges d)"

lemma validate_edge_list_Ok:
  "validate_edge_list known maximum es seen = Ok () \<Longrightarrow>
   (\<forall>e \<in> set es. edge_from e |\<in>| known \<and> edge_to e |\<in>| known \<and> identity_of e |\<notin>| seen) \<and>
   distinct (map identity_of es)"
proof (induction known maximum es seen rule: validate_edge_list.induct)
  case (2 known maximum e es seen)
  then have e: "edge_from e |\<in>| known" "edge_to e |\<in>| known" "identity_of e |\<notin>| seen"
    and es: "validate_edge_list known maximum es (finsert (identity_of e) seen) = Ok ()"
    by (auto simp: result_simps split: option.splits)
  have "(\<forall>x \<in> set es. edge_from x |\<in>| known \<and> edge_to x |\<in>| known \<and>
      identity_of x |\<notin>| finsert (identity_of e) seen) \<and> distinct (map identity_of es)"
    by (rule "2.IH" [OF _ _ _ _ _ _ es]) (use "2.prems" in \<open>auto simp: result_simps split: option.splits\<close>)
  then show ?case using e by auto
qed simp

lemma validate_edges_Ok:
  "validate_edges d nodes limits = Ok () \<Longrightarrow>
   edge_rel d \<subseteq> fset (fmdom nodes) \<times> fset (fmdom nodes) \<and> distinct (map identity_of (graph_edges d))"
  unfolding validate_edges_def edge_rel_def by (drule validate_edge_list_Ok) auto

lemma targets_of_empty [simp]: "targets_of fmempty a = []"
  by (simp add: targets_of_def)

lemma targets_of_push:
  "targets_of (push_target k t m) a = (if a = k then targets_of m k @ [t] else targets_of m a)"
  by (simp add: targets_of_def push_target_def)

lemma targets_of_or_default: "targets_of (or_default k m) a = targets_of m a"
  by (auto simp: targets_of_def or_default_def fmdom_notD split: option.splits)

lemma targets_of_init: "targets_of (fold (\<lambda>nd. or_default (node_id nd)) nds m) a = targets_of m a"
  by (induction nds arbitrary: m) (auto simp: targets_of_or_default)

lemma targets_of_fold_push:
  "targets_of (fold (\<lambda>e. push_target (f e) (g e)) es m) a = targets_of m a @ map g (filter (\<lambda>e. f e = a) es)"
  by (induction es arbitrary: m) (auto simp: targets_of_push)

lemma targets_of_fmmap: "f [] = [] \<Longrightarrow> targets_of (fmmap f m) a = f (targets_of m a)"
  by (auto simp: targets_of_def split: option.splits)

lemma targets_of_adjacency:
  "targets_of (adjacency d) a = remdups_adj (sort (map edge_to (filter (\<lambda>e. edge_from e = a) (graph_edges d))))"
  unfolding adjacency_def by (simp add: targets_of_fmmap targets_of_fold_push targets_of_init)

lemma adjacency_targets: "set (targets_of (adjacency d) a) = {b. (a, b) \<in> edge_rel d}"
  by (auto simp: targets_of_adjacency edge_rel_def image_iff)

lemma distinct_remdups_adj_sorted: "sorted xs \<Longrightarrow> distinct (remdups_adj xs)"
  by (induction xs rule: remdups_adj.induct) auto

lemma adjacency_distinct: "distinct (targets_of (adjacency d) a)"
  by (simp add: targets_of_adjacency distinct_remdups_adj_sorted)

lemma targets_of_reverse:
  "targets_of (reverse_adjacency d) b = map edge_from (filter (\<lambda>e. edge_to e = b) (graph_edges d))"
  unfolding reverse_adjacency_def by (simp add: targets_of_fold_push targets_of_init)

lemma reverse_targets: "set (targets_of (reverse_adjacency d) b) = {a. (a, b) \<in> edge_rel d}"
  by (auto simp: targets_of_reverse edge_rel_def image_iff)

section \<open>Search\<close>

definition live_edges :: "('a \<Rightarrow> bool) \<Rightarrow> ('a, 'a list) fmap \<Rightarrow> ('a \<times> 'a) set" where
  "live_edges stop graph = {(a, b). b \<in> set (targets_of graph a) \<and> \<not> stop a \<and> \<not> stop b}"

lemma search_sound:
  "n |\<in>| search stop graph queue members \<Longrightarrow>
   n |\<in>| members \<or> (\<exists>q \<in> set queue. \<not> stop q \<and> (q, n) \<in> (live_edges stop graph)\<^sup>*)"
proof (induction stop graph queue members rule: search.induct)
  case (2 stop graph q queue members)
  show ?case
  proof (cases "stop q \<or> q |\<in>| members")
    case False
    with 2 have "n |\<in>| finsert q members \<or>
        (\<exists>p \<in> set (queue @ targets_of graph q). \<not> stop p \<and> (p, n) \<in> (live_edges stop graph)\<^sup>*)"
      by simp
    moreover have "(q, p) \<in> live_edges stop graph" if "p \<in> set (targets_of graph q)" "\<not> stop p" for p
      using that False by (simp add: live_edges_def)
    ultimately show ?thesis using False by (auto intro: converse_rtrancl_into_rtrancl)
  qed (use 2 in auto)
qed simp

text \<open>Nothing is left behind: the result is closed under edges that do not lead to stop nodes.\<close>

lemma search_closed:
  assumes "\<And>m. m |\<in>| members \<Longrightarrow> \<not> stop m"
    and "\<And>m b. m |\<in>| members \<Longrightarrow> b \<in> set (targets_of graph m) \<Longrightarrow> stop b \<or> b |\<in>| members \<or> b \<in> set queue"
  shows "fset members \<union> {q \<in> set queue. \<not> stop q} \<subseteq> fset (search stop graph queue members) \<and>
    live_edges stop graph `` fset (search stop graph queue members) \<subseteq> fset (search stop graph queue members)"
  using assms
proof (induction stop graph queue members rule: search.induct)
  case (1 stop graph members)
  then show ?case by (fastforce simp: live_edges_def)
next
  case (2 stop graph q queue members)
  show ?case
  proof (cases "stop q \<or> q |\<in>| members")
    case True
    then have "fset members \<union> {q \<in> set queue. \<not> stop q} \<subseteq> fset (search stop graph queue members) \<and>
      live_edges stop graph `` fset (search stop graph queue members) \<subseteq> fset (search stop graph queue members)"
      using "2.prems" by (intro "2.IH"(1)) auto
    then show ?thesis using True by auto
  next
    case False
    then have "fset (finsert q members) \<union> {p \<in> set (queue @ targets_of graph q). \<not> stop p} \<subseteq>
        fset (search stop graph (queue @ targets_of graph q) (finsert q members)) \<and>
      live_edges stop graph `` fset (search stop graph (queue @ targets_of graph q) (finsert q members)) \<subseteq>
        fset (search stop graph (queue @ targets_of graph q) (finsert q members))"
      using "2.prems" by (intro "2.IH"(2)) auto
    then show ?thesis using False by auto
  qed
qed

lemma search_exact:
  "fset (search stop graph [s] {||}) = (if stop s then {} else (live_edges stop graph)\<^sup>* `` {s})"
proof (intro equalityI subsetI)
  fix n assume "n \<in> fset (search stop graph [s] {||})"
  then show "n \<in> (if stop s then {} else (live_edges stop graph)\<^sup>* `` {s})"
    using search_sound [of n stop graph "[s]" "{||}"] by auto
next
  fix n assume n: "n \<in> (if stop s then {} else (live_edges stop graph)\<^sup>* `` {s})"
  let ?S = "fset (search stop graph [s] {||})"
  have closed: "s \<in> ?S \<or> stop s" "live_edges stop graph `` ?S \<subseteq> ?S"
    using search_closed [of "{||}" stop graph "[s]"] by auto
  from n have "(s, n) \<in> (live_edges stop graph)\<^sup>*" "\<not> stop s" by (auto split: if_splits)
  then show "n \<in> ?S" using closed by (induction rule: rtrancl_induct) auto
qed

lemma reachable_from_iff: "n |\<in>| reachable_from s graph \<longleftrightarrow> (s, n) \<in> (live_edges (\<lambda>_. False) graph)\<^sup>*"
  unfolding reachable_from_def by (subst search_exact) simp

lemma live_adjacency: "live_edges (\<lambda>_. False) (adjacency d) = edge_rel d"
  by (auto simp: live_edges_def adjacency_targets)

lemma live_reverse: "live_edges (\<lambda>_. False) (reverse_adjacency d) = (edge_rel d)\<inverse>"
  by (auto simp: live_edges_def reverse_targets)

lemma reachable_forward: "n |\<in>| reachable_from s (adjacency d) \<longleftrightarrow> (s, n) \<in> (edge_rel d)\<^sup>*"
  by (simp add: reachable_from_iff live_adjacency)

lemma reachable_backward: "n |\<in>| reachable_from s (reverse_adjacency d) \<longleftrightarrow> (n, s) \<in> (edge_rel d)\<^sup>*"
  by (simp add: reachable_from_iff live_reverse rtrancl_converse)

section \<open>Reachability and termination\<close>

lemma validate_entry_Ok:
  "validate_entry_and_reachability d nodes = Ok () \<longleftrightarrow>
   graph_entry d |\<in>| fmdom nodes \<and> (\<forall>n. n |\<in>| fmdom nodes \<longrightarrow> (graph_entry d, n) \<in> (edge_rel d)\<^sup>*)"
  by (auto simp: validate_entry_and_reachability_def result_simps Let_def filter_empty_conv reachable_forward)

lemma fold_reachable:
  "n |\<in>| fold (\<lambda>t acc. acc |\<union>| f t) ts acc \<longleftrightarrow> n |\<in>| acc \<or> (\<exists>t \<in> set ts. n |\<in>| f t)"
  by (induction ts arbitrary: acc) auto

lemma set_terminals:
  "node_map_of d nodes \<Longrightarrow>
   set (terminals nodes) = node_id ` {nd \<in> set (graph_nodes d). is_terminal (node_kind nd)}"
  by (auto simp: terminals_def node_map_values)

lemma validate_termination_Ok:
  assumes "node_map_of d nodes"
  shows "validate_termination d nodes = Ok () \<longleftrightarrow>
    (\<exists>nd \<in> set (graph_nodes d). is_terminal (node_kind nd)) \<and>
    (\<forall>nd \<in> set (graph_nodes d). is_terminal (node_kind nd) \<longrightarrow> edge_rel d `` {node_id nd} = {}) \<and>
    (\<forall>n. n |\<in>| fmdom nodes \<longrightarrow>
       (\<exists>nd \<in> set (graph_nodes d). is_terminal (node_kind nd) \<and> (n, node_id nd) \<in> (edge_rel d)\<^sup>*))"
proof -
  have none: "targets_of (adjacency d) a = [] \<longleftrightarrow> edge_rel d `` {a} = {}" for a
  proof -
    have "targets_of (adjacency d) a = [] \<longleftrightarrow> set (targets_of (adjacency d) a) = {}" by simp
    then show ?thesis unfolding adjacency_targets by auto
  qed
  have "terminals nodes = [] \<longleftrightarrow> \<not> (\<exists>nd \<in> set (graph_nodes d). is_terminal (node_kind nd))"
  proof -
    have "terminals nodes = [] \<longleftrightarrow> set (terminals nodes) = {}" by simp
    then show ?thesis unfolding set_terminals [OF assms] by auto
  qed
  then show ?thesis
    unfolding validate_termination_def Let_def rbind_eq_Ok fail_if_eq_Ok check_all_eq_Ok
    by (simp add: filter_empty_conv fold_reachable reachable_backward none set_terminals [OF assms]) blast
qed


section \<open>The cycle check\<close>

text \<open>The nodes that are not loops, and the edges between them.\<close>

definition plain_nodes :: "'n GraphDefinition \<Rightarrow> string set" where
  "plain_nodes d = node_id ` {nd \<in> set (graph_nodes d). node_kind nd \<noteq> Loop}"

definition plain_edges :: "'n GraphDefinition \<Rightarrow> (string \<times> string) set" where
  "plain_edges d = edge_rel d \<inter> plain_nodes d \<times> plain_nodes d"

interpretation plain_graph: kahn_graph "plain_nodes d" "plain_edges d" for d
  by unfold_locales (auto simp: plain_nodes_def plain_edges_def)

lemma loop_nodes_iff:
  assumes "node_map_of d nodes" and "n |\<in>| fmdom nodes"
  shows "n |\<in>| loop_nodes nodes \<longleftrightarrow> n \<notin> plain_nodes d"
proof -
  obtain nd where nd: "nd \<in> set (graph_nodes d)" "n = node_id nd"
    using assms node_map_dom [of d nodes] by auto
  have uniq: "nd' = nd" if "nd' \<in> set (graph_nodes d)" "node_id nd' = n" for nd'
    using that nd assms(1) by (metis node_map_lookup option.inject)
  have "n |\<in>| loop_nodes nodes \<longleftrightarrow> (\<exists>nd' \<in> set (graph_nodes d). node_kind nd' = Loop \<and> node_id nd' = n)"
    by (auto simp: loop_nodes_def node_map_values [OF assms(1)] fset_of_list_elem)
  moreover have "n \<in> plain_nodes d \<longleftrightarrow> (\<exists>nd' \<in> set (graph_nodes d). node_kind nd' \<noteq> Loop \<and> node_id nd' = n)"
    by (auto simp: plain_nodes_def)
  ultimately show ?thesis using nd uniq by blast
qed

lemma plain_nodes_dom: "node_map_of d nodes \<Longrightarrow> n \<in> plain_nodes d \<Longrightarrow> n |\<in>| fmdom nodes"
  by (auto simp: node_map_dom plain_nodes_def)

lemma fmlookup_zero_counters:
  assumes "node_map_of d nodes"
  shows "fmlookup (zero_counters nodes) n = (if n \<in> plain_nodes d then Some 0 else None)"
proof -
  have "n \<in> set (filter (\<lambda>n. n |\<notin>| loop_nodes nodes) (sorted_list_of_fset (fmdom nodes))) \<longleftrightarrow> n \<in> plain_nodes d"
    using loop_nodes_iff [OF assms] plain_nodes_dom [OF assms] by auto
  moreover have "map_of (map (\<lambda>n. (n, 0 :: nat)) xs) n = (if n \<in> set xs then Some 0 else None)" for xs
    by (induction xs) auto
  ultimately show ?thesis unfolding zero_counters_def by (simp add: fmlookup_of_list)
qed

lemma count_targets_Ok:
  assumes "distinct ts" and "\<And>t. t \<in> set ts \<Longrightarrow> t |\<notin>| loops \<Longrightarrow> t |\<in>| fmdom inc"
  shows "\<exists>inc'. count_targets loops ts inc = Ok inc' \<and>
    (\<forall>t. fmlookup inc' t = map_option (\<lambda>c. if t \<in> set ts \<and> t |\<notin>| loops then Suc c else c) (fmlookup inc t))"
  using assms
proof (induction ts arbitrary: inc)
  case Nil
  then show ?case by (simp add: option.map_ident)
next
  case (Cons t ts)
  show ?case
  proof (cases "t |\<in>| loops")
    case True
    have "\<exists>inc'. count_targets loops ts inc = Ok inc' \<and>
        (\<forall>t. fmlookup inc' t = map_option (\<lambda>c. if t \<in> set ts \<and> t |\<notin>| loops then Suc c else c) (fmlookup inc t))"
      using Cons.prems by (intro Cons.IH) auto
    moreover have "(u \<in> set (t # ts) \<and> u |\<notin>| loops) = (u \<in> set ts \<and> u |\<notin>| loops)" for u
      using True by auto
    ultimately show ?thesis using True by simp
  next
    case False
    then obtain c where c: "fmlookup inc t = Some c"
      using Cons.prems(2) [of t] by (auto simp: fmlookup_dom_iff)
    have "\<exists>inc'. count_targets loops ts (fmupd t (Suc c) inc) = Ok inc' \<and>
        (\<forall>u. fmlookup inc' u = map_option (\<lambda>c. if u \<in> set ts \<and> u |\<notin>| loops then Suc c else c)
          (fmlookup (fmupd t (Suc c) inc) u))"
      using Cons.prems by (intro Cons.IH) auto
    then obtain inc' where run: "count_targets loops ts (fmupd t (Suc c) inc) = Ok inc'"
      and inc': "\<And>u. fmlookup inc' u = map_option (\<lambda>c. if u \<in> set ts \<and> u |\<notin>| loops then Suc c else c)
          (fmlookup (fmupd t (Suc c) inc) u)"
      by blast
    have "fmlookup inc' u = map_option (\<lambda>c. if u \<in> set (t # ts) \<and> u |\<notin>| loops then Suc c else c) (fmlookup inc u)"
      for u
      using inc' [of u] c False Cons.prems(1) by (cases "u = t") auto
    then show ?thesis using run c False by (simp add: expect_some_def)
  qed
qed

text \<open>How often a list of adjacency entries names a target from a node that is not a loop.\<close>

definition entry_count :: "string fset \<Rightarrow> (string \<times> string list) list \<Rightarrow> string \<Rightarrow> nat" where
  "entry_count loops ps t = length (filter (\<lambda>(s, ts). s |\<notin>| loops \<and> t \<in> set ts \<and> t |\<notin>| loops) ps)"

lemma count_incoming_Ok:
  assumes "\<And>s ts. (s, ts) \<in> set ps \<Longrightarrow> distinct ts \<and> (\<forall>t \<in> set ts. t |\<notin>| loops \<longrightarrow> t |\<in>| fmdom inc)"
  shows "\<exists>inc'. count_incoming loops ps inc = Ok inc' \<and>
    (\<forall>t. fmlookup inc' t = map_option (\<lambda>c. c + entry_count loops ps t) (fmlookup inc t))"
  using assms
proof (induction ps arbitrary: inc)
  case Nil
  then show ?case by (simp add: entry_count_def option.map_ident)
next
  case (Cons p ps)
  obtain s ts where p: "p = (s, ts)" by (meson surj_pair)
  show ?case
  proof (cases "s |\<in>| loops")
    case True
    obtain inc' where "count_incoming loops ps inc = Ok inc'"
      "\<And>t. fmlookup inc' t = map_option (\<lambda>c. c + entry_count loops ps t) (fmlookup inc t)"
      using Cons.IH [of inc] Cons.prems by force
    then show ?thesis using True p by (simp add: entry_count_def)
  next
    case False
    have "distinct ts" "\<And>t. t \<in> set ts \<Longrightarrow> t |\<notin>| loops \<Longrightarrow> t |\<in>| fmdom inc"
      using Cons.prems [of s ts] p by auto
    from count_targets_Ok [OF this] obtain inc1 where run1: "count_targets loops ts inc = Ok inc1"
      and inc1: "\<And>t. fmlookup inc1 t =
        map_option (\<lambda>c. if t \<in> set ts \<and> t |\<notin>| loops then Suc c else c) (fmlookup inc t)"
      by blast
    have dom: "fmdom inc1 = fmdom inc" using inc1 by (auto simp: fmlookup_dom_iff)
    then obtain inc2 where run2: "count_incoming loops ps inc1 = Ok inc2"
      and inc2: "\<And>t. fmlookup inc2 t = map_option (\<lambda>c. c + entry_count loops ps t) (fmlookup inc1 t)"
      using Cons.IH [of inc1] Cons.prems by force
    have "fmlookup inc2 t = map_option (\<lambda>c. c + entry_count loops (p # ps) t) (fmlookup inc t)" for t
      unfolding inc2 inc1 using False p by (cases "fmlookup inc t") (simp_all add: entry_count_def)
    then show ?thesis using run1 run2 False p by simp
  qed
qed

lemma adjacency_entries:
  "(s, ts) \<in> set (sorted_list_of_fmap (adjacency d)) \<Longrightarrow> ts = targets_of (adjacency d) s"
  by (auto simp: sorted_list_of_fmap_def targets_of_def fmlookup_dom_iff)

lemma adjacency_dom:
  "fset (fmdom (adjacency d)) = node_id ` set (graph_nodes d) \<union> edge_from ` set (graph_edges d)"
proof -
  have init: "fset (fmdom (fold (\<lambda>nd. or_default (node_id nd)) nds m)) = fset (fmdom m) \<union> node_id ` set nds"
    for nds :: "'n NodeDefinition list" and m :: adjacency_map
    by (induction nds arbitrary: m) (auto simp: or_default_def)
  have push: "fset (fmdom (fold (\<lambda>e. push_target (edge_from e) (edge_to e)) es m)) =
      fset (fmdom m) \<union> edge_from ` set es" for es :: "EdgeDefinition list" and m :: adjacency_map
    by (induction es arbitrary: m) (auto simp: push_target_def)
  show ?thesis unfolding adjacency_def by (simp add: init push)
qed

lemma entry_count_card:
  assumes nodes: "node_map_of d nodes"
    and edges: "edge_rel d \<subseteq> fset (fmdom nodes) \<times> fset (fmdom nodes)" and t: "t \<in> plain_nodes d"
  shows "entry_count (loop_nodes nodes) (sorted_list_of_fmap (adjacency d)) t = card {s. (s, t) \<in> plain_edges d}"
proof -
  let ?ps = "sorted_list_of_fmap (adjacency d)"
  let ?P = "\<lambda>(s, ts). s |\<notin>| loop_nodes nodes \<and> t \<in> set ts \<and> t |\<notin>| loop_nodes nodes"
  have dist: "distinct (map fst (filter ?P ?ps))"
    by (simp add: distinct_map_filter distinct_sorted_list_of_fmap)
  have tn: "t |\<notin>| loop_nodes nodes" using loop_nodes_iff [OF nodes] plain_nodes_dom [OF nodes t] t by blast
  have "set (map fst (filter ?P ?ps)) = {s. (s, t) \<in> plain_edges d}"
  proof (intro equalityI subsetI)
    fix s assume "s \<in> set (map fst (filter ?P ?ps))"
    then obtain ts where ts: "(s, ts) \<in> set ?ps" "s |\<notin>| loop_nodes nodes" "t \<in> set ts" by auto
    then have "(s, t) \<in> edge_rel d" using adjacency_entries adjacency_targets by blast
    moreover from this have "s \<in> plain_nodes d" using loop_nodes_iff [OF nodes] edges ts(2) by blast
    ultimately show "s \<in> {s. (s, t) \<in> plain_edges d}" using t by (simp add: plain_edges_def)
  next
    fix s assume "s \<in> {s. (s, t) \<in> plain_edges d}"
    then have s: "(s, t) \<in> edge_rel d" "s \<in> plain_nodes d" by (auto simp: plain_edges_def)
    then have "s |\<in>| fmdom (adjacency d)" using adjacency_dom [of d] by (auto simp: plain_nodes_def)
    then have "(s, targets_of (adjacency d) s) \<in> set ?ps"
      by (auto simp: sorted_list_of_fmap_def targets_of_def fmlookup_dom_iff image_iff)
    moreover have "t \<in> set (targets_of (adjacency d) s)" using s(1) adjacency_targets by blast
    moreover have "s |\<notin>| loop_nodes nodes"
      using loop_nodes_iff [OF nodes] plain_nodes_dom [OF nodes s(2)] s(2) by blast
    ultimately show "s \<in> set (map fst (filter ?P ?ps))" using tn by (force simp: image_iff)
  qed
  then have "card {s. (s, t) \<in> plain_edges d} = length (map fst (filter ?P ?ps))"
    using dist by (metis distinct_card)
  then show ?thesis by (simp add: entry_count_def)
qed

lemma release_nodes_Ok:
  assumes "distinct ts" and "\<And>t. t \<in> set ts \<Longrightarrow> t |\<notin>| loops \<Longrightarrow> \<exists>c. fmlookup inc t = Some (Suc c)"
  shows "\<exists>inc' ready'. release_nodes loops ts (inc, ready) = Ok (inc', ready') \<and>
    (\<forall>n. fmlookup inc' n = (if n \<in> set ts \<and> n |\<notin>| loops then map_option (\<lambda>c. c - 1) (fmlookup inc n) else fmlookup inc n)) \<and>
    fset ready' = fset ready \<union> {t \<in> set ts. t |\<notin>| loops \<and> fmlookup inc t = Some 1}"
  using assms
proof (induction ts arbitrary: inc ready)
  case Nil
  then show ?case by simp
next
  case (Cons t ts)
  show ?case
  proof (cases "t |\<in>| loops")
    case True
    have "\<exists>inc' ready'. release_nodes loops ts (inc, ready) = Ok (inc', ready') \<and>
      (\<forall>n. fmlookup inc' n = (if n \<in> set ts \<and> n |\<notin>| loops then map_option (\<lambda>c. c - 1) (fmlookup inc n) else fmlookup inc n)) \<and>
      fset ready' = fset ready \<union> {t \<in> set ts. t |\<notin>| loops \<and> fmlookup inc t = Some 1}"
      using Cons.prems by (intro Cons.IH) auto
    moreover have "{u \<in> set (t # ts). u |\<notin>| loops \<and> fmlookup inc u = Some 1} =
        {u \<in> set ts. u |\<notin>| loops \<and> fmlookup inc u = Some 1}" using True by auto
    moreover have "(n \<in> set (t # ts) \<and> n |\<notin>| loops) = (n \<in> set ts \<and> n |\<notin>| loops)" for n using True by auto
    ultimately show ?thesis using True by simp
  next
    case False
    then obtain c where c: "fmlookup inc t = Some (Suc c)" using Cons.prems by (metis list.set_intros(1))
    let ?ready = "if c = 0 then finsert t ready else ready"
    have other: "fmlookup (fmupd t c inc) u = fmlookup inc u" if "u \<in> set ts" for u
      using that Cons.prems(1) by auto
    have "\<exists>inc' ready'. release_nodes loops ts (fmupd t c inc, ?ready) = Ok (inc', ready') \<and>
      (\<forall>n. fmlookup inc' n = (if n \<in> set ts \<and> n |\<notin>| loops
        then map_option (\<lambda>c. c - 1) (fmlookup (fmupd t c inc) n) else fmlookup (fmupd t c inc) n)) \<and>
      fset ready' = fset ?ready \<union> {u \<in> set ts. u |\<notin>| loops \<and> fmlookup (fmupd t c inc) u = Some 1}"
      using Cons.prems other by (intro Cons.IH) auto
    then obtain inc' ready' where run: "release_nodes loops ts (fmupd t c inc, ?ready) = Ok (inc', ready')"
      and inc': "\<And>n. fmlookup inc' n = (if n \<in> set ts \<and> n |\<notin>| loops
        then map_option (\<lambda>c. c - 1) (fmlookup (fmupd t c inc) n) else fmlookup (fmupd t c inc) n)"
      and ready': "fset ready' = fset ?ready \<union> {u \<in> set ts. u |\<notin>| loops \<and> fmlookup (fmupd t c inc) u = Some 1}"
      by blast
    have "{u \<in> set ts. u |\<notin>| loops \<and> fmlookup (fmupd t c inc) u = Some 1} =
        {u \<in> set ts. u |\<notin>| loops \<and> fmlookup inc u = Some 1}"
      using Cons.prems(1) by auto
    moreover have "{u \<in> set (t # ts). u |\<notin>| loops \<and> fmlookup inc u = Some 1} =
        (if c = 0 then {t} else {}) \<union> {u \<in> set ts. u |\<notin>| loops \<and> fmlookup inc u = Some 1}"
      using c False by auto
    ultimately have "fset ready' = fset ready \<union> {u \<in> set (t # ts). u |\<notin>| loops \<and> fmlookup inc u = Some 1}"
      using ready' by (simp split: if_splits)
    moreover have "fmlookup inc' n = (if n \<in> set (t # ts) \<and> n |\<notin>| loops
        then map_option (\<lambda>c. c - 1) (fmlookup inc n) else fmlookup inc n)" for n
      using inc' [of n] c False Cons.prems(1) by (cases "n = t") auto
    moreover have "release_nodes loops (t # ts) (inc, ready) = Ok (inc', ready')" using run c False by simp
    ultimately show ?thesis by blast
  qed
qed


definition sort_inv :: "'n GraphDefinition \<Rightarrow> string list \<Rightarrow> counters \<Rightarrow> string fset \<Rightarrow> bool" where
  "sort_inv d xs inc ready \<longleftrightarrow>
     kahn_inv (plain_nodes d) (plain_edges d) xs (\<lambda>n. the (fmlookup inc n)) (fset ready) \<and>
     (\<forall>n. fmlookup inc n = None \<longleftrightarrow> n \<notin> plain_nodes d)"

lemma sort_inv_step:
  assumes nodes: "node_map_of d nodes"
    and edges: "edge_rel d \<subseteq> fset (fmdom nodes) \<times> fset (fmdom nodes)"
    and inv: "sort_inv d xs inc ready" and pop: "pop_first ready = Some (n, rest)"
  shows "\<exists>inc' ready'. release_nodes (loop_nodes nodes) (targets_of (adjacency d) n) (inc, rest) = Ok (inc', ready') \<and>
    sort_inv d (xs @ [n]) inc' ready'"
proof -
  let ?V = "plain_nodes d" and ?E = "plain_edges d" and ?ts = "targets_of (adjacency d) n"
  have kahn: "kahn_inv ?V ?E xs (\<lambda>n. the (fmlookup inc n)) (fset ready)"
    and dom: "\<And>n. fmlookup inc n = None \<longleftrightarrow> n \<notin> ?V"
    using inv by (auto simp: sort_inv_def)
  have n: "n \<in> fset ready" and rest: "rest = ready |-| {|n|}" using pop by (auto simp: pop_first_Some)
  note emit = plain_graph.ready_emittable [OF kahn n]
  have plain: "t \<in> set ?ts \<and> t |\<notin>| loop_nodes nodes \<longleftrightarrow> (n, t) \<in> ?E" for t
    using emit(1) edges loop_nodes_iff [OF nodes, of t] plain_nodes_dom [OF nodes, of t]
    by (auto simp: adjacency_targets plain_edges_def)
  have pos: "\<exists>c. fmlookup inc t = Some (Suc c)" if "(n, t) \<in> ?E" for t
  proof -
    have "t \<in> ?V" using that by (auto simp: plain_edges_def)
    then obtain c where "fmlookup inc t = Some c" using dom by (metis option.exhaust)
    moreover have "0 < the (fmlookup inc t)" by (rule plain_graph.no_underflow [OF kahn n that])
    ultimately show ?thesis by (cases c) auto
  qed
  have "\<exists>inc' ready'. release_nodes (loop_nodes nodes) ?ts (inc, rest) = Ok (inc', ready') \<and>
    (\<forall>m. fmlookup inc' m = (if m \<in> set ?ts \<and> m |\<notin>| loop_nodes nodes
       then map_option (\<lambda>c. c - 1) (fmlookup inc m) else fmlookup inc m)) \<and>
    fset ready' = fset rest \<union> {t \<in> set ?ts. t |\<notin>| loop_nodes nodes \<and> fmlookup inc t = Some 1}"
    using pos plain by (intro release_nodes_Ok adjacency_distinct) blast
  then obtain inc' ready' where
    run: "release_nodes (loop_nodes nodes) ?ts (inc, rest) = Ok (inc', ready')"
    and inc': "\<And>m. fmlookup inc' m = (if (n, m) \<in> ?E then map_option (\<lambda>c. c - 1) (fmlookup inc m) else fmlookup inc m)"
    and ready': "fset ready' = fset rest \<union> {t. (n, t) \<in> ?E \<and> fmlookup inc t = Some 1}"
    unfolding plain [symmetric] by blast
  have one: "(n, t) \<in> ?E \<and> fmlookup inc t = Some 1 \<longleftrightarrow> (n, t) \<in> ?E \<and> the (fmlookup inc t) = 1" for t
    using pos [of t] by auto
  have "kahn_inv ?V ?E (xs @ [n]) (\<lambda>m. the (fmlookup inc' m)) (fset ready')"
    by (rule plain_graph.step [OF kahn n]) (use inc' dom ready' rest one in \<open>auto dest!: pos\<close>)
  moreover have "fmlookup inc' m = None \<longleftrightarrow> m \<notin> ?V" for m using dom [of m] inc' [of m] by simp
  ultimately show ?thesis using run unfolding sort_inv_def by blast
qed

lemma sort_loop_correct:
  assumes "node_map_of d nodes" and "edge_rel d \<subseteq> fset (fmdom nodes) \<times> fset (fmdom nodes)"
    and "sort_inv d xs inc ready"
  shows "\<exists>xs' inc'. sort_loop (loop_nodes nodes) (adjacency d) (length xs) inc ready = Ok (length xs', inc') \<and>
    sort_inv d xs' inc' {||}"
  using assms(3)
proof (induction "loop_nodes nodes" "adjacency d" "length xs" inc ready arbitrary: xs rule: sort_loop.induct)
  case (1 inc ready)
  show ?case
  proof (cases "pop_first ready")
    case None
    then have "ready = {||}" by simp
    with "1.prems" show ?thesis
      by (subst sort_loop.simps) (auto simp: pop_first_def)
  next
    case (Some nr)
    obtain n rest where nr: "nr = (n, rest)" by (meson surj_pair)
    from sort_inv_step [OF assms(1,2) "1.prems" Some [unfolded nr]] obtain inc' ready' where
      step: "release_nodes (loop_nodes nodes) (targets_of (adjacency d) n) (inc, rest) = Ok (inc', ready')"
      and inv: "sort_inv d (xs @ [n]) inc' ready'"
      by blast
    have "\<exists>xs' inc''. sort_loop (loop_nodes nodes) (adjacency d) (length (xs @ [n])) inc' ready' = Ok (length xs', inc'') \<and>
        sort_inv d xs' inc'' {||}"
      by (rule "1.hyps" [OF Some nr [symmetric] step refl _ inv]) simp
    then show ?thesis
      by (subst sort_loop.simps) (simp add: Some nr step)
  qed
qed

lemma sort_inv_init:
  assumes nodes: "node_map_of d nodes"
    and edges: "edge_rel d \<subseteq> fset (fmdom nodes) \<times> fset (fmdom nodes)"
  shows "\<exists>inc. count_incoming (loop_nodes nodes) (sorted_list_of_fmap (adjacency d)) (zero_counters nodes) = Ok inc \<and>
    sort_inv d [] inc (fset_of_list (map fst (filter (\<lambda>(n, c). c = 0) (sorted_list_of_fmap inc))))"
proof -
  let ?ps = "sorted_list_of_fmap (adjacency d)"
  have "\<exists>inc. count_incoming (loop_nodes nodes) ?ps (zero_counters nodes) = Ok inc \<and>
    (\<forall>t. fmlookup inc t = map_option (\<lambda>c. c + entry_count (loop_nodes nodes) ?ps t) (fmlookup (zero_counters nodes) t))"
  proof (rule count_incoming_Ok)
    fix s ts assume "(s, ts) \<in> set ?ps"
    then have ts: "ts = targets_of (adjacency d) s" by (rule adjacency_entries)
    have "t |\<in>| fmdom (zero_counters nodes)" if "t \<in> set ts" "t |\<notin>| loop_nodes nodes" for t
    proof -
      have "(s, t) \<in> edge_rel d" using that(1) ts adjacency_targets by blast
      then have "t \<in> plain_nodes d" using loop_nodes_iff [OF nodes] edges that(2) by blast
      then show ?thesis by (simp add: fmlookup_dom_iff fmlookup_zero_counters [OF nodes])
    qed
    then show "distinct ts \<and> (\<forall>t \<in> set ts. t |\<notin>| loop_nodes nodes \<longrightarrow> t |\<in>| fmdom (zero_counters nodes))"
      using ts adjacency_distinct by blast
  qed
  then obtain inc where run: "count_incoming (loop_nodes nodes) ?ps (zero_counters nodes) = Ok inc"
    and lookup: "\<And>t. fmlookup inc t = (if t \<in> plain_nodes d then Some (card {s. (s, t) \<in> plain_edges d}) else None)"
    using entry_count_card [OF nodes edges] by (force simp: fmlookup_zero_counters [OF nodes])
  let ?ready = "fset_of_list (map fst (filter (\<lambda>(n, c). c = 0) (sorted_list_of_fmap inc)))"
  have "fset ?ready = {n. fmlookup inc n = Some 0}"
    using set_filter_fmap [of "\<lambda>c. c = 0" inc] by (auto simp: fset_of_list.rep_eq)
  also have "\<dots> = {n \<in> plain_nodes d. the (fmlookup inc n) = 0}" using lookup by (auto split: if_splits)
  finally have "kahn_inv (plain_nodes d) (plain_edges d) [] (\<lambda>n. the (fmlookup inc n)) (fset ?ready)"
    by (intro plain_graph.init) (simp_all add: lookup)
  then show ?thesis using run lookup unfolding sort_inv_def by auto
qed


lemma validate_cycles_decides:
  assumes map: "node_map_of d nodes"
    and rel: "edge_rel d \<subseteq> fset (fmdom nodes) \<times> fset (fmdom nodes)"
  shows "validate_cycles d nodes =
    (if acyclic (plain_edges d) then Ok ()
     else Err (Rejected (Structure (IllegalCycle (sorted_list_of_set
       {n \<in> plain_nodes d. \<exists>m. (m, m) \<in> (plain_edges d)\<^sup>+ \<and> (m, n) \<in> (plain_edges d)\<^sup>*})))))"
proof -
  obtain inc where run: "count_incoming (loop_nodes nodes) (sorted_list_of_fmap (adjacency d)) (zero_counters nodes) = Ok inc"
    and inv: "sort_inv d [] inc (fset_of_list (map fst (filter (\<lambda>(n, c). c = 0) (sorted_list_of_fmap inc))))"
    using sort_inv_init [OF map rel] by blast
  obtain xs inc' where loop: "sort_loop (loop_nodes nodes) (adjacency d) 0 inc
      (fset_of_list (map fst (filter (\<lambda>(n, c). c = 0) (sorted_list_of_fmap inc)))) = Ok (length xs, inc')"
    and stuck: "sort_inv d xs inc' {||}"
    using sort_loop_correct [OF map rel inv] by auto
  have kahn: "kahn_inv (plain_nodes d) (plain_edges d) xs (\<lambda>n. the (fmlookup inc' n)) {}"
    and dom: "\<And>n. fmlookup inc' n = None \<longleftrightarrow> n \<notin> plain_nodes d"
    using stuck by (auto simp: sort_inv_def)
  have V: "fset (fmdom inc') = plain_nodes d" using dom by (auto simp: fmlookup_dom_iff) force
  have "set xs \<subseteq> plain_nodes d" "distinct xs" using kahn by (auto simp: kahn_inv_def topo_prefix_def)
  then have "length xs = fcard (fmdom inc') \<longleftrightarrow> set xs = plain_nodes d"
    unfolding fcard.rep_eq V by (metis card_subset_eq distinct_card plain_graph.finite_nodes)
  then have done_iff: "length xs = fcard (fmdom inc') \<longleftrightarrow> acyclic (plain_edges d)"
    using plain_graph.stuck_iff [OF kahn] by simp
  let ?left = "map fst (filter (\<lambda>(n, c). 0 < c) (sorted_list_of_fmap inc'))"
  have "set ?left = {n \<in> plain_nodes d. 0 < the (fmlookup inc' n)}"
    unfolding set_filter_fmap using dom by force
  also have "\<dots> = {n \<in> plain_nodes d. \<exists>m. (m, m) \<in> (plain_edges d)\<^sup>+ \<and> (m, n) \<in> (plain_edges d)\<^sup>*}"
    using plain_graph.stuck_complete(1) [OF kahn] plain_graph.stuck_downstream [OF kahn] by simp
  finally have "?left = sorted_list_of_set {n \<in> plain_nodes d. \<exists>m. (m, m) \<in> (plain_edges d)\<^sup>+ \<and> (m, n) \<in> (plain_edges d)\<^sup>*}"
    using sorted_filter_fmap [of _ inc'] distinct_sorted_list_of_fmap [of inc']
    by (metis (no_types, lifting) distinct_map_filter sorted_list_of_set.idem_if_sorted_distinct)
  then show ?thesis
    unfolding validate_cycles_def Let_def using run loop done_iff by simp
qed

text \<open>
  C15. The cycle check never panics (no counter is missing, none underflows) and decides
  the cycles of a graph whose edges join known nodes: it accepts exactly when every cycle
  passes through a loop node, and otherwise reports, in order, exactly the nodes that some
  cycle of other nodes leads to.
\<close>

theorem validate_cycles_exact:
  assumes nodes: "collect_nodes d = Ok nodes" and edges: "validate_edges d nodes limits = Ok ()"
  shows "validate_cycles d nodes =
    (if acyclic (plain_edges d) then Ok ()
     else Err (Rejected (Structure (IllegalCycle (sorted_list_of_set
       {n \<in> plain_nodes d. \<exists>m. (m, m) \<in> (plain_edges d)\<^sup>+ \<and> (m, n) \<in> (plain_edges d)\<^sup>*})))))"
  using collect_nodes_map [OF nodes] validate_edges_Ok [OF edges] by (intro validate_cycles_decides) auto

end
