(* ===== verification/Graph_Compile.thy ===== *)
theory Graph_Compile
  imports Graph_Parallel Graph_Shape Codec
begin

text \<open>
  \<^verbatim>\<open>core/graph-engine/src/lib.rs\<close>, last part: the cache key and \<^verbatim>\<open>compile\<close>, which parses, runs
  every check in order and lays the accepted graph out by index.
\<close>

section \<open>Cache keys\<close>

definition encode_string :: "string \<Rightarrow> bytes" where
  "encode_string s = be_bytes 8 (length s) @ str_bytes s"

definition encode_strings :: "string list \<Rightarrow> bytes" where
  "encode_strings ss = concat (map encode_string ss)"

definition build_cache_key :: "'n graph_ops \<Rightarrow> string \<Rightarrow> GraphCacheInputs \<Rightarrow> GraphCacheKey" where
  "build_cache_key ops source inputs =
     (let content = ContentHash_digest (blake3 ops) (str_bytes source);
          plugins = inputs_plugin_set_hash inputs;
          capabilities = ContentHash_digest (blake3 ops)
            (encode_strings (sorted_list_of_fset (capability_set inputs)));
          api = ContentHash_digest (blake3 ops) (str_bytes (runtime_api_version inputs));
          combined = hash_bytes content @ hash_bytes plugins @ hash_bytes capabilities @ hash_bytes api
      in \<lparr>graph_content_hash = content, plugin_set_hash = plugins, capability_set_hash = capabilities,
          runtime_api_hash = api, combined_hash = ContentHash_digest (blake3 ops) combined\<rparr>)"

section \<open>Compilation\<close>

definition GraphDefinition_parse ::
  "'n graph_ops \<Rightarrow> string \<Rightarrow> CompilerLimits \<Rightarrow> 'n GraphDefinition checked" where
  "GraphDefinition_parse ops source limits =
     (if max_source_bytes limits < length source
      then Err (Rejected (Structure (SourceTooLarge (length source) (max_source_bytes limits))))
      else map_err (\<lambda>detail. Rejected (Structure (InvalidToml detail))) (toml_from_str ops source))"

type_synonym index_map = "(string, nat) fmap"

definition index_nodes :: "'n NodeDefinition list \<Rightarrow> index_map" where
  "index_nodes sorted_nodes = fold (\<lambda>(i, nd). fmupd (node_id nd) i) (enumerate 0 sorted_nodes) fmempty"

definition compile_node ::
  "'n graph_ops \<Rightarrow> CompilerLimits \<Rightarrow> nat \<times> 'n NodeDefinition \<Rightarrow> 'n ExecutableNode checked" where
  "compile_node ops limits = (\<lambda>(index, nd).
     rbind (parse_condition ops (node_condition nd) (node_id nd) (limit_expression limits)) (\<lambda>condition.
     Ok \<lparr>exec_index = index, exec_id = node_id nd, exec_kind = node_kind nd,
         exec_configuration = map_option canonicalize_node_configuration (effective_node_configuration nd),
         exec_condition = condition, exec_tool = tool nd, exec_provider = provider nd,
         exec_required_capabilities = required_capabilities nd, exec_read_scopes = read_scopes nd,
         exec_write_scopes = write_scopes nd, exec_read_variables = read_variables nd,
         exec_write_variables = write_variables nd, exec_retry_limit = retry_limit nd,
         exec_max_iterations = max_iterations nd\<rparr>))"

definition compile_edge ::
  "'n graph_ops \<Rightarrow> CompilerLimits \<Rightarrow> index_map \<Rightarrow> EdgeDefinition \<Rightarrow> 'n ExecutableEdge checked" where
  "compile_edge ops limits indices e =
     rbind (expect_some (fmlookup indices (edge_from e))) (\<lambda>i.
     rbind (expect_some (fmlookup indices (edge_to e))) (\<lambda>j.
     rbind (parse_condition ops (edge_condition e) (edge_text e) (limit_expression limits)) (\<lambda>condition.
     Ok \<lparr>exec_from = i, exec_to = j, exec_edge_condition = condition, exec_label = edge_label e\<rparr>)))"

definition edge_order :: "EdgeDefinition \<Rightarrow> string \<times> string \<times> string option \<times> string option" where
  "edge_order e = (edge_from e, edge_to e, edge_label e, edge_condition e)"

definition validate_definition ::
  "'n graph_ops \<Rightarrow> GraphCacheInputs \<Rightarrow> CompilerLimits \<Rightarrow> 'n GraphDefinition \<Rightarrow> unit checked" where
  "validate_definition ops cache_inputs limits d =
     rbind (validate_version_and_bounds d limits) (\<lambda>_.
     rbind (validate_names d limits) (\<lambda>_.
     rbind (collect_nodes d) (\<lambda>node_map.
     rbind (collect_variables d) (\<lambda>variable_map.
     rbind (validate_edges d node_map limits) (\<lambda>_.
     rbind (validate_entry_and_reachability d node_map) (\<lambda>_.
     rbind (validate_termination d node_map) (\<lambda>_.
     rbind (validate_node_contracts ops d node_map cache_inputs limits) (\<lambda>_.
     rbind (validate_variables ops d node_map variable_map limits) (\<lambda>_.
     rbind (validate_effect_output_writes node_map variable_map) (\<lambda>_.
     rbind (validate_cycles d node_map) (\<lambda>_.
     validate_parallel_writes d node_map variable_map limits)))))))))))"

definition layout_graph ::
  "'n graph_ops \<Rightarrow> string \<Rightarrow> GraphCacheInputs \<Rightarrow> CompilerLimits \<Rightarrow> 'n GraphDefinition \<Rightarrow> 'n ExecutableGraph checked" where
  "layout_graph ops source cache_inputs limits d =
     (let sorted_nodes = sort_key node_id (graph_nodes d);
          indices = index_nodes sorted_nodes
      in
      rbind (try_map (compile_node ops limits) (enumerate 0 sorted_nodes)) (\<lambda>ns.
      rbind (try_map (compile_edge ops limits indices) (sort_key edge_order (graph_edges d))) (\<lambda>es.
      rbind (expect_some (fmlookup indices (graph_entry d))) (\<lambda>entry_index.
      Ok \<lparr>exec_format_version = graph_format_version d, exec_entry_index = entry_index,
          exec_budget = graph_budget d, exec_declarations = graph_declarations d,
          exec_variables = sort_key variable_name (graph_variables d), exec_nodes = ns, exec_edges = es,
          cache_key = build_cache_key ops source cache_inputs\<rparr>))))"

definition compile ::
  "'n graph_ops \<Rightarrow> string \<Rightarrow> GraphCacheInputs \<Rightarrow> CompilerLimits \<Rightarrow> 'n ExecutableGraph checked" where
  "compile ops source cache_inputs limits =
     rbind (GraphDefinition_parse ops source limits) (\<lambda>d.
     rbind (validate_definition ops cache_inputs limits d) (\<lambda>_.
     layout_graph ops source cache_inputs limits d))"

definition deserialize_supported_format_version :: "nat \<Rightarrow> (nat, string) result" where
  "deserialize_supported_format_version format_version =
     (if format_version \<noteq> GRAPH_FORMAT_VERSION
      then Err (''unsupported graph format version '' @ decimal format_version @ ''; supported version is '' @
        decimal GRAPH_FORMAT_VERSION)
      else Ok format_version)"

section \<open>The cache key determines its inputs\<close>

definition decode_prefixed :: "bytes \<Rightarrow> (string \<times> bytes) option" where
  "decode_prefixed bs =
     (let n = be_value (take 8 bs); rest = drop 8 bs in
      if length bs < 8 \<or> length rest < n then None
      else Some (map (\<lambda>b. char_of (unat b)) (take n rest), drop n rest))"

lemma char_of_char_code [simp]: "char_of (char_code c) = c"
  by (simp add: char_code_def)

interpretation length_prefixed: stream_codec encode_string decode_prefixed "\<lambda>s. length s < 2 ^ 64"
proof
  fix s :: string and rest assume "length s < 2 ^ 64"
  then have "be_value (be_bytes 8 (length s)) = length s"
    by (simp add: be_value_be_bytes)
  then show "decode_prefixed (encode_string s @ rest) = Some (s, rest)"
    by (simp add: decode_prefixed_def encode_string_def Let_def str_bytes_def comp_def)
qed (simp add: decode_prefixed_def)

definition short_inputs :: "GraphCacheInputs \<Rightarrow> bool" where
  "short_inputs inputs \<longleftrightarrow>
     (\<forall>c. c |\<in>| capability_set inputs \<longrightarrow> length c < 2 ^ 64) \<and>
     length (hash_bytes (inputs_plugin_set_hash inputs)) = 32"

text \<open>The byte strings that the four digests of a key are taken of.\<close>

definition key_preimages :: "'n graph_ops \<Rightarrow> string \<Rightarrow> GraphCacheInputs \<Rightarrow> bytes list" where
  "key_preimages ops s inputs =
     (let capabilities = encode_strings (sorted_list_of_fset (capability_set inputs)) in
      [str_bytes s, capabilities, str_bytes (runtime_api_version inputs),
       blake3 ops (str_bytes s) @ hash_bytes (inputs_plugin_set_hash inputs) @
       blake3 ops capabilities @ blake3 ops (str_bytes (runtime_api_version inputs))])"

definition key_collision ::
  "'n graph_ops \<Rightarrow> string \<Rightarrow> GraphCacheInputs \<Rightarrow> string \<Rightarrow> GraphCacheInputs \<Rightarrow> bool" where
  "key_collision ops s a t b \<longleftrightarrow>
     list_ex (\<lambda>(x, y). x \<noteq> y \<and> blake3 ops x = blake3 ops y)
       (zip (key_preimages ops s a) (key_preimages ops t b))"

text \<open>
  Up to a BLAKE3 collision between corresponding hashed strings of the two keys, the
  combined hash of a cache key identifies everything that went into it: two compilations
  share their combined hash exactly when the graph sources, the plugin-set hashes, the
  capability sets and the runtime API versions all agree. The lengths that separate the
  capability names are what makes the encoding of the set unambiguous. Digests have 32
  bytes and capability names fewer than 2^64.
\<close>

theorem cache_key_identifies:
  assumes digest: "\<And>bs. length (blake3 ops bs) = 32"
    and short: "short_inputs a" "short_inputs b"
    and free: "\<not> key_collision ops s a t b"
  shows "combined_hash (build_cache_key ops s a) = combined_hash (build_cache_key ops t b) \<longleftrightarrow> s = t \<and> a = b"
proof
  let ?caps = "\<lambda>i. sorted_list_of_fset (capability_set i)"
  assume same: "combined_hash (build_cache_key ops s a) = combined_hash (build_cache_key ops t b)"
  have plugins: "length (hash_bytes (inputs_plugin_set_hash a)) = length (hash_bytes (inputs_plugin_set_hash b))"
    using short by (simp add: short_inputs_def)
  have inj: "blake3 ops (str_bytes s) = blake3 ops (str_bytes t) \<Longrightarrow> s = t"
    "blake3 ops (encode_strings (?caps a)) = blake3 ops (encode_strings (?caps b)) \<Longrightarrow>
       encode_strings (?caps a) = encode_strings (?caps b)"
    "blake3 ops (str_bytes (runtime_api_version a)) = blake3 ops (str_bytes (runtime_api_version b)) \<Longrightarrow>
       runtime_api_version a = runtime_api_version b"
    using free by (auto simp: key_collision_def key_preimages_def Let_def)
  have "key_preimages ops s a ! 3 = key_preimages ops t b ! 3"
    using free same
    by (auto simp: key_collision_def key_preimages_def build_cache_key_def ContentHash_digest_def Let_def)
  then have "s = t" and "hash_bytes (inputs_plugin_set_hash a) = hash_bytes (inputs_plugin_set_hash b)"
    and caps: "encode_strings (?caps a) = encode_strings (?caps b)"
    and "runtime_api_version a = runtime_api_version b"
    using plugins inj by (simp_all add: key_preimages_def Let_def digest)
  moreover have "list_all (\<lambda>c. length c < 2 ^ 64) (?caps a)" "list_all (\<lambda>c. length c < 2 ^ 64) (?caps b)"
    using short by (simp_all add: short_inputs_def list_all_iff)
  then have "?caps a = ?caps b"
    using caps length_prefixed.concat_put_inject unfolding encode_strings_def by blast
  then have "capability_set a = capability_set b" by (metis sorted_list_of_fset_simps(2))
  ultimately show "s = t \<and> a = b" by (simp add: ContentHash.expand)
qed simp

end
