(* ===== verification/Graph_Safety.thy ===== *)
theory Graph_Safety
  imports Graph_Compile
begin

text \<open>
  The graph compiler never panics: every \<^verbatim>\<open>expect\<close>, every index and every subtraction in it
  is covered by a check that ran before. \<open>safe\<close> says that a check does not panic; its rules
  are simplification rules, so the checks without an \<^verbatim>\<open>expect\<close> are discharged by their
  definition.
\<close>

section \<open>Checks that do not panic\<close>

definition safe :: "'a checked \<Rightarrow> bool" where
  "safe r \<longleftrightarrow> r \<noteq> Err Panicked"

named_theorems safe_defs \<open>definitions of checks without an expectation\<close>

lemma safe_Ok [simp]: "safe (Ok x)"
  by (simp add: safe_def)

lemma safe_Err [simp]: "safe (Err e) \<longleftrightarrow> e \<noteq> Panicked"
  by (simp add: safe_def)

lemma safe_rbind [simp]: "safe (rbind r f) \<longleftrightarrow> safe r \<and> (\<forall>x. r = Ok x \<longrightarrow> safe (f x))"
  by (cases r) auto

lemma safe_fail_if [simp]: "e \<noteq> Panicked \<Longrightarrow> safe (fail_if b e)"
  by (simp add: fail_if_def)

lemma safe_ok_or [simp]: "e \<noteq> Panicked \<Longrightarrow> safe (ok_or e x)"
  by (cases x) simp_all

lemma safe_map_err [simp]: "(\<And>e. f e \<noteq> Panicked) \<Longrightarrow> safe (map_err f r)"
  by (cases r) simp_all

lemma safe_check_all: "(\<And>x. x \<in> set xs \<Longrightarrow> safe (f x)) \<Longrightarrow> safe (check_all f xs)"
  by (induction xs) auto

lemma safe_try_map: "(\<And>x. x \<in> set xs \<Longrightarrow> safe (f x)) \<Longrightarrow> safe (try_map f xs)"
  by (induction xs) auto

lemma safe_expect_some [simp]: "safe (expect_some x) \<longleftrightarrow> x \<noteq> None"
  by (cases x) (simp_all add: expect_some_def)

lemma expect_some_Ok [simp]: "expect_some x = Ok y \<longleftrightarrow> x = Some y"
  by (simp add: expect_some_def ok_or_eq_Ok)

section \<open>Single checks\<close>

lemmas text_defs = validate_name_def validate_json_pointer_def validate_bounded_configuration_string_def
  validate_collection_len_def require_configuration_kind_def validate_timestamp_def
  canonical_json_bytes_def validate_json_value_def configuration_variable_def
  validate_configuration_variable_def type_mismatch_def validate_configuration_variable_type_def
  validate_configuration_output_variable_type_def

lemma safe_validate_name [simp]: "safe (validate_name w s m)"
  by (simp add: validate_name_def)

lemma safe_text_checks [simp]:
  "safe (validate_json_pointer nd v p m)"
  "safe (validate_bounded_configuration_string nd w s m)"
  "safe (validate_collection_len n w k limits)"
  "safe (require_configuration_kind nd kd)"
  "safe (validate_timestamp w s limits)"
  "safe (canonical_json_bytes ops j)"
  "safe (validate_json_value ops n w j limits)"
  "safe (configuration_variable nd d v)"
  "safe (validate_configuration_variable nd d v b c m)"
  "safe (validate_configuration_variable_type nd d v w P m)"
  "safe (validate_configuration_output_variable_type nd d v w P m)"
  by (simp_all add: text_defs Let_def)

lemma safe_check_names [simp]: "safe (check_names w s limits)"
  by (simp add: check_names_def safe_check_all)

lemma safe_check_artifact_variables [simp]: "safe (check_artifact_variables nd d vs limits)"
  by (simp add: check_artifact_variables_def safe_check_all)

lemma safe_check_value_source [simp]: "safe (check_value_source ops nd d w v limits)"
  by (cases v) simp_all

lemma safe_validate_child_task_source [simp]: "safe (validate_child_task_source ops nd d v k c limits)"
  by (cases v) simp_all

lemma safe_validate_child_workspace [simp]: "safe (validate_child_workspace nd d w limits)"
  by (cases "(nd, d, w, limits)" rule: validate_child_workspace.cases) simp_all

lemma safe_validate_review_input [simp]: "safe (validate_review_input ops nd d v limits)"
  by (cases v) simp_all

lemma safe_validate_review_routes [simp]: "safe (validate_review_routes nd nodes d r limits)"
  by (simp add: validate_review_routes_def safe_check_all)

lemmas arm_defs = check_model_request_def check_tool_batch_def check_user_approval_def check_spawn_def
  check_wait_def check_review_def check_persist_def check_message_def check_join_def check_parallel_def
  check_delay_def check_schedule_def check_emit_def check_complete_turn_def check_plugin_def

lemma safe_arms [simp]:
  "safe (check_model_request ops nd d limits a b c e f)"
  "safe (check_tool_batch nd d limits g h i j)"
  "safe (check_user_approval nd d limits k)"
  "safe (check_spawn ops nd d limits l)"
  "safe (check_wait nd d limits m n p q)"
  "safe (check_review ops nd nodes d limits r s t u v w)"
  "safe (check_persist ops nd d limits x y)"
  "safe (check_message ops nd limits z a1 a2 a3)"
  "safe (check_join nd limits a4)"
  "safe (check_parallel nd nodes limits a5)"
  "safe (check_delay nd limits a6 a7)"
  "safe (check_schedule nd d limits a8)"
  "safe (check_emit ops nd d limits a9 b1 b2 b3)"
  "safe (check_complete_turn nd d limits b4)"
  "safe (check_plugin ops nd d limits b5)"
  by (auto simp: arm_defs Let_def intro!: safe_check_all split: option.split prod.split
      NodeTextSource.split ChildSetSource.split ArtifactContentSource.split ChildSelector.split
      DelayResolution.split ScheduleTrigger.split)

lemma safe_validate_configuration_arm [simp]: "safe (validate_configuration_arm ops nd nodes d limits c)"
  by (cases c) simp_all

lemma safe_validate_node_configuration [simp]: "safe (validate_node_configuration ops nd nodes d limits)"
  by (simp add: validate_node_configuration_def split: option.split)

lemma safe_parse_condition [simp]: "safe (parse_condition ops source owner limits)"
  by (simp add: parse_condition_def parse_never_stuck split: option.split result.split)

section \<open>The phases\<close>

lemma safe_validate_version_and_bounds [simp]: "safe (validate_version_and_bounds d limits)"
  by (simp add: validate_version_and_bounds_def)

lemma safe_validate_names [simp]: "safe (validate_names d limits)"
  by (auto simp: validate_names_def intro!: safe_check_all)

lemma safe_collect [simp]: "safe (collect_nodes d)" "safe (collect_variables d)"
  by (simp_all add: safe_def collect_nodes_def collect_variables_def collect_by_no_panic)

lemma safe_validate_edge_list: "safe (validate_edge_list known maximum es seen)"
  by (induction known maximum es seen rule: validate_edge_list.induct) (auto split: option.split)

lemma safe_validate_edges [simp]: "safe (validate_edges d nodes limits)"
  by (simp add: validate_edges_def safe_validate_edge_list)

lemma safe_reachability [simp]:
  "safe (validate_entry_and_reachability d nodes)" "safe (validate_termination d nodes)"
  by (auto simp: validate_entry_and_reachability_def validate_termination_def Let_def intro!: safe_check_all)

lemma safe_validate_node_contracts [simp]: "safe (validate_node_contracts ops d nodes inputs limits)"
  by (auto simp: validate_node_contracts_def validate_node_contract_def check_loop_bound_def
      check_implementation_def intro!: safe_check_all)

lemma safe_validate_variable_type [simp]: "safe (validate_variable_type v t limits n)"
proof (induction v t limits n rule: validate_variable_type.induct)
  case (1 v t limits n)
  then show ?case
    by (subst validate_variable_type.simps)
      (auto split: VariableValueType.split intro!: safe_check_all simp: fail_if_eq_Ok)
qed

lemma safe_declaration_parts [simp]:
  "safe (validate_variable_security v)"
  "safe (validate_variable_merge_policy v)"
  "safe (check_producer nodes v)"
  by (simp_all add: validate_variable_security_def validate_variable_merge_policy_def check_producer_def
      Let_def split: option.split)

lemma safe_check_merge_contributors [simp]: "safe (check_merge_contributors nodes limits v)"
  by (simp add: check_merge_contributors_def invalid_contributors_def safe_check_all)

lemma safe_validate_variable_scope [simp]: "safe (validate_variable_scope d nodes v)"
  by (simp add: validate_variable_scope_def Let_def split: VariableScope.split)

lemma safe_validate_declaration [simp]: "safe (validate_declaration d nodes limits v)"
  by (simp add: validate_declaration_def safe_check_all)

lemma safe_access [simp]:
  "safe (validate_expression_variable_access ops source owner rs variables limits strict)"
  "safe (validate_configuration_variable_access nd variables)"
  by (auto simp: validate_expression_variable_access_def check_condition_root_def
      validate_configuration_variable_access_def intro!: safe_check_all
      split: option.split NodeConfiguration.split ChildSelector.split)

lemma safe_validate_node_access [simp]: "safe (validate_node_access ops d variables limits nd)"
  by (auto simp: validate_node_access_def check_read_def check_write_def intro!: safe_check_all)

lemma safe_validate_variables:
  assumes "edge_rel d \<subseteq> fset (fmdom nodes) \<times> fset (fmdom nodes)"
  shows "safe (validate_variables ops d nodes variables limits)"
proof -
  have "fmlookup nodes (edge_from e) \<noteq> None" if "e \<in> set (graph_edges d)" for e
    using assms that by (auto simp: edge_rel_def fmlookup_dom_iff)
  then show ?thesis by (auto simp: validate_variables_def intro!: safe_check_all)
qed


section \<open>Effects, cycles and parallel regions\<close>

lemma safe_collect_slots:
  "set vs \<subseteq> fset (fmdom variables) \<Longrightarrow> safe (collect_slots variables nd vs slots)"
  by (induction variables nd vs slots rule: collect_slots.induct)
    (auto simp: fmlookup_dom_iff split: option.split)

definition writes_declared ::
  "(string, 'n NodeDefinition) fmap \<Rightarrow> (string, VariableDeclaration) fmap \<Rightarrow> bool" where
  "writes_declared nodes variables \<longleftrightarrow>
     (\<forall>nd \<in> set (fmvalues nodes). fset (write_variables nd) \<subseteq> fset (fmdom variables))"

lemma safe_validate_effect_output_writes:
  "writes_declared nodes variables \<Longrightarrow> safe (validate_effect_output_writes nodes variables)"
  by (auto simp: validate_effect_output_writes_def validate_node_effects_def writes_declared_def
      intro!: safe_check_all safe_collect_slots) blast

lemma safe_validate_cycles:
  assumes "node_map_of d nodes" and "edge_rel d \<subseteq> fset (fmdom nodes) \<times> fset (fmdom nodes)"
  shows "safe (validate_cycles d nodes)"
  by (simp add: validate_cycles_decides [OF assms])

lemma safe_region_loop:
  assumes "edge_rel d \<subseteq> fset (fmdom nodes) \<times> fset (fmdom nodes)"
    and "set queue \<subseteq> fset (fmdom nodes)"
  shows "safe (region_loop p b j (adjacency d) nodes queue members)"
  using assms
proof (induction p b j "adjacency d" nodes queue members rule: region_loop.induct)
  case (2 p b j nodes n queue members)
  have "set (targets_of (adjacency d) n) \<subseteq> fset (fmdom nodes)"
    using "2.prems"(1) unfolding adjacency_targets by blast
  with 2 show ?case by (auto split: option.split)
qed simp


lemma safe_parallel_branch_regions:
  assumes rel: "edge_rel d \<subseteq> fset (fmdom nodes) \<times> fset (fmdom nodes)"
    and es: "set es \<subseteq> set (graph_edges d)"
  shows "safe (try_map (\<lambda>b. parallel_branch_region p b j (adjacency d) nodes) (map edge_to es))"
proof (rule safe_try_map)
  fix b assume "b \<in> set (map edge_to es)"
  then obtain e where "e \<in> set (graph_edges d)" "b = edge_to e" using es by auto
  then have "b \<in> fset (fmdom nodes)" using rel by (auto simp: edge_rel_def)
  then show "safe (parallel_branch_region p b j (adjacency d) nodes)"
    unfolding parallel_branch_region_def by (intro safe_region_loop [OF rel]) simp
qed

lemma safe_check_fanout: "safe (check_fanout p j m es st)"
  by (induction p j m es st rule: check_fanout.induct) auto

lemma safe_topology_checks [simp]:
  "safe (check_overlaps p branches regions)" "safe (check_region_entries p reverse brs)"
  by (auto simp: check_overlaps_def check_region_entries_def intro!: safe_check_all split: option.split)

lemma safe_validate_parallel_topology:
  assumes "edge_rel d \<subseteq> fset (fmdom nodes) \<times> fset (fmdom nodes)"
    and "set es \<subseteq> set (graph_edges d)"
  shows "safe (validate_parallel_topology nd es (adjacency d) reverse nodes limits)"
  using safe_parallel_branch_regions [OF assms]
  by (simp add: validate_parallel_topology_def Let_def safe_check_fanout safe_check_all
      split: option.split prod.split)

lemma validate_parallel_topology_Ok:
  "validate_parallel_topology nd es graph reverse nodes limits = Ok branches \<Longrightarrow> branches = map edge_to es"
  by (auto simp: validate_parallel_topology_def Let_def result_simps
      split: option.splits prod.splits)

lemma writes_loop_subset:
  assumes "\<And>nd. nd \<in> set (fmvalues nodes) \<Longrightarrow> fset (writes nd) \<subseteq> D"
  shows "fset acc \<subseteq> D \<Longrightarrow> fset (writes_loop writes j graph nodes queue visited acc) \<subseteq> D"
  using assms
proof (induction writes j graph nodes queue visited acc rule: writes_loop.induct)
  case (2 writes j graph nodes n queue visited acc)
  have "fset (writes nd) \<subseteq> D" if "fmlookup nodes n = Some nd" for nd
    using that by (intro "2.prems"(2)) (auto simp: set_fmvalues)
  then have "fset (case fmlookup nodes n of Some nd \<Rightarrow> acc |\<union>| writes nd | None \<Rightarrow> acc) \<subseteq> D"
    using "2.prems"(1) by (simp split: option.split)
  then show ?case using 2 by (cases "n = j \<or> n |\<in>| visited") simp_all
qed simp

lemma branch_write_variables_declared:
  "writes_declared nodes variables \<Longrightarrow> fset (branch_write_variables b j graph nodes) \<subseteq> fset (fmdom variables)"
  unfolding branch_write_variables_def writes_declared_def by (rule writes_loop_subset) auto

lemma safe_check_variable_conflicts:
  assumes "writes_declared nodes variables"
  shows "safe (check_variable_conflicts p c variables branches
    (map (\<lambda>b. branch_write_variables b j graph nodes) branches))"
proof -
  let ?written = "map (\<lambda>b. branch_write_variables b j graph nodes) branches"
  have "fmlookup variables v \<noteq> None"
    if "(l, r) \<in> set (index_pairs (length branches))" "v |\<in>| ?written ! l |\<inter>| ?written ! r" for l r v
  proof -
    have "l < length branches" using that(1) by (auto simp: index_pairs_def)
    then have "v |\<in>| branch_write_variables (branches ! l) j graph nodes" using that(2) by simp
    then have "v |\<in>| fmdom variables" using branch_write_variables_declared [OF assms] by blast
    then show ?thesis by (auto simp: fmlookup_dom_iff)
  qed
  then show ?thesis
    unfolding check_variable_conflicts_def Let_def
    by (intro safe_check_all) (auto simp: split_beta intro!: safe_check_all)
qed

lemma safe_validate_parallel_node:
  assumes rel: "edge_rel d \<subseteq> fset (fmdom nodes) \<times> fset (fmdom nodes)" and "writes_declared nodes variables"
  shows "safe (validate_parallel_node d nodes variables limits nd)"
proof -
  have "safe (check_scope_conflicts p c branches scopes)" for p c branches scopes
    by (auto simp: check_scope_conflicts_def intro!: safe_check_all split: option.split)
  moreover have "safe (validate_parallel_topology nd (filter P (graph_edges d)) (adjacency d) reverse nodes limits)"
    for P reverse
    by (rule safe_validate_parallel_topology [OF rel]) auto
  ultimately show ?thesis
    using safe_check_variable_conflicts [OF assms(2)]
    by (simp add: validate_parallel_node_def Let_def safe_check_all split: option.split)
qed

section \<open>Ownership\<close>

lemma record_owner_dom:
  "record_owner p c regions vs owners = Ok owners' \<Longrightarrow> fmdom owners' = fmdom owners"
  by (induction p c regions vs owners rule: record_owner.induct)
    (auto simp: result_simps fmlookup_dom_iff split: if_splits)

lemma safe_record_owner:
  "variable_name ` set vs \<subseteq> fset (fmdom owners) \<Longrightarrow> safe (record_owner p c regions vs owners)"
  by (induction p c regions vs owners rule: record_owner.induct) (auto simp: fmlookup_dom_iff)

lemma collect_owners_dom:
  "collect_owners d nodes merged graph ps owners = Ok owners' \<Longrightarrow> fmdom owners' = fmdom owners"
proof (induction ps arbitrary: owners)
  case (Cons parallel ps)
  then show ?case
    by (cases "parallel_configuration parallel") (auto simp: rbind_eq_Ok dest!: Cons.IH record_owner_dom)
qed simp

lemma safe_collect_owners:
  assumes rel: "edge_rel d \<subseteq> fset (fmdom nodes) \<times> fset (fmdom nodes)"
  shows "variable_name ` set merged \<subseteq> fset (fmdom owners) \<Longrightarrow>
    safe (collect_owners d nodes merged (adjacency d) ps owners)"
proof (induction ps arbitrary: owners)
  case (Cons parallel ps)
  have "safe (try_map (\<lambda>b. parallel_branch_region (node_id parallel) b j (adjacency d) nodes)
      (map edge_to (filter (\<lambda>e. edge_from e = node_id parallel) (graph_edges d))))" for j
    by (rule safe_parallel_branch_regions [OF rel]) auto
  moreover have "safe (record_owner (node_id parallel) c regions merged owners)" for c regions
    by (rule safe_record_owner [OF Cons.prems])
  moreover have "safe (collect_owners d nodes merged (adjacency d) ps owners')"
    if "record_owner (node_id parallel) c regions merged owners = Ok owners'" for c regions owners'
    using Cons.prems record_owner_dom [OF that] by (intro Cons.IH) simp
  ultimately show ?case
    using Cons.IH [OF Cons.prems] by (simp split: option.split)
qed simp

lemma safe_check_owner:
  assumes "variable_name v |\<in>| fmdom owners" and "merge_policy v \<noteq> None"
  shows "safe (check_owner owners v)"
  using assms by (auto simp: check_owner_def fmlookup_dom_iff split: list.split prod.split)

lemma safe_ownership:
  assumes rel: "edge_rel d \<subseteq> fset (fmdom nodes) \<times> fset (fmdom nodes)"
    and policy: "\<And>v. v \<in> set (merged_variables variables) \<Longrightarrow> merge_policy v \<noteq> None"
  shows "safe (validate_parallel_merge_contributor_ownership d nodes variables (adjacency d))"
proof -
  let ?merged = "merged_variables variables"
  let ?owners = "fmap_of_list (map (\<lambda>v. (variable_name v, [])) ?merged) :: owner_map"
  have "fset (fmdom ?owners) = variable_name ` set ?merged"
    by (simp add: image_image fset_of_list.rep_eq)
  then show ?thesis
    using safe_collect_owners [OF rel, of ?merged ?owners "parallel_nodes nodes"] policy
    unfolding validate_parallel_merge_contributor_ownership_def Let_def
    by (auto intro!: safe_check_all safe_check_owner dest!: collect_owners_dom)
qed


section \<open>What the variable check establishes\<close>

lemma validate_node_access_writes:
  "validate_node_access ops d variables limits nd = Ok () \<Longrightarrow> fset (write_variables nd) \<subseteq> fset (fmdom variables)"
  by (auto simp: validate_node_access_def check_write_def result_simps fmlookup_dom_iff)

lemma validate_variables_writes:
  assumes "validate_variables ops d nodes variables limits = Ok ()" and "node_map_of d nodes"
  shows "writes_declared nodes variables"
proof -
  have "validate_node_access ops d variables limits nd = Ok ()" if "nd \<in> set (graph_nodes d)" for nd
    using assms(1) that by (auto simp: validate_variables_def result_simps)
  then show ?thesis
    unfolding writes_declared_def node_map_values [OF assms(2)] by (intro ballI validate_node_access_writes)
qed

lemma validate_declaration_policy:
  "validate_declaration d nodes limits v = Ok () \<Longrightarrow> merge_contributors v \<noteq> {||} \<Longrightarrow> merge_policy v \<noteq> None"
  by (auto simp: validate_declaration_def check_merge_contributors_def result_simps)

definition variable_map_of :: "'n GraphDefinition \<Rightarrow> (string, VariableDeclaration) fmap \<Rightarrow> bool" where
  "variable_map_of d variables \<longleftrightarrow>
     distinct (map variable_name (graph_variables d)) \<and>
     (\<forall>k v. fmlookup variables k = Some v \<longleftrightarrow> v \<in> set (graph_variables d) \<and> variable_name v = k)"

lemma collect_variables_map: "collect_variables d = Ok variables \<Longrightarrow> variable_map_of d variables"
  unfolding collect_variables_def variable_map_of_def
  by (auto simp: collect_by_Ok fmlookup_fold_upd)

lemma variable_map_values: "variable_map_of d variables \<Longrightarrow> set (fmvalues variables) = set (graph_variables d)"
  by (auto simp: set_fmvalues variable_map_of_def)

lemma validate_variables_policy:
  assumes "validate_variables ops d nodes variables limits = Ok ()" and "variable_map_of d variables"
    and "v \<in> set (merged_variables variables)"
  shows "merge_policy v \<noteq> None"
  using assms validate_declaration_policy
  by (fastforce simp: validate_variables_def result_simps merged_variables_def variable_map_values)

section \<open>Layout\<close>

lemma fmlookup_index_nodes:
  assumes "distinct (map node_id nds)"
  shows "fmlookup (index_nodes nds) k = Some i \<longleftrightarrow> i < length nds \<and> node_id (nds ! i) = k"
  using assms
proof (induction nds arbitrary: k i rule: rev_induct)
  case Nil
  then show ?case by (simp add: index_nodes_def)
next
  case (snoc nd nds)
  have step: "index_nodes (nds @ [nd]) = fmupd (node_id nd) (length nds) (index_nodes nds)"
    by (simp add: index_nodes_def enumerate_append_eq)
  have new: "node_id nd \<noteq> node_id (nds ! i)" if "i < length nds" for i
    using snoc.prems nth_mem [OF that] by auto
  show ?case
    using snoc new [of i] by (cases "i = length nds") (auto simp: step nth_append)
qed

lemma index_nodes_dom:
  assumes "distinct (map node_id nds)"
  shows "(\<exists>i. fmlookup (index_nodes nds) k = Some i) \<longleftrightarrow> k \<in> node_id ` set nds"
proof -
  have "(\<exists>i. fmlookup (index_nodes nds) k = Some i) \<longleftrightarrow> (\<exists>i < length nds. node_id (nds ! i) = k)"
    using fmlookup_index_nodes [OF assms, of k] by auto
  also have "\<dots> \<longleftrightarrow> k \<in> node_id ` set nds" by (auto simp: in_set_conv_nth image_iff Bex_def)
  finally show ?thesis .
qed

lemma safe_layout_graph:
  assumes nodes: "node_map_of d nodes" and rel: "edge_rel d \<subseteq> fset (fmdom nodes) \<times> fset (fmdom nodes)"
    and entry: "graph_entry d |\<in>| fmdom nodes"
  shows "safe (layout_graph ops source inputs limits d)"
proof -
  let ?nds = "sort_key node_id (graph_nodes d)"
  have "distinct (map node_id ?nds)"
    using nodes by (simp add: node_map_of_def distinct_map)
  then have known: "(\<exists>i. fmlookup (index_nodes ?nds) k = Some i) \<longleftrightarrow> k |\<in>| fmdom nodes" for k
    unfolding index_nodes_dom [OF \<open>distinct (map node_id ?nds)\<close>] by (simp add: node_map_dom [OF nodes])
  have "safe (compile_edge ops limits (index_nodes ?nds) e)" if "e \<in> set (graph_edges d)" for e
  proof -
    have "edge_from e |\<in>| fmdom nodes" "edge_to e |\<in>| fmdom nodes" using rel that by (auto simp: edge_rel_def)
    then show ?thesis by (auto simp: compile_edge_def known)
  qed
  moreover have "safe (compile_node ops limits p)" for p by (auto simp: compile_node_def split_beta)
  ultimately show ?thesis
    using entry by (auto simp: layout_graph_def Let_def known intro!: safe_try_map)
qed

text \<open>What acceptance by the checks gives, with the maps they worked on.\<close>

lemma validate_definition_Ok:
  assumes "validate_definition ops inputs limits d = Ok ()"
  obtains nodes variables where
    "node_map_of d nodes" "variable_map_of d variables"
    "edge_rel d \<subseteq> fset (fmdom nodes) \<times> fset (fmdom nodes)"
    "validate_entry_and_reachability d nodes = Ok ()" "validate_termination d nodes = Ok ()"
    "validate_node_contracts ops d nodes inputs limits = Ok ()"
    "validate_variables ops d nodes variables limits = Ok ()"
    "validate_effect_output_writes nodes variables = Ok ()"
    "validate_cycles d nodes = Ok ()" "validate_parallel_writes d nodes variables limits = Ok ()"
proof -
  obtain nodes variables where "collect_nodes d = Ok nodes" "collect_variables d = Ok variables"
    "validate_edges d nodes limits = Ok ()" and rest:
    "validate_entry_and_reachability d nodes = Ok ()" "validate_termination d nodes = Ok ()"
    "validate_node_contracts ops d nodes inputs limits = Ok ()"
    "validate_variables ops d nodes variables limits = Ok ()"
    "validate_effect_output_writes nodes variables = Ok ()"
    "validate_cycles d nodes = Ok ()" "validate_parallel_writes d nodes variables limits = Ok ()"
    using assms by (auto simp: validate_definition_def rbind_eq_Ok)
  then have "node_map_of d nodes" "variable_map_of d variables"
    "edge_rel d \<subseteq> fset (fmdom nodes) \<times> fset (fmdom nodes)"
    using collect_nodes_map collect_variables_map validate_edges_Ok by blast+
  with rest that show ?thesis by blast
qed

lemma safe_validate_definition: "safe (validate_definition ops inputs limits d)"
proof -
  have "safe (validate_effect_output_writes nodes variables)"
    "safe (validate_parallel_writes d nodes variables limits)"
    "safe (validate_cycles d nodes)"
    if nodes: "collect_nodes d = Ok nodes" and vars: "collect_variables d = Ok variables"
      and edges: "validate_edges d nodes limits = Ok u"
      and ok: "validate_variables ops d nodes variables limits = Ok v" for nodes variables u v
  proof -
    have map: "node_map_of d nodes" and vmap: "variable_map_of d variables"
      and rel: "edge_rel d \<subseteq> fset (fmdom nodes) \<times> fset (fmdom nodes)"
      using collect_nodes_map [OF nodes] collect_variables_map [OF vars] validate_edges_Ok [of d nodes limits] edges
      by simp_all
    have writes: "writes_declared nodes variables" using validate_variables_writes [OF _ map] ok by simp
    have policy: "merge_policy x \<noteq> None" if "x \<in> set (merged_variables variables)" for x
      using validate_variables_policy [OF _ vmap that] ok by simp
    show "safe (validate_effect_output_writes nodes variables)"
      by (rule safe_validate_effect_output_writes [OF writes])
    show "safe (validate_parallel_writes d nodes variables limits)"
      unfolding validate_parallel_writes_def
      using safe_validate_parallel_node [OF rel writes] safe_ownership [OF rel policy] by (simp add: safe_check_all)
    show "safe (validate_cycles d nodes)" by (rule safe_validate_cycles [OF map rel])
  qed
  moreover have "safe (validate_variables ops d nodes variables limits)"
    if "validate_edges d nodes limits = Ok u" for nodes variables u
    using validate_edges_Ok [of d nodes limits] that by (intro safe_validate_variables) simp
  ultimately show ?thesis unfolding validate_definition_def by simp
qed

text \<open>
  C16. The graph compiler never panics: whatever the source, the inputs, the limits and the
  results of the external parsers and serializers, \<^verbatim>\<open>compile\<close> returns a graph or a
  \<^verbatim>\<open>GraphError\<close>. No \<^verbatim>\<open>expect\<close> fails, no index is missing, no counter underflows and the
  condition parser always returns.
\<close>

theorem compile_never_panics: "compile ops source inputs limits \<noteq> Err Panicked"
proof -
  have "safe (GraphDefinition_parse ops source limits)"
    by (simp add: GraphDefinition_parse_def)
  moreover have "safe (layout_graph ops source inputs limits d)"
    if "validate_definition ops inputs limits d = Ok u" for d u
  proof -
    have "validate_definition ops inputs limits d = Ok ()" using that by simp
    then show ?thesis
      by (rule validate_definition_Ok) (auto intro!: safe_layout_graph simp: validate_entry_Ok)
  qed
  ultimately have "safe (compile ops source inputs limits)"
    by (simp add: compile_def safe_validate_definition)
  then show ?thesis by (simp add: safe_def)
qed

end
