(* ===== verification/Graph_Correct.thy ===== *)
theory Graph_Correct
  imports Graph_Safety
begin

text \<open>
  What a compiled graph guarantees to the code that executes it. The statements are about
  the \<^verbatim>\<open>ExecutableGraph\<close> that \<^verbatim>\<open>compile\<close> returns: its indices, its paths, its cycles, the
  variables and capabilities its nodes use, and its parallel regions.
\<close>

section \<open>From names to indices\<close>

definition exec_rel :: "'n ExecutableGraph \<Rightarrow> (nat \<times> nat) set" where
  "exec_rel g = (\<lambda>e. (exec_from e, exec_to e)) ` set (exec_edges g)"

lemma compile_Ok:
  assumes "compile ops source inputs limits = Ok g"
  obtains d where "toml_from_str ops source = Ok d" "validate_definition ops inputs limits d = Ok ()"
    "layout_graph ops source inputs limits d = Ok g"
  using assms by (auto simp: compile_def GraphDefinition_parse_def result_simps split: if_splits)

lemma list_all2_memb1: "list_all2 P xs ys \<Longrightarrow> x \<in> set xs \<Longrightarrow> \<exists>y \<in> set ys. P x y"
  by (induction rule: list_all2_induct) auto

lemma list_all2_memb2: "list_all2 P xs ys \<Longrightarrow> y \<in> set ys \<Longrightarrow> \<exists>x \<in> set xs. P x y"
  by (induction rule: list_all2_induct) auto

lemma layout_graph_Ok:
  assumes "layout_graph ops source inputs limits d = Ok g"
  shows "exec_format_version g = graph_format_version d" "exec_budget g = graph_budget d"
    "exec_declarations g = graph_declarations d"
    "exec_variables g = sort_key variable_name (graph_variables d)"
    "cache_key g = build_cache_key ops source inputs"
    "list_all2 (\<lambda>p x. compile_node ops limits p = Ok x) (enumerate 0 (sort_key node_id (graph_nodes d))) (exec_nodes g)"
    "list_all2 (\<lambda>e x. compile_edge ops limits (index_nodes (sort_key node_id (graph_nodes d))) e = Ok x)
       (sort_key edge_order (graph_edges d)) (exec_edges g)"
    "fmlookup (index_nodes (sort_key node_id (graph_nodes d))) (graph_entry d) = Some (exec_entry_index g)"
  using assms by (auto simp: layout_graph_def Let_def result_simps)

lemma compile_node_Ok:
  "compile_node ops limits (i, nd) = Ok x \<Longrightarrow>
   exec_index x = i \<and> exec_id x = node_id nd \<and> exec_kind x = node_kind nd \<and>
   exec_required_capabilities x = required_capabilities nd \<and> exec_tool x = tool nd \<and>
   exec_provider x = provider nd \<and> exec_read_variables x = read_variables nd \<and>
   exec_write_variables x = write_variables nd \<and> exec_write_scopes x = write_scopes nd \<and>
   exec_retry_limit x = retry_limit nd \<and> exec_max_iterations x = max_iterations nd \<and>
   exec_configuration x = map_option canonicalize_node_configuration (effective_node_configuration nd) \<and>
   parse_condition ops (node_condition nd) (node_id nd) (limit_expression limits) = Ok (exec_condition x)"
  by (auto simp: compile_node_def rbind_eq_Ok)

lemma exec_node_at:
  assumes "layout_graph ops source inputs limits d = Ok g" and "i < length (exec_nodes g)"
  shows "compile_node ops limits (i, sort_key node_id (graph_nodes d) ! i) = Ok (exec_nodes g ! i)"
proof -
  let ?nds = "sort_key node_id (graph_nodes d)"
  have all: "list_all2 (\<lambda>p x. compile_node ops limits p = Ok x) (enumerate 0 ?nds) (exec_nodes g)"
    by (rule layout_graph_Ok(6) [OF assms(1)])
  then have "i < length ?nds" using assms(2) by (auto dest: list_all2_lengthD)
  then show ?thesis using list_all2_nthD [OF all, of i] by (simp add: nth_enumerate_eq)
qed

lemma exec_rel_iff:
  assumes nodes: "distinct (map node_id (graph_nodes d))"
    and layout: "layout_graph ops source inputs limits d = Ok g"
  shows "(i, j) \<in> exec_rel g \<longleftrightarrow>
    i < length (exec_nodes g) \<and> j < length (exec_nodes g) \<and>
    (exec_id (exec_nodes g ! i), exec_id (exec_nodes g ! j)) \<in> edge_rel d"
proof -
  let ?nds = "sort_key node_id (graph_nodes d)" and ?es = "sort_key edge_order (graph_edges d)"
  have len: "length (exec_nodes g) = length ?nds"
    using list_all2_lengthD [OF layout_graph_Ok(6) [OF layout]] by simp
  have dist: "distinct (map node_id ?nds)" using nodes by (simp add: distinct_map)
  have at: "exec_id (exec_nodes g ! k) = node_id (?nds ! k)" if "k < length ?nds" for k
    using exec_node_at [OF layout, of k] that len by (auto dest!: compile_node_Ok)
  have index: "fmlookup (index_nodes ?nds) a = Some k \<longleftrightarrow> k < length ?nds \<and> exec_id (exec_nodes g ! k) = a" for a k
    using fmlookup_index_nodes [OF dist, of a k] at by auto
  have edges: "list_all2 (\<lambda>e x. compile_edge ops limits (index_nodes ?nds) e = Ok x) ?es (exec_edges g)"
    by (rule layout_graph_Ok(7) [OF layout])
  have edge: "fmlookup (index_nodes ?nds) (edge_from e) = Some (exec_from x) \<and>
      fmlookup (index_nodes ?nds) (edge_to e) = Some (exec_to x)"
    if "compile_edge ops limits (index_nodes ?nds) e = Ok x" for e x
    using that by (auto simp: compile_edge_def rbind_eq_Ok)
  show ?thesis
  proof
    assume "(i, j) \<in> exec_rel g"
    then obtain x where x: "x \<in> set (exec_edges g)" "i = exec_from x" "j = exec_to x" by (auto simp: exec_rel_def)
    then obtain e where "e \<in> set (graph_edges d)" "compile_edge ops limits (index_nodes ?nds) e = Ok x"
      using list_all2_memb2 [OF edges] by auto
    then show "i < length (exec_nodes g) \<and> j < length (exec_nodes g) \<and>
        (exec_id (exec_nodes g ! i), exec_id (exec_nodes g ! j)) \<in> edge_rel d"
      using edge [of e x] x by (auto simp: index len edge_rel_def image_iff)
  next
    assume ij: "i < length (exec_nodes g) \<and> j < length (exec_nodes g) \<and>
        (exec_id (exec_nodes g ! i), exec_id (exec_nodes g ! j)) \<in> edge_rel d"
    then obtain e where e: "e \<in> set ?es" "exec_id (exec_nodes g ! i) = edge_from e" "exec_id (exec_nodes g ! j) = edge_to e"
      by (auto simp: edge_rel_def)
    then obtain x where x: "x \<in> set (exec_edges g)" "compile_edge ops limits (index_nodes ?nds) e = Ok x"
      using list_all2_memb1 [OF edges] by auto
    have "exec_from x = i" "exec_to x = j"
      using edge [OF x(2)] index [of "edge_from e" i] index [of "edge_to e" j] ij e len by auto
    then show "(i, j) \<in> exec_rel g" using x(1) by (auto simp: exec_rel_def)
  qed
qed


text \<open>
  Everything the properties below use of an accepted graph: \<open>d\<close> is the parsed definition, and
  the compiled node \<open>i\<close> comes from the \<open>i\<close>-th definition in the order of names.
\<close>

definition compiled_from ::
  "'n graph_ops \<Rightarrow> GraphCacheInputs \<Rightarrow> CompilerLimits \<Rightarrow> 'n GraphDefinition \<Rightarrow> 'n ExecutableGraph \<Rightarrow> bool" where
  "compiled_from ops inputs limits d g \<longleftrightarrow>
     validate_definition ops inputs limits d = Ok () \<and> (\<exists>source. layout_graph ops source inputs limits d = Ok g)"

lemma compile_compiled_from:
  "compile ops source inputs limits = Ok g \<Longrightarrow> \<exists>d. compiled_from ops inputs limits d g"
  unfolding compiled_from_def by (metis compile_Ok)

lemma compiled_nodes:
  assumes "compiled_from ops inputs limits d g"
  shows "length (exec_nodes g) = length (graph_nodes d)"
    and "i < length (exec_nodes g) \<Longrightarrow>
      compile_node ops limits (i, sort_key node_id (graph_nodes d) ! i) = Ok (exec_nodes g ! i)"
    and "i < length (exec_nodes g) \<Longrightarrow> sort_key node_id (graph_nodes d) ! i \<in> set (graph_nodes d)"
proof -
  obtain source where layout: "layout_graph ops source inputs limits d = Ok g"
    using assms by (auto simp: compiled_from_def)
  show len: "length (exec_nodes g) = length (graph_nodes d)"
    using list_all2_lengthD [OF layout_graph_Ok(6) [OF layout]] by simp
  show "compile_node ops limits (i, sort_key node_id (graph_nodes d) ! i) = Ok (exec_nodes g ! i)"
    if "i < length (exec_nodes g)"
    by (rule exec_node_at [OF layout that])
  show "sort_key node_id (graph_nodes d) ! i \<in> set (graph_nodes d)" if "i < length (exec_nodes g)"
    using that len nth_mem [of i "sort_key node_id (graph_nodes d)"] by simp
qed

lemma compiled_node_of:
  assumes "compiled_from ops inputs limits d g" and "x \<in> set (exec_nodes g)"
  obtains i nd where "i < length (exec_nodes g)" "x = exec_nodes g ! i" "nd \<in> set (graph_nodes d)"
    "compile_node ops limits (i, nd) = Ok x"
  using compiled_nodes [OF assms(1)] assms(2) by (metis in_set_conv_nth)

lemma compiled_ids:
  assumes "compiled_from ops inputs limits d g"
  shows "map exec_id (exec_nodes g) = map node_id (sort_key node_id (graph_nodes d))"
proof (rule nth_equalityI)
  show "length (map exec_id (exec_nodes g)) = length (map node_id (sort_key node_id (graph_nodes d)))"
    by (simp add: compiled_nodes(1) [OF assms])
  fix i assume "i < length (map exec_id (exec_nodes g))"
  then have "i < length (exec_nodes g)" by simp
  then show "map exec_id (exec_nodes g) ! i = map node_id (sort_key node_id (graph_nodes d)) ! i"
    using compile_node_Ok [OF compiled_nodes(2) [OF assms]] compiled_nodes(1) [OF assms] by simp
qed

lemma compiled_edges:
  assumes "compiled_from ops inputs limits d g"
  shows "(i, j) \<in> exec_rel g \<longleftrightarrow> i < length (exec_nodes g) \<and> j < length (exec_nodes g) \<and>
    (exec_id (exec_nodes g ! i), exec_id (exec_nodes g ! j)) \<in> edge_rel d"
proof -
  obtain source where layout: "layout_graph ops source inputs limits d = Ok g"
    and ok: "validate_definition ops inputs limits d = Ok ()"
    using assms by (auto simp: compiled_from_def)
  have "distinct (map node_id (graph_nodes d))"
    by (rule validate_definition_Ok [OF ok]) (simp add: node_map_of_def)
  then show ?thesis by (rule exec_rel_iff [OF _ layout])
qed

lemma compiled_index:
  assumes c: "compiled_from ops inputs limits d g"
  shows "a \<in> node_id ` set (graph_nodes d) \<longleftrightarrow> (\<exists>i < length (exec_nodes g). exec_id (exec_nodes g ! i) = a)"
proof -
  have "node_id ` set (graph_nodes d) = set (map exec_id (exec_nodes g))"
    unfolding compiled_ids [OF c] by simp
  then show ?thesis by (simp only: in_set_conv_nth length_map) auto
qed

lemma compiled_distinct: "compiled_from ops inputs limits d g \<Longrightarrow> distinct (map exec_id (exec_nodes g))"
proof -
  assume c: "compiled_from ops inputs limits d g"
  then have ok: "validate_definition ops inputs limits d = Ok ()" by (simp add: compiled_from_def)
  show ?thesis
    unfolding compiled_ids [OF c]
    by (rule validate_definition_Ok [OF ok]) (simp add: node_map_of_def distinct_map)
qed

lemma compiled_entry:
  assumes c: "compiled_from ops inputs limits d g"
  shows "exec_entry_index g < length (exec_nodes g)"
    "exec_id (exec_nodes g ! exec_entry_index g) = graph_entry d"
proof -
  obtain source where layout: "layout_graph ops source inputs limits d = Ok g"
    using c by (auto simp: compiled_from_def)
  let ?nds = "sort_key node_id (graph_nodes d)"
  have "distinct (map node_id ?nds)" using compiled_distinct [OF c] unfolding compiled_ids [OF c] .
  then have "exec_entry_index g < length ?nds" "node_id (?nds ! exec_entry_index g) = graph_entry d"
    using layout_graph_Ok(8) [OF layout] by (simp_all add: fmlookup_index_nodes)
  then show lt: "exec_entry_index g < length (exec_nodes g)" by (simp add: compiled_nodes(1) [OF c])
  then show "exec_id (exec_nodes g ! exec_entry_index g) = graph_entry d"
    using \<open>node_id (?nds ! exec_entry_index g) = graph_entry d\<close> compile_node_Ok [OF compiled_nodes(2) [OF c lt]]
    by simp
qed

section \<open>Paths\<close>

lemma compiled_path:
  assumes c: "compiled_from ops inputs limits d g" and i: "i < length (exec_nodes g)"
    and path: "(exec_id (exec_nodes g ! i), b) \<in> (edge_rel d)\<^sup>*"
  shows "\<exists>j < length (exec_nodes g). exec_id (exec_nodes g ! j) = b \<and> (i, j) \<in> (exec_rel g)\<^sup>*"
  using path
proof (induction rule: rtrancl_induct)
  case base
  then show ?case using i by blast
next
  case (step b e)
  then obtain j where j: "j < length (exec_nodes g)" "exec_id (exec_nodes g ! j) = b" "(i, j) \<in> (exec_rel g)\<^sup>*"
    by blast
  have "e \<in> node_id ` set (graph_nodes d)"
  proof -
    have ok: "validate_definition ops inputs limits d = Ok ()" using c by (simp add: compiled_from_def)
    show ?thesis by (rule validate_definition_Ok [OF ok]) (use step(2) in \<open>auto simp: node_map_dom\<close>)
  qed
  then obtain k where k: "k < length (exec_nodes g)" "exec_id (exec_nodes g ! k) = e"
    using compiled_index [OF c] by blast
  then have "(j, k) \<in> exec_rel g" using step(2) j by (simp add: compiled_edges [OF c])
  then have "(i, k) \<in> (exec_rel g)\<^sup>*" by (rule rtrancl.rtrancl_into_rtrancl [OF j(3)])
  then show ?case using k by blast
qed

lemma compiled_index_unique:
  assumes "compiled_from ops inputs limits d g" "i < length (exec_nodes g)" "j < length (exec_nodes g)"
    and "exec_id (exec_nodes g ! i) = exec_id (exec_nodes g ! j)"
  shows "i = j"
  using compiled_distinct [OF assms(1)] assms(2-4) by (auto simp: distinct_conv_nth)

lemma compiled_path_between:
  assumes c: "compiled_from ops inputs limits d g" and ij: "i < length (exec_nodes g)" "j < length (exec_nodes g)"
    and path: "(exec_id (exec_nodes g ! i), exec_id (exec_nodes g ! j)) \<in> (edge_rel d)\<^sup>*"
  shows "(i, j) \<in> (exec_rel g)\<^sup>*"
  using compiled_path [OF c ij(1) path] compiled_index_unique [OF c _ ij(2)] by blast

lemma successively_neighbour:
  "successively P p \<Longrightarrow> 2 \<le> length p \<Longrightarrow> k \<in> set p \<Longrightarrow> \<exists>l \<in> set p. P k l \<or> P l k"
proof (induction P p rule: successively.induct)
  case (3 P x y xs)
  show ?case
  proof (cases "k = x")
    case True
    then show ?thesis using "3.prems" by auto
  next
    case False
    with "3.prems" have k: "k \<in> set (y # xs)" by simp
    show ?thesis
    proof (cases xs)
      case Nil
      then show ?thesis using "3.prems" k by auto
    next
      case (Cons z zs)
      then have "\<exists>l \<in> set (y # xs). P k l \<or> P l k" using "3.prems" k by (intro "3.IH") auto
      then show ?thesis by auto
    qed
  qed
qed auto

text \<open>
  C17. A compiled graph can be indexed without checks and is in canonical order: the node
  at position \<open>i\<close> carries index \<open>i\<close>, node names are strictly increasing, the entry and
  both ends of every edge are positions of nodes, and variable names are strictly
  increasing.
\<close>

theorem compile_layout:
  assumes "compile ops source inputs limits = Ok g"
  shows "map exec_index (exec_nodes g) = [0..<length (exec_nodes g)] \<and>
    sorted_wrt (<) (map exec_id (exec_nodes g)) \<and>
    exec_entry_index g < length (exec_nodes g) \<and>
    exec_rel g \<subseteq> {..<length (exec_nodes g)} \<times> {..<length (exec_nodes g)} \<and>
    sorted_wrt (<) (map variable_name (exec_variables g))"
proof -
  obtain d where c: "compiled_from ops inputs limits d g" using compile_compiled_from [OF assms] by blast
  then obtain source' where layout: "layout_graph ops source' inputs limits d = Ok g"
    and ok: "validate_definition ops inputs limits d = Ok ()"
    by (auto simp: compiled_from_def)
  have "map exec_index (exec_nodes g) = [0..<length (exec_nodes g)]"
    by (rule nth_equalityI) (auto dest!: compiled_nodes(2) [OF c] compile_node_Ok)
  moreover have "sorted (map exec_id (exec_nodes g))" unfolding compiled_ids [OF c] by simp
  then have "sorted_wrt (<) (map exec_id (exec_nodes g))"
    using compiled_distinct [OF c] by (simp add: strict_sorted_iff)
  moreover have "distinct (map variable_name (graph_variables d))"
    by (rule validate_definition_Ok [OF ok]) (simp add: variable_map_of_def)
  then have "sorted_wrt (<) (map variable_name (exec_variables g))"
    unfolding layout_graph_Ok(4) [OF layout] by (simp add: strict_sorted_iff distinct_map)
  ultimately show ?thesis
    using compiled_entry(1) [OF c] compiled_edges [OF c] by auto
qed

text \<open>
  C18. Execution of a compiled graph cannot be stranded: every node is reachable from the
  entry, from every node some terminal node is reachable, and terminal nodes have no
  outgoing transition.
\<close>

theorem compile_flow:
  assumes "compile ops source inputs limits = Ok g" and i: "i < length (exec_nodes g)"
  shows "(exec_entry_index g, i) \<in> (exec_rel g)\<^sup>* \<and>
    (\<exists>t < length (exec_nodes g). is_terminal (exec_kind (exec_nodes g ! t)) \<and> (i, t) \<in> (exec_rel g)\<^sup>*) \<and>
    (is_terminal (exec_kind (exec_nodes g ! i)) \<longrightarrow> exec_rel g `` {i} = {})"
proof -
  obtain d where c: "compiled_from ops inputs limits d g" using compile_compiled_from [OF assms(1)] by blast
  then have ok: "validate_definition ops inputs limits d = Ok ()" by (simp add: compiled_from_def)
  obtain nodes where map: "node_map_of d nodes" and entry: "validate_entry_and_reachability d nodes = Ok ()"
    and fin: "validate_termination d nodes = Ok ()"
    by (rule validate_definition_Ok [OF ok])
  have dom: "exec_id (exec_nodes g ! k) |\<in>| fmdom nodes" if "k < length (exec_nodes g)" for k
    using that compiled_index [OF c] node_map_dom [OF map] by blast
  have kind: "\<exists>nd \<in> set (graph_nodes d). node_id nd = exec_id (exec_nodes g ! k) \<and> node_kind nd = exec_kind (exec_nodes g ! k)"
    if "k < length (exec_nodes g)" for k
    using compiled_nodes(2,3) [OF c that] by (auto dest!: compile_node_Ok)
  have "(exec_entry_index g, i) \<in> (exec_rel g)\<^sup>*"
    using entry dom [OF i] compiled_entry [OF c] i unfolding validate_entry_Ok
    by (intro compiled_path_between [OF c]) auto
  moreover have "\<exists>t < length (exec_nodes g). is_terminal (exec_kind (exec_nodes g ! t)) \<and> (i, t) \<in> (exec_rel g)\<^sup>*"
  proof -
    obtain nd where nd: "nd \<in> set (graph_nodes d)" "is_terminal (node_kind nd)"
      "(exec_id (exec_nodes g ! i), node_id nd) \<in> (edge_rel d)\<^sup>*"
      using fin dom [OF i] unfolding validate_termination_Ok [OF map] by blast
    obtain t where t: "t < length (exec_nodes g)" "exec_id (exec_nodes g ! t) = node_id nd" "(i, t) \<in> (exec_rel g)\<^sup>*"
      using compiled_path [OF c i nd(3)] by blast
    obtain nd' where "nd' \<in> set (graph_nodes d)" "node_id nd' = node_id nd" "node_kind nd' = exec_kind (exec_nodes g ! t)"
      using kind [OF t(1)] t(2) by auto
    then have "exec_kind (exec_nodes g ! t) = node_kind nd" using map nd(1) by (metis node_map_lookup option.inject)
    then show ?thesis using t nd(2) by auto
  qed
  moreover have "exec_rel g `` {i} = {}" if "is_terminal (exec_kind (exec_nodes g ! i))"
  proof -
    have "edge_rel d `` {exec_id (exec_nodes g ! i)} = {}"
      using fin kind [OF i] that unfolding validate_termination_Ok [OF map] by force
    then show ?thesis by (auto simp: compiled_edges [OF c])
  qed
  ultimately show ?thesis by blast
qed

text \<open>
  C19. Execution of a compiled graph cannot cycle without bound: every closed path of
  transitions passes through a loop node, and a loop node carries an iteration bound
  between 1 and the compiler's limit.
\<close>

theorem compile_cycles_bounded:
  assumes "compile ops source inputs limits = Ok g" and cycle: "closed_path (exec_rel g) p"
  shows "\<exists>i \<in> set p. i < length (exec_nodes g) \<and> exec_kind (exec_nodes g ! i) = Loop \<and>
    (\<exists>n. exec_max_iterations (exec_nodes g ! i) = Some n \<and> 0 < n \<and> n \<le> max_loop_iterations limits)"
proof -
  obtain d where c: "compiled_from ops inputs limits d g" using compile_compiled_from [OF assms(1)] by blast
  then have ok: "validate_definition ops inputs limits d = Ok ()" by (simp add: compiled_from_def)
  obtain nodes where map: "node_map_of d nodes" and rel: "edge_rel d \<subseteq> fset (fmdom nodes) \<times> fset (fmdom nodes)"
    and contracts: "validate_node_contracts ops d nodes inputs limits = Ok ()"
    and "validate_cycles d nodes = Ok ()"
    by (rule validate_definition_Ok [OF ok])
  then have acyclic: "acyclic (plain_edges d)" by (simp add: validate_cycles_decides split: if_splits)
  let ?name = "\<lambda>i. exec_id (exec_nodes g ! i)"
  have defn: "\<exists>nd \<in> set (graph_nodes d). node_id nd = ?name k \<and> node_kind nd = exec_kind (exec_nodes g ! k) \<and>
      max_iterations nd = exec_max_iterations (exec_nodes g ! k)" if "k < length (exec_nodes g)" for k
    using compiled_nodes(2,3) [OF c that] by (auto dest!: compile_node_Ok)
  have range: "k < length (exec_nodes g)" if "k \<in> set p" for k
  proof -
    have "\<exists>l. (k, l) \<in> exec_rel g \<or> (l, k) \<in> exec_rel g"
      using cycle that by (auto simp: closed_path_def dest: successively_neighbour)
    then show ?thesis by (auto simp: compiled_edges [OF c])
  qed
  have "\<exists>i \<in> set p. exec_kind (exec_nodes g ! i) = Loop"
  proof (rule ccontr)
    assume "\<not> (\<exists>i \<in> set p. exec_kind (exec_nodes g ! i) = Loop)"
    then have plain: "?name k \<in> plain_nodes d" if "k \<in> set p" for k
      using defn [OF range [OF that]] that by (force simp: plain_nodes_def)
    have "closed_path (plain_edges d) (map ?name p)"
      by (rule closed_path_map [OF cycle]) (simp add: plain plain_edges_def compiled_edges [OF c])
    then show False using acyclic closed_path_cyclic by blast
  qed
  then obtain i where i: "i \<in> set p" "exec_kind (exec_nodes g ! i) = Loop" by blast
  obtain nd where nd: "nd \<in> set (graph_nodes d)" "node_kind nd = Loop"
    "max_iterations nd = exec_max_iterations (exec_nodes g ! i)"
    using defn [OF range [OF i(1)]] i(2) by auto
  have "check_loop_bound nd limits = Ok ()"
    using contracts nd(1) by (auto simp: validate_node_contracts_def validate_node_contract_def result_simps)
  then show ?thesis
    using i nd range by (force simp: check_loop_bound_def result_simps split: option.splits)
qed

end
