(* ===== verification/Graph_Uses.thy ===== *)
theory Graph_Uses
  imports Graph_Correct
begin

text \<open>
  What the nodes of a compiled graph may use: variables, environment values in conditions,
  capabilities, tools and providers, and the outputs of their effects.
\<close>

section \<open>Variables\<close>

definition readable :: "'n ExecutableGraph \<Rightarrow> string \<Rightarrow> string \<Rightarrow> bool" where
  "readable g nd v \<longleftrightarrow> (\<exists>decl \<in> set (exec_variables g). variable_name decl = v \<and> nd |\<in>| consumers decl)"

definition writable :: "'n ExecutableGraph \<Rightarrow> string \<Rightarrow> string \<Rightarrow> bool" where
  "writable g nd v \<longleftrightarrow>
     (\<exists>decl \<in> set (exec_variables g). variable_name decl = v \<and>
        (producer decl = nd \<or> nd |\<in>| merge_contributors decl))"

lemma compiled_variables:
  assumes "compiled_from ops inputs limits d g"
  shows "set (exec_variables g) = set (graph_variables d)"
  using assms layout_graph_Ok(4) by (force simp: compiled_from_def)

lemma compiled_access:
  assumes c: "compiled_from ops inputs limits d g" and x: "x \<in> set (exec_nodes g)"
  obtains nd variables where "nd \<in> set (graph_nodes d)" "variable_map_of d variables"
    "exec_id x = node_id nd" "exec_read_variables x = read_variables nd"
    "exec_write_variables x = write_variables nd" "exec_kind x = node_kind nd"
    "parse_condition ops (node_condition nd) (node_id nd) (limit_expression limits) = Ok (exec_condition x)"
    "validate_node_access ops d variables limits nd = Ok ()" "validate_node_effects variables nd = Ok ()"
proof -
  obtain i nd where nd: "nd \<in> set (graph_nodes d)" "compile_node ops limits (i, nd) = Ok x"
    using compiled_node_of [OF c x] by blast
  have ok: "validate_definition ops inputs limits d = Ok ()" using c by (simp add: compiled_from_def)
  obtain nodes variables where "node_map_of d nodes" and vm: "variable_map_of d variables"
    and "validate_variables ops d nodes variables limits = Ok ()"
      "validate_effect_output_writes nodes variables = Ok ()"
    by (rule validate_definition_Ok [OF ok])
  then have "validate_node_access ops d variables limits nd = Ok ()" "validate_node_effects variables nd = Ok ()"
    using nd(1) by (auto simp: validate_variables_def validate_effect_output_writes_def result_simps node_map_values)
  then show ?thesis using that nd vm compile_node_Ok [OF nd(2)] by simp
qed

text \<open>
  C20. A node of a compiled graph touches only variables it is entitled to: every variable
  it reads is declared and names it as a consumer, every variable it writes is declared
  and names it as its producer or as a merge contributor.
\<close>

theorem compile_access:
  assumes "compile ops source inputs limits = Ok g" and "x \<in> set (exec_nodes g)"
  shows "fBall (exec_read_variables x) (readable g (exec_id x)) \<and>
    fBall (exec_write_variables x) (writable g (exec_id x))"
proof -
  obtain d where c: "compiled_from ops inputs limits d g" using compile_compiled_from [OF assms(1)] by blast
  obtain nd variables where vm: "variable_map_of d variables"
    and x: "exec_id x = node_id nd" "exec_read_variables x = read_variables nd" "exec_write_variables x = write_variables nd"
    and ok: "validate_node_access ops d variables limits nd = Ok ()"
    by (rule compiled_access [OF c assms(2)])
  have decl: "decl \<in> set (exec_variables g) \<and> variable_name decl = v" if "fmlookup variables v = Some decl" for v decl
    using that vm by (simp add: variable_map_of_def compiled_variables [OF c])
  have "readable g (exec_id x) v" if "v |\<in>| exec_read_variables x" for v
    using ok that x decl by (fastforce simp: validate_node_access_def check_read_def result_simps readable_def)
  moreover have "writable g (exec_id x) v" if "v |\<in>| exec_write_variables x" for v
    using ok that x decl by (fastforce simp: validate_node_access_def check_write_def result_simps writable_def)
  ultimately show ?thesis by blast
qed

section \<open>Conditions\<close>













section \<open>Contracts\<close>

lemma is_tool_batch_compiled:
  "is_tool_batch (map_option canonicalize_node_configuration (effective_node_configuration nd)) \<longleftrightarrow>
   is_tool_batch (configuration nd)"
proof -
  have "is_tool_batch (Some (canonicalize_node_configuration c)) \<longleftrightarrow> is_tool_batch (Some c)" for c :: "'a NodeConfiguration"
    by (cases c rule: canonicalize_node_configuration.cases) (simp_all add: is_tool_batch_def)
  then show ?thesis
    by (cases "configuration nd") (simp_all add: effective_node_configuration_def is_tool_batch_def)
qed

text \<open>
  C22. A compiled graph asks for nothing that was not declared and granted: every capability
  a node needs, stated or implied by its kind, is declared by the graph, every declared
  capability is in the runtime's set, the tool of a tool gate (unless it runs a provider's
  batch) and the provider of a model call or review are declared, retries are within the
  limit, and the four budgets are positive and within the limits.
\<close>

theorem compile_contracts:
  assumes "compile ops source inputs limits = Ok g" and x: "x \<in> set (exec_nodes g)"
  shows "exec_required_capabilities x |\<subseteq>| declared_capabilities (exec_declarations g) \<and>
    (\<forall>c. implied_capability (exec_kind x) = Some c \<longrightarrow> c |\<in>| declared_capabilities (exec_declarations g)) \<and>
    declared_capabilities (exec_declarations g) |\<subseteq>| capability_set inputs \<and>
    (exec_kind x = ToolExecutionGate \<and> \<not> is_tool_batch (exec_configuration x) \<longrightarrow>
       (\<exists>t. exec_tool x = Some t \<and> t |\<in>| declared_tools (exec_declarations g))) \<and>
    (exec_kind x \<in> {ModelCall, NodeKind.Review} \<longrightarrow>
       (\<exists>p. exec_provider x = Some p \<and> p |\<in>| declared_providers (exec_declarations g))) \<and>
    exec_retry_limit x \<le> max_retry_limit limits \<and>
    GraphBudget.max_steps (exec_budget g) \<in> {1..CompilerLimits.max_steps limits} \<and>
    GraphBudget.max_tokens (exec_budget g) \<in> {1..CompilerLimits.max_tokens limits} \<and>
    GraphBudget.max_cost_micros (exec_budget g) \<in> {1..CompilerLimits.max_cost_micros limits} \<and>
    GraphBudget.max_duration_ms (exec_budget g) \<in> {1..CompilerLimits.max_duration_ms limits}"
proof -
  obtain d where c: "compiled_from ops inputs limits d g" using compile_compiled_from [OF assms(1)] by blast
  then obtain source' where ok: "validate_definition ops inputs limits d = Ok ()"
    and layout: "layout_graph ops source' inputs limits d = Ok g" by (auto simp: compiled_from_def)
  obtain i nd where nd: "nd \<in> set (graph_nodes d)" "compile_node ops limits (i, nd) = Ok x"
    using compiled_node_of [OF c x] by blast
  note same = compile_node_Ok [OF nd(2)] layout_graph_Ok(2,3) [OF layout]
  obtain nodes where "validate_node_contracts ops d nodes inputs limits = Ok ()"
    by (rule validate_definition_Ok [OF ok])
  then have granted: "declared_capabilities (graph_declarations d) |\<subseteq>| capability_set inputs"
    and node: "validate_node_contract ops d nodes limits nd = Ok ()"
    using nd(1) by (auto simp: validate_node_contracts_def result_simps)
  have caps: "set (node_capabilities nd) \<subseteq> fset (declared_capabilities (graph_declarations d))"
    and impl: "check_implementation nd d = Ok ()" and retry: "retry_limit nd \<le> max_retry_limit limits"
    using node by (auto simp: validate_node_contract_def result_simps)
  have "validate_version_and_bounds d limits = Ok ()"
    using ok by (auto simp: validate_definition_def rbind_eq_Ok)
  then have budgets: "GraphBudget.max_steps (graph_budget d) \<in> {1..CompilerLimits.max_steps limits}"
    "GraphBudget.max_tokens (graph_budget d) \<in> {1..CompilerLimits.max_tokens limits}"
    "GraphBudget.max_cost_micros (graph_budget d) \<in> {1..CompilerLimits.max_cost_micros limits}"
    "GraphBudget.max_duration_ms (graph_budget d) \<in> {1..CompilerLimits.max_duration_ms limits}"
    by (auto simp: validate_version_and_bounds_def result_simps)
  have required: "required_capabilities nd |\<subseteq>| declared_capabilities (graph_declarations d)"
    and implied: "\<And>cap. implied_capability (node_kind nd) = Some cap \<Longrightarrow> cap |\<in>| declared_capabilities (graph_declarations d)"
    using caps by (auto simp: node_capabilities_def)
  have tools: "\<exists>t. tool nd = Some t \<and> t |\<in>| declared_tools (graph_declarations d)"
    if "node_kind nd = ToolExecutionGate" "\<not> is_tool_batch (configuration nd)"
    using impl that by (auto simp: check_implementation_def result_simps)
  have providers: "\<exists>p. provider nd = Some p \<and> p |\<in>| declared_providers (graph_declarations d)"
    if "node_kind nd = ModelCall \<or> node_kind nd = NodeKind.Review"
    using impl that by (auto simp: check_implementation_def result_simps)
  show ?thesis
    using granted required implied tools providers retry budgets same
    by (simp add: is_tool_batch_compiled)
qed

end
