(* ===== verification/Graph_Regions.thy ===== *)
theory Graph_Regions
  imports Graph_Uses
begin

text \<open>
  Parallel regions of a compiled graph: the branches of a parallel node are disjoint, are
  entered only through their fan-out edge, feed the join alone, and do not conflict in
  what they write.
\<close>

section \<open>Regions of accepted branches\<close>

text \<open>Fail nodes end a path; terminal nodes have no outgoing edges, so the region is a plain search.\<close>

definition fails_end :: "(string, 'n NodeDefinition) fmap \<Rightarrow> adjacency_map \<Rightarrow> bool" where
  "fails_end nodes graph \<longleftrightarrow>
     (\<forall>n nd. fmlookup nodes n = Some nd \<and> node_kind nd = Fail \<longrightarrow> targets_of graph n = [])"

lemma region_loop_Ok:
  assumes fails: "fails_end nodes graph"
  shows "region_loop p b j graph nodes queue members = Ok R \<Longrightarrow>
    R = search (\<lambda>n. n = j) graph queue members \<and>
    (\<forall>n. n |\<in>| R \<longrightarrow> n |\<in>| members \<or>
      (\<exists>nd. fmlookup nodes n = Some nd \<and> node_kind nd \<notin> {NodeKind.CompleteTurn, CompleteSession}))"
  using fails
proof (induction p b j graph nodes queue members rule: region_loop.induct)
  case (2 p b j graph nodes n queue members)
  show ?case
  proof (cases "n = j \<or> n |\<in>| members")
    case True
    then show ?thesis using 2 by simp
  next
    case False
    then obtain nd where nd: "fmlookup nodes n = Some nd" using "2.prems" by (auto split: option.splits)
    then have kind: "node_kind nd \<notin> {NodeKind.CompleteTurn, CompleteSession}"
      using "2.prems"(1) False by (auto split: if_splits)
    show ?thesis
    proof (cases "node_kind nd = Fail")
      case fail: True
      then have "targets_of graph n = []" using "2.prems"(2) nd unfolding fails_end_def by blast
      then show ?thesis
        using "2.IH"(2) [OF False nd fail] "2.prems" False nd fail kind by fastforce
    next
      case other: False
      have "targets_of graph n \<noteq> []" using "2.prems"(1) False nd other kind by (auto split: if_splits)
      then show ?thesis
        using "2.IH"(3) [OF False nd other] "2.prems" False nd other kind by fastforce
    qed
  qed
qed simp

lemma writes_loop_covers:
  "fset acc \<union> {w. \<exists>n nd. n |\<in>| search (\<lambda>n. n = j) graph queue visited \<and> n |\<notin>| visited \<and>
      fmlookup nodes n = Some nd \<and> w |\<in>| writes nd} \<subseteq> fset (writes_loop writes j graph nodes queue visited acc)"
proof (induction writes j graph nodes queue visited acc rule: writes_loop.induct)
  case (2 writes j graph nodes n queue visited acc)
  show ?case
  proof (cases "n = j \<or> n |\<in>| visited")
    case True
    then show ?thesis using 2 by auto
  next
    case False
    let ?acc = "case fmlookup nodes n of Some nd \<Rightarrow> acc |\<union>| writes nd | None \<Rightarrow> acc"
    let ?S = "search (\<lambda>n. n = j) graph (queue @ targets_of graph n) (finsert n visited)"
    let ?R = "fset (writes_loop writes j graph nodes (queue @ targets_of graph n) (finsert n visited) ?acc)"
    have IH: "fset ?acc \<subseteq> ?R"
      "\<And>w m nd. m |\<in>| ?S \<Longrightarrow> m |\<notin>| finsert n visited \<Longrightarrow> fmlookup nodes m = Some nd \<Longrightarrow> w |\<in>| writes nd \<Longrightarrow> w \<in> ?R"
      using "2.IH"(2) [OF False] by blast+
    have acc: "fset acc \<subseteq> fset ?acc" "\<And>nd. fmlookup nodes n = Some nd \<Longrightarrow> fset (writes nd) \<subseteq> fset ?acc"
      by (auto split: option.split)
    have "w \<in> ?R" if "m |\<in>| ?S" "m |\<notin>| visited" "fmlookup nodes m = Some nd" "w |\<in>| writes nd" for w m nd
      using that IH acc by (cases "m = n") blast+
    then show ?thesis using False IH(1) acc(1) by auto
  qed
qed auto

lemma branch_writes:
  assumes "n |\<in>| branch_members b j graph" and "fmlookup nodes n = Some nd"
  shows "write_scopes nd |\<subseteq>| branch_write_scopes b j graph nodes"
    "write_variables nd |\<subseteq>| branch_write_variables b j graph nodes"
proof -
  have "n |\<in>| search (\<lambda>n. n = j) graph [b] {||}" "n |\<notin>| {||}"
    using assms(1) by (simp_all add: branch_members_def del: search.simps)
  then show "write_scopes nd |\<subseteq>| branch_write_scopes b j graph nodes"
    "write_variables nd |\<subseteq>| branch_write_variables b j graph nodes"
    using assms(2) writes_loop_covers [of "{||}" j graph "[b]" "{||}" nodes write_scopes]
      writes_loop_covers [of "{||}" j graph "[b]" "{||}" nodes write_variables]
    unfolding branch_write_scopes_def branch_write_variables_def less_eq_fset.rep_eq by blast+
qed

section \<open>What the topology check establishes\<close>

lemma check_fanout_Ok:
  "check_fanout p j m es (labels, targets) = Ok st \<Longrightarrow>
   distinct (map edge_to es) \<and> (\<forall>e \<in> set es. edge_to e \<noteq> j \<and> edge_to e |\<notin>| targets)"
  by (induction p j m es "(labels, targets)" arbitrary: labels targets rule: check_fanout.induct)
    (fastforce simp: result_simps)+

lemma index_pairs_iff: "(l, r) \<in> set (index_pairs n) \<longleftrightarrow> l < r \<and> r < n"
  by (auto simp: index_pairs_def image_iff)

lemma check_overlaps_Ok:
  assumes "check_overlaps p branches regions = Ok ()" and "k < length regions" "l < length regions" "k \<noteq> l"
  shows "regions ! k |\<inter>| regions ! l = {||}"
proof -
  have *: "regions ! a |\<inter>| regions ! b = {||}" if "a < b" "b < length regions" for a b
  proof -
    have "(a, b) \<in> set (index_pairs (length regions))" using that by (simp add: index_pairs_iff)
    then have "first_common (regions ! a) (regions ! b) = None"
      using assms(1) unfolding check_overlaps_def check_all_eq_Ok by (force split: option.splits)
    then show ?thesis by simp
  qed
  show ?thesis using * [of k l] * [of l k] assms(2-4) by (cases "k < l") (auto simp: inf_commute)
qed

text \<open>
  Regions \<open>R\<close> of the branches \<open>B\<close> of the node \<open>p\<close>, over the edges \<open>E\<close>: pairwise disjoint, entered
  from outside only by the edge from \<open>p\<close> to the head of the branch, and the only way into the join.
\<close>

definition isolated_branches ::
  "(string \<times> string) set \<Rightarrow> string \<Rightarrow> string \<Rightarrow> string set \<Rightarrow> (string \<Rightarrow> string set) \<Rightarrow> bool" where
  "isolated_branches E p join B R \<longleftrightarrow>
     join \<notin> B \<and>
     (\<forall>b \<in> B. \<forall>b' \<in> B. b \<noteq> b' \<longrightarrow> R b \<inter> R b' = {}) \<and>
     (\<forall>b \<in> B. \<forall>m \<in> R b. \<forall>a. (a, m) \<in> E \<longrightarrow> a \<in> R b \<or> (m = b \<and> a = p)) \<and>
     (\<forall>a. (a, join) \<in> E \<longrightarrow> (\<exists>b \<in> B. a \<in> R b))"

lemma isolated_branches_cong:
  "(\<And>b. b \<in> B \<Longrightarrow> R b = R' b) \<Longrightarrow> isolated_branches E p join B R \<longleftrightarrow> isolated_branches E p join B R'"
  unfolding isolated_branches_def by simp

lemma topology_regions:
  assumes ok: "validate_parallel_topology nd es (adjacency d) (reverse_adjacency d) nodes limits = Ok branches"
    and fails: "fails_end nodes (adjacency d)"
  obtains c where "parallel_configuration nd = Some c" "branches = map edge_to es"
    "isolated_branches (edge_rel d) (node_id nd) (join_target c) (set branches)
       (\<lambda>b. fset (branch_members b (join_target c) (adjacency d)))"
    "\<forall>b \<in> set branches. \<forall>m. m |\<in>| branch_members b (join_target c) (adjacency d) \<longrightarrow>
       (\<exists>n. fmlookup nodes m = Some n \<and> node_kind n \<notin> {NodeKind.CompleteTurn, CompleteSession})"
proof -
  obtain c st regions where c: "parallel_configuration nd = Some c" and branches: "branches = map edge_to es"
    and fanout: "check_fanout (node_id nd) (join_target c) (max_name_bytes limits) es ({||}, {||}) = Ok st"
    and regions: "list_all2 (\<lambda>b r. parallel_branch_region (node_id nd) b (join_target c) (adjacency d) nodes = Ok r)
      branches regions"
    and overlaps: "check_overlaps (node_id nd) branches regions = Ok ()"
    and entries: "check_region_entries (node_id nd) (reverse_adjacency d) (zip branches regions) = Ok ()"
    and joins: "\<forall>a \<in> set (targets_of (reverse_adjacency d) (join_target c)). list_ex (\<lambda>r. a |\<in>| r) regions"
    using ok by (auto simp: validate_parallel_topology_def Let_def result_simps split: option.splits prod.splits)
  let ?R = "\<lambda>b. branch_members b (join_target c) (adjacency d)"
  have len: "length regions = length branches" using regions by (simp add: list_all2_lengthD)
  have "region_loop (node_id nd) (branches ! k) (join_target c) (adjacency d) nodes [branches ! k] {||} = Ok (regions ! k)"
    if "k < length branches" for k
    using list_all2_nthD [OF regions that] unfolding parallel_branch_region_def .
  note region = region_loop_Ok [OF fails this]
  have at: "\<exists>k < length branches. b = branches ! k \<and> regions ! k = ?R b" if "b \<in> set branches" for b
    using that region unfolding in_set_conv_nth branch_members_def by blast
  have "?R b |\<inter>| ?R b' = {||}" if "b \<in> set branches" "b' \<in> set branches" "b \<noteq> b'" for b b'
    using at [OF that(1)] at [OF that(2)] that(3) check_overlaps_Ok [OF overlaps] len by metis
  moreover have "(m = b \<and> a = node_id nd) \<or> a |\<in>| ?R b"
    if b: "b \<in> set branches" and m: "m |\<in>| ?R b" "(a, m) \<in> edge_rel d" for a b m
  proof -
    have "(b, ?R b) \<in> set (zip branches regions)" using at [OF b] len by (auto simp: set_zip)
    moreover have "a \<in> set (targets_of (reverse_adjacency d) m)" using m(2) by (simp add: reverse_targets)
    ultimately show ?thesis using entries m(1) by (force simp: check_region_entries_def check_all_eq_Ok result_simps)
  qed
  moreover have "\<exists>b \<in> set branches. a |\<in>| ?R b" if a: "(a, join_target c) \<in> edge_rel d" for a
  proof -
    obtain k where "k < length branches" "a |\<in>| regions ! k"
      using joins a len unfolding reverse_targets list_ex_iff by (metis in_set_conv_nth mem_Collect_eq)
    then show ?thesis using region [of k] unfolding branch_members_def by (metis nth_mem)
  qed
  moreover have "join_target c \<notin> set branches" using check_fanout_Ok [OF fanout] branches by auto
  ultimately have "isolated_branches (edge_rel d) (node_id nd) (join_target c) (set branches) (\<lambda>b. fset (?R b))"
    unfolding isolated_branches_def by (metis bot_fset.rep_eq inf_fset.rep_eq)
  moreover have "\<exists>n. fmlookup nodes m = Some n \<and> node_kind n \<notin> {NodeKind.CompleteTurn, CompleteSession}"
    if b: "b \<in> set branches" and m: "m |\<in>| ?R b" for b m
  proof -
    obtain k where "k < length branches" "regions ! k = ?R b" using at [OF b] by blast
    then show ?thesis using region [of k] m by auto
  qed
  ultimately show ?thesis using that [OF c branches] by blast
qed


section \<open>Regions of a compiled graph\<close>

definition name_rel :: "'n ExecutableGraph \<Rightarrow> (string \<times> string) set" where
  "name_rel g = (\<lambda>(i, j). (exec_id (exec_nodes g ! i), exec_id (exec_nodes g ! j))) ` exec_rel g"

text \<open>The nodes on paths from the branch that avoid the join.\<close>

definition region :: "'n ExecutableGraph \<Rightarrow> string \<Rightarrow> string \<Rightarrow> string set" where
  "region g join b = (name_rel g \<inter> {(x, y). x \<noteq> join \<and> y \<noteq> join})\<^sup>* `` {b}"

definition branches_of :: "'n ExecutableGraph \<Rightarrow> string \<Rightarrow> string set" where
  "branches_of g p = name_rel g `` {p}"

definition node_named :: "'n ExecutableGraph \<Rightarrow> string \<Rightarrow> 'n ExecutableNode \<Rightarrow> bool" where
  "node_named g n x \<longleftrightarrow> x \<in> set (exec_nodes g) \<and> exec_id x = n"

lemma compiled_name_rel:
  assumes c: "compiled_from ops inputs limits d g"
  shows "name_rel g = edge_rel d"
proof (intro equalityI subrelI)
  fix a b assume "(a, b) \<in> name_rel g"
  then show "(a, b) \<in> edge_rel d" by (auto simp: name_rel_def compiled_edges [OF c])
next
  fix a b assume e: "(a, b) \<in> edge_rel d"
  have ok: "validate_definition ops inputs limits d = Ok ()" using c by (simp add: compiled_from_def)
  have "a \<in> node_id ` set (graph_nodes d) \<and> b \<in> node_id ` set (graph_nodes d)"
    by (rule validate_definition_Ok [OF ok]) (use e node_map_dom in blast)
  then obtain i j where "i < length (exec_nodes g)" "exec_id (exec_nodes g ! i) = a"
    "j < length (exec_nodes g)" "exec_id (exec_nodes g ! j) = b"
    using compiled_index [OF c] by metis
  then show "(a, b) \<in> name_rel g" using e by (force simp: name_rel_def compiled_edges [OF c])
qed

lemma region_branch_members:
  assumes "compiled_from ops inputs limits d g" and "b \<noteq> j"
  shows "fset (branch_members b j (adjacency d)) = region g j b"
proof -
  have "live_edges (\<lambda>n. n = j) (adjacency d) = name_rel g \<inter> {(x, y). x \<noteq> j \<and> y \<noteq> j}"
    by (auto simp: live_edges_def adjacency_targets compiled_name_rel [OF assms(1)])
  then show ?thesis using assms(2) by (simp add: branch_members_def search_exact region_def del: search.simps)
qed

definition conflict_resolved :: "'n ExecutableGraph \<Rightarrow> ParallelConfiguration \<Rightarrow> string \<Rightarrow> bool" where
  "conflict_resolved g c v \<longleftrightarrow>
     serialization_policy c \<noteq> None \<or> fmlookup (variable_merge_policies c) v \<noteq> None \<or>
     (\<exists>decl \<in> set (exec_variables g). variable_name decl = v \<and>
        (variable_scope decl = ScopeBranch \<or> merge_policy decl \<noteq> None))"

definition isolated :: "'n ExecutableGraph \<Rightarrow> string \<Rightarrow> ParallelConfiguration \<Rightarrow> bool" where
  "isolated g p c \<longleftrightarrow>
     isolated_branches (name_rel g) p (join_target c) (branches_of g p) (region g (join_target c)) \<and>
     (\<exists>y. node_named g (join_target c) y \<and> exec_kind y = NodeKind.JoinResults) \<and>
     (\<forall>b \<in> branches_of g p. \<forall>m \<in> region g (join_target c) b. \<forall>y.
        node_named g m y \<longrightarrow> exec_kind y \<notin> {NodeKind.CompleteTurn, CompleteSession})"

definition conflict_free :: "'n ExecutableGraph \<Rightarrow> string \<Rightarrow> ParallelConfiguration \<Rightarrow> bool" where
  "conflict_free g p c \<longleftrightarrow>
     (\<forall>b \<in> branches_of g p. \<forall>b' \<in> branches_of g p. \<forall>m \<in> region g (join_target c) b. \<forall>m' \<in> region g (join_target c) b'.
        \<forall>x y v. b \<noteq> b' \<and> node_named g m x \<and> node_named g m' y \<longrightarrow>
          (v |\<in>| exec_write_variables x \<and> v |\<in>| exec_write_variables y \<longrightarrow> conflict_resolved g c v) \<and>
          (v |\<in>| exec_write_scopes x \<and> v |\<in>| exec_write_scopes y \<longrightarrow> serialization_policy c \<noteq> None))"


lemma parallel_configuration_Some:
  "parallel_configuration nd = Some c \<longleftrightarrow> configuration nd = Some (NodeConfiguration.ParallelBranch c)"
  by (auto simp: parallel_configuration_def split: option.splits NodeConfiguration.splits)

lemma check_scope_conflicts_Ok:
  assumes "check_scope_conflicts p c branches (map f branches) = Ok ()" "serialization_policy c = None"
    and "b \<in> set branches" "b' \<in> set branches" "b \<noteq> b'"
  shows "f b |\<inter>| f b' = {||}"
proof -
  have *: "f (branches ! l) |\<inter>| f (branches ! r) = {||}" if "l < r" "r < length branches" for l r
  proof -
    have "(l, r) \<in> set (index_pairs (length branches))" using that by (simp add: index_pairs_iff)
    then have "first_common (f (branches ! l)) (f (branches ! r)) = None"
      using assms(1,2) that unfolding check_scope_conflicts_def check_all_eq_Ok by (force split: option.splits)
    then show ?thesis by simp
  qed
  obtain l r where "l < length branches" "b = branches ! l" "r < length branches" "b' = branches ! r"
    using assms(3,4) by (metis in_set_conv_nth)
  moreover from this assms(5) have "l < r \<or> r < l" by (metis linorder_neqE_nat)
  ultimately show ?thesis using * [of l r] * [of r l] by (metis inf_commute)
qed

lemma check_variable_conflicts_Ok:
  assumes ok: "check_variable_conflicts p c variables branches (map f branches) = Ok ()"
    and b: "b \<in> set branches" "b' \<in> set branches" "b \<noteq> b'" and v: "v |\<in>| f b" "v |\<in>| f b'"
  shows "serialization_policy c \<noteq> None \<or> fmlookup (variable_merge_policies c) v \<noteq> None \<or>
    (\<exists>decl. fmlookup variables v = Some decl \<and> (variable_scope decl = ScopeBranch \<or> merge_policy decl \<noteq> None))"
    (is ?thesis)
proof -
  have *: ?thesis if "l < r" "r < length branches" "v |\<in>| f (branches ! l)" "v |\<in>| f (branches ! r)" for l r
  proof -
    have "(l, r) \<in> set (index_pairs (length branches))" using that by (simp add: index_pairs_iff)
    then show ?thesis
      using ok that unfolding check_variable_conflicts_def check_all_eq_Ok Let_def
      by (fastforce simp: result_simps)
  qed
  obtain l r where "l < length branches" "b = branches ! l" "r < length branches" "b' = branches ! r"
    using b by (metis in_set_conv_nth)
  moreover from this b(3) have "l < r \<or> r < l" by (metis linorder_neqE_nat)
  ultimately show ?thesis using * [of l r] * [of r l] v by metis
qed

text \<open>The parallel check of one node, with everything it relied on.\<close>

lemma compiled_parallel:
  assumes c: "compiled_from ops inputs limits d g" and x: "x \<in> set (exec_nodes g)"
    and kind: "exec_kind x = NodeKind.ParallelBranch"
  obtains nd nodes variables where "nd \<in> set (graph_nodes d)" "node_id nd = exec_id x"
    "exec_configuration x = map_option canonicalize_node_configuration (effective_node_configuration nd)"
    "node_map_of d nodes" "variable_map_of d variables" "fails_end nodes (adjacency d)"
    "validate_node_configuration ops nd nodes d limits = Ok ()"
    "validate_parallel_node d nodes variables limits nd = Ok ()"
proof -
  obtain i nd where nd: "nd \<in> set (graph_nodes d)" "compile_node ops limits (i, nd) = Ok x"
    using compiled_node_of [OF c x] by blast
  note same = compile_node_Ok [OF nd(2)]
  have ok: "validate_definition ops inputs limits d = Ok ()" using c by (simp add: compiled_from_def)
  obtain nodes variables where map: "node_map_of d nodes" and vm: "variable_map_of d variables"
    and fin: "validate_termination d nodes = Ok ()"
    and contracts: "validate_node_contracts ops d nodes inputs limits = Ok ()"
    and par: "validate_parallel_writes d nodes variables limits = Ok ()"
    by (rule validate_definition_Ok [OF ok])
  have "nd \<in> set (parallel_nodes nodes)"
    using nd(1) same kind by (simp add: parallel_nodes_def node_map_values [OF map])
  then have "validate_parallel_node d nodes variables limits nd = Ok ()"
    using par by (auto simp: validate_parallel_writes_def result_simps)
  moreover have "validate_node_configuration ops nd nodes d limits = Ok ()"
    using contracts nd(1) by (auto simp: validate_node_contracts_def validate_node_contract_def result_simps)
  moreover have "fails_end nodes (adjacency d)"
    unfolding fails_end_def
  proof (intro allI impI)
    fix n f assume "fmlookup nodes n = Some f \<and> node_kind f = Fail"
    then have "f \<in> set (graph_nodes d)" "node_id f = n" "is_terminal (node_kind f)"
      using map by (auto simp: node_map_of_def)
    then have "edge_rel d `` {n} = {}" using fin unfolding validate_termination_Ok [OF map] by blast
    then have "set (targets_of (adjacency d) n) = {}" unfolding adjacency_targets by blast
    then show "targets_of (adjacency d) n = []" by simp
  qed
  ultimately show ?thesis using that [OF nd(1) _ _ map vm] same by simp
qed

text \<open>
  C23. Parallel branches of a compiled graph are isolated. A parallel node is configured
  with a join; the regions of its branches (what they reach without passing the join) are
  pairwise disjoint, are entered from outside only by the fan-out edge to the head of the
  branch, contain no completion node, and all edges into the join come from them. If two
  branches write the same variable it is branch-scoped, has a merge policy or the node
  serializes its branches; if they write the same state scope the branches are serialized.
\<close>

theorem compile_parallel_isolated:
  assumes "compile ops source inputs limits = Ok g" and x: "x \<in> set (exec_nodes g)"
    and kind: "exec_kind x = NodeKind.ParallelBranch"
  shows "\<exists>c. exec_configuration x = Some (NodeConfiguration.ParallelBranch c) \<and>
    isolated g (exec_id x) c \<and> conflict_free g (exec_id x) c"
proof -
  obtain d where cf: "compiled_from ops inputs limits d g" using compile_compiled_from [OF assms(1)] by blast
  obtain nd nodes variables where nd: "nd \<in> set (graph_nodes d)" "node_id nd = exec_id x"
    and config: "exec_configuration x = map_option canonicalize_node_configuration (effective_node_configuration nd)"
    and map: "node_map_of d nodes" and vm: "variable_map_of d variables"
    and fails: "fails_end nodes (adjacency d)"
    and vconf: "validate_node_configuration ops nd nodes d limits = Ok ()"
    and vpar: "validate_parallel_node d nodes variables limits nd = Ok ()"
    by (rule compiled_parallel [OF cf x kind])
  let ?p = "exec_id x" and ?es = "filter (\<lambda>e. edge_from e = exec_id x) (graph_edges d)"
  obtain branches where topo: "validate_parallel_topology nd ?es (adjacency d) (reverse_adjacency d) nodes limits = Ok branches"
    using vpar nd(2) by (auto simp: validate_parallel_node_def Let_def result_simps)
  obtain c where c: "parallel_configuration nd = Some c" and bs: "branches = map edge_to ?es"
    and split: "isolated_branches (edge_rel d) (node_id nd) (join_target c) (set branches)
       (\<lambda>b. fset (branch_members b (join_target c) (adjacency d)))"
    and member: "\<forall>b \<in> set branches. \<forall>m. m |\<in>| branch_members b (join_target c) (adjacency d) \<longrightarrow>
       (\<exists>n. fmlookup nodes m = Some n \<and> node_kind n \<notin> {NodeKind.CompleteTurn, CompleteSession})"
    by (rule topology_regions [OF topo fails])
  let ?j = "join_target c"
  have conf: "configuration nd = Some (NodeConfiguration.ParallelBranch c)" using c by (simp add: parallel_configuration_Some)
  have B: "branches_of g ?p = set branches"
    by (force simp: branches_of_def compiled_name_rel [OF cf] edge_rel_def bs)
  have R: "region g ?j b = fset (branch_members b ?j (adjacency d))" if "b \<in> set branches" for b
    using region_branch_members [OF cf, of b ?j] that split unfolding isolated_branches_def by metis
  have named: "\<exists>n. fmlookup nodes (exec_id y) = Some n \<and> exec_kind y = node_kind n \<and>
      exec_write_variables y = write_variables n \<and> exec_write_scopes y = write_scopes n"
    if "y \<in> set (exec_nodes g)" for y
    by (rule compiled_node_of [OF cf that]) (use node_map_lookup [OF map] compile_node_Ok in metis)
  have "isolated g ?p c"
  proof -
    obtain jn where jn: "fmlookup nodes ?j = Some jn" "node_kind jn = NodeKind.JoinResults"
      using vconf conf by (auto simp: validate_node_configuration_def check_parallel_def result_simps split: option.splits)
    then have "?j \<in> node_id ` set (graph_nodes d)" using map by (force simp: node_map_of_def)
    then obtain k where "k < length (exec_nodes g)" "exec_id (exec_nodes g ! k) = ?j"
      using compiled_index [OF cf] by blast
    then have "\<exists>y. node_named g ?j y \<and> exec_kind y = NodeKind.JoinResults"
      using named [of "exec_nodes g ! k"] jn by (intro exI [of _ "exec_nodes g ! k"]) (auto simp: node_named_def)
    moreover have "isolated_branches (name_rel g) ?p ?j (set branches) (region g ?j)"
      using split unfolding compiled_name_rel [OF cf] nd(2) by (simp add: R cong: isolated_branches_cong)
    moreover have "exec_kind y \<notin> {NodeKind.CompleteTurn, CompleteSession}"
      if "b \<in> set branches" "m \<in> region g ?j b" "node_named g m y" for b m y
      using member named [of y] that unfolding R [OF that(1)] node_named_def by fastforce
    ultimately show ?thesis unfolding isolated_def B by blast
  qed
  moreover have "conflict_free g ?p c"
    unfolding conflict_free_def B
  proof (intro ballI allI impI)
    fix b b' m m' y z v
    assume b: "b \<in> set branches" "b' \<in> set branches" and m: "m \<in> region g ?j b" "m' \<in> region g ?j b'"
      and yz: "b \<noteq> b' \<and> node_named g m y \<and> node_named g m' z"
    obtain n n' where n: "fmlookup nodes m = Some n" "exec_write_variables y = write_variables n" "exec_write_scopes y = write_scopes n"
      and n': "fmlookup nodes m' = Some n'" "exec_write_variables z = write_variables n'" "exec_write_scopes z = write_scopes n'"
      using named [of y] named [of z] yz by (auto simp: node_named_def)
    note sub = branch_writes [OF m(1) [unfolded R [OF b(1)]] n(1)] branch_writes [OF m(2) [unfolded R [OF b(2)]] n'(1)]
    have scopes: "check_scope_conflicts ?p c branches (List.map (\<lambda>b. branch_write_scopes b ?j (adjacency d) nodes) branches) = Ok ()"
      and vars: "check_variable_conflicts ?p c variables branches
        (List.map (\<lambda>b. branch_write_variables b ?j (adjacency d) nodes) branches) = Ok ()"
      using vpar topo c nd(2) by (auto simp: validate_parallel_node_def Let_def result_simps)
    have "conflict_resolved g c v" if "v |\<in>| exec_write_variables y" "v |\<in>| exec_write_variables z"
      using check_variable_conflicts_Ok [OF vars b, of v] that yz sub n(2) n'(2) vm
      by (auto simp: conflict_resolved_def compiled_variables [OF cf] variable_map_of_def)
    moreover have "serialization_policy c \<noteq> None" if "v |\<in>| exec_write_scopes y" "v |\<in>| exec_write_scopes z"
      using check_scope_conflicts_Ok [OF scopes _ b] that yz sub n(3) n'(3) by blast
    ultimately show "(v |\<in>| exec_write_variables y \<and> v |\<in>| exec_write_variables z \<longrightarrow> conflict_resolved g c v) \<and>
        (v |\<in>| exec_write_scopes y \<and> v |\<in>| exec_write_scopes z \<longrightarrow> serialization_policy c \<noteq> None)"
      by blast
  qed
  moreover have "exec_configuration x = Some (NodeConfiguration.ParallelBranch c)"
    using config conf by (simp add: effective_node_configuration_def)
  ultimately show ?thesis by blast
qed

end
