(* ===== verification/Graph_Witness.thy ===== *)
theory Graph_Witness
  imports Graph_Regions "HOL-Library.Code_Target_Nat"
begin

text \<open>
  A concrete graph through the compiler: a loop that fans out into two parallel branches,
  joins them and leaves when the runtime variable \<open>v\<close> holds. It shows that the hypotheses
  of the theorems on the graph compiler can be met together.
\<close>

section \<open>The graph\<close>

definition demo_node :: "string \<Rightarrow> NodeKind \<Rightarrow> nat NodeDefinition" where
  "demo_node n k =
     \<lparr>node_id = n, node_kind = k, configuration = None, node_condition = None, tool = None, provider = None,
      required_capabilities = {||}, read_scopes = {||}, write_scopes = {||}, read_variables = {||},
      write_variables = {||}, retry_limit = 0, max_iterations = None\<rparr>"

definition demo_parallel :: ParallelConfiguration where
  "demo_parallel =
     \<lparr>parallel_max_parallelism = 2, max_queue_depth = 1, join_target = ''j'', join_policy = RequireAll,
      variable_merge_policies = fmempty, serialization_policy = None\<rparr>"

definition demo_join :: JoinConfiguration where
  "demo_join =
     \<lparr>join_required = {|''l'', ''r''|}, join_optional = {||}, join_minimum_successes = 2,
      join_failure_policy = FailFast, join_ordering_policy = MemberId, join_timeout_ms = 1,
      cancellation_propagates = True, result_projection = Inline, artifact_collection = CollectNone\<rparr>"

definition demo_nodes :: "nat NodeDefinition list" where
  "demo_nodes =
     [(demo_node ''a'' Loop)\<lparr>read_variables := {|''v''|}, max_iterations := Some 3\<rparr>,
      (demo_node ''p'' NodeKind.ParallelBranch)\<lparr>configuration := Some (NodeConfiguration.ParallelBranch demo_parallel)\<rparr>,
      (demo_node ''b'' ConditionalBranch)\<lparr>write_scopes := {|''left''|}\<rparr>,
      (demo_node ''c'' ConditionalBranch)\<lparr>write_scopes := {|''right''|}\<rparr>,
      (demo_node ''j'' NodeKind.JoinResults)\<lparr>configuration := Some (NodeConfiguration.JoinResults demo_join)\<rparr>,
      demo_node ''z'' CompleteSession]"

definition demo_edge :: "string \<Rightarrow> string \<Rightarrow> EdgeDefinition" where
  "demo_edge a b = \<lparr>edge_from = a, edge_to = b, edge_condition = None, edge_label = None\<rparr>"

definition demo_edges :: "EdgeDefinition list" where
  "demo_edges =
     [demo_edge ''a'' ''p'', (demo_edge ''a'' ''z'')\<lparr>edge_condition := Some ''v''\<rparr>,
      (demo_edge ''p'' ''b'')\<lparr>edge_label := Some ''l''\<rparr>, (demo_edge ''p'' ''c'')\<lparr>edge_label := Some ''r''\<rparr>,
      demo_edge ''b'' ''j'', demo_edge ''c'' ''j'', demo_edge ''j'' ''a'']"

definition demo_variable :: VariableDeclaration where
  "demo_variable =
     \<lparr>variable_name = ''v'', value_type = VBoolean, variable_scope = ScopeRun, producer = ''runtime'',
      merge_contributors = {||}, consumers = {|''a''|}, mutability = Immutable, merge_policy = None,
      max_size_bytes = 8, security_classification = Public\<rparr>"

definition demo_graph :: "nat GraphDefinition" where
  "demo_graph =
     \<lparr>graph_format_version = 1, graph_entry = ''a'',
      graph_budget = \<lparr>GraphBudget.max_steps = 9, max_tokens = 9, max_cost_micros = 9, max_duration_ms = 9\<rparr>,
      graph_declarations = \<lparr>declared_capabilities = {|''agents''|}, declared_tools = {||}, declared_providers = {||},
        declared_events = {||}, declared_plugins = {||}\<rparr>,
      graph_variables = [demo_variable], graph_nodes = demo_nodes, graph_edges = demo_edges\<rparr>"

definition demo_ops :: "nat graph_ops" where
  "demo_ops =
     \<lparr>json = nat_ops, toml_from_str = (\<lambda>s. Ok demo_graph), configuration_to_vec = (\<lambda>c. Ok []),
      value_to_vec = (\<lambda>v. Ok []), blake3 = (\<lambda>bs. take 32 (bs @ replicate 32 0))\<rparr>"

definition demo_inputs :: GraphCacheInputs where
  "demo_inputs =
     \<lparr>inputs_plugin_set_hash = ContentHash (replicate 32 0), runtime_api_version = ''1'',
      capability_set = {|''agents''|}\<rparr>"

text \<open>What is checked by evaluation of the compiled graph.\<close>

definition demo_shape :: "nat ExecutableGraph \<Rightarrow> bool" where
  "demo_shape g \<longleftrightarrow>
     map exec_id (exec_nodes g) = [''a'', ''b'', ''c'', ''j'', ''p'', ''z''] \<and>
     map exec_kind (exec_nodes g) =
       [Loop, ConditionalBranch, ConditionalBranch, NodeKind.JoinResults, NodeKind.ParallelBranch, CompleteSession] \<and>
     map (\<lambda>t. (exec_from t, exec_to t)) (exec_edges g) = [(0, 4), (0, 5), (1, 3), (2, 3), (3, 0), (4, 1), (4, 2)] \<and>
     map exec_edge_condition (exec_edges g) =
       [None, Some (Value (Path (EnvironmentPath [Key ''v'']))), None, None, None, None, None] \<and>
     map exec_read_variables (exec_nodes g) = [{|''v''|}, {||}, {||}, {||}, {||}, {||}]"

lemma demo_compiles:
  "case compile demo_ops ''graph'' demo_inputs CompilerLimits_default of Ok g \<Rightarrow> demo_shape g | Err _ \<Rightarrow> False"
  by code_simp


lemma demo_executable:
  obtains g where "compile demo_ops ''graph'' demo_inputs CompilerLimits_default = Ok g" "demo_shape g"
  using demo_compiles by (cases "compile demo_ops ''graph'' demo_inputs CompilerLimits_default") auto

lemma demo_shape_nodes:
  assumes "demo_shape g"
  shows "length (exec_nodes g) = 6" "exec_id (exec_nodes g ! 0) = ''a''" "exec_id (exec_nodes g ! 4) = ''p''"
    "exec_id (exec_nodes g ! 3) = ''j''" "exec_kind (exec_nodes g ! 4) = NodeKind.ParallelBranch"
    "exec_kind (exec_nodes g ! 3) = NodeKind.JoinResults"
    "exec_read_variables (exec_nodes g ! 0) = {|''v''|}"
    "exec_rel g = {(0, 4), (0, 5), (1, 3), (2, 3), (3, 0), (4, 1), (4, 2)}"
proof -
  have ids: "map exec_id (exec_nodes g) = [''a'', ''b'', ''c'', ''j'', ''p'', ''z'']"
    and kinds: "map exec_kind (exec_nodes g) =
       [Loop, ConditionalBranch, ConditionalBranch, NodeKind.JoinResults, NodeKind.ParallelBranch, CompleteSession]"
    and rs: "map exec_read_variables (exec_nodes g) = [{|''v''|}, {||}, {||}, {||}, {||}, {||}]"
    and edges: "map (\<lambda>t. (exec_from t, exec_to t)) (exec_edges g) = [(0, 4), (0, 5), (1, 3), (2, 3), (3, 0), (4, 1), (4, 2)]"
    using assms by (simp_all only: demo_shape_def)
  show len: "length (exec_nodes g) = 6" using arg_cong [OF ids, of length] by simp
  have at: "exec_id (exec_nodes g ! i) = [''a'', ''b'', ''c'', ''j'', ''p'', ''z''] ! i"
    "exec_kind (exec_nodes g ! i) = [Loop, ConditionalBranch, ConditionalBranch, NodeKind.JoinResults,
       NodeKind.ParallelBranch, CompleteSession] ! i"
    "exec_read_variables (exec_nodes g ! i) = [{|''v''|}, {||}, {||}, {||}, {||}, {||}] ! i" if "i < 6" for i
    using that len by (simp_all flip: ids kinds rs)
  show "exec_id (exec_nodes g ! 0) = ''a''" "exec_id (exec_nodes g ! 4) = ''p''"
    "exec_id (exec_nodes g ! 3) = ''j''" "exec_kind (exec_nodes g ! 4) = NodeKind.ParallelBranch"
    "exec_kind (exec_nodes g ! 3) = NodeKind.JoinResults" "exec_read_variables (exec_nodes g ! 0) = {|''v''|}"
    using at [of 0] at [of 3] at [of 4] by simp_all
  show "exec_rel g = {(0, 4), (0, 5), (1, 3), (2, 3), (3, 0), (4, 1), (4, 2)}"
    using arg_cong [OF edges, of set] by (simp add: exec_rel_def)
qed

section \<open>Witnesses\<close>

definition demo_ring :: "nat GraphDefinition" where
  "demo_ring = demo_graph\<lparr>graph_nodes :=
     map (\<lambda>nd. if node_kind nd = Loop then nd\<lparr>node_kind := ConditionalBranch\<rparr> else nd) demo_nodes\<rparr>"

theorem validate_cycles_exact_witness:
  "(\<exists>nodes. collect_nodes demo_graph = Ok nodes \<and> acyclic (plain_edges demo_graph)) \<and>
   \<not> acyclic (plain_edges demo_ring) \<and>
   sorted_list_of_set {n \<in> plain_nodes demo_ring. \<exists>m. (m, m) \<in> (plain_edges demo_ring)\<^sup>+ \<and> (m, n) \<in> (plain_edges demo_ring)\<^sup>*} =
     [''a'', ''b'', ''c'', ''j'', ''p'', ''z'']"
proof -
  have "case collect_nodes demo_graph of
      Ok m \<Rightarrow> validate_edges demo_graph m CompilerLimits_default = Ok () \<and> validate_cycles demo_graph m = Ok ()
    | Err _ \<Rightarrow> False"
    by code_simp
  then obtain m where m: "collect_nodes demo_graph = Ok m" "validate_edges demo_graph m CompilerLimits_default = Ok ()"
    "validate_cycles demo_graph m = Ok ()"
    by (cases "collect_nodes demo_graph") auto
  have "case collect_nodes demo_ring of
      Ok m \<Rightarrow> validate_edges demo_ring m CompilerLimits_default = Ok () \<and>
        validate_cycles demo_ring m = Err (Rejected (Structure (IllegalCycle [''a'', ''b'', ''c'', ''j'', ''p'', ''z''])))
    | Err _ \<Rightarrow> False"
    by code_simp
  then obtain r where r: "collect_nodes demo_ring = Ok r" "validate_edges demo_ring r CompilerLimits_default = Ok ()"
    "validate_cycles demo_ring r = Err (Rejected (Structure (IllegalCycle [''a'', ''b'', ''c'', ''j'', ''p'', ''z''])))"
    by (cases "collect_nodes demo_ring") auto
  show ?thesis
    using validate_cycles_exact [OF m(1,2)] m(1,3) validate_cycles_exact [OF r(1,2)] r(3)
    by (auto split: if_splits)
qed

theorem cache_key_identifies_witness:
  "combined_hash (build_cache_key demo_ops ''graph'' demo_inputs) \<noteq> combined_hash (build_cache_key demo_ops ''other'' demo_inputs)"
proof -
  have "\<not> key_collision demo_ops ''graph'' demo_inputs ''other'' demo_inputs" by code_simp
  moreover have "short_inputs demo_inputs" by (simp add: short_inputs_def demo_inputs_def)
  moreover have "length (blake3 demo_ops bs) = 32" for bs by (simp add: demo_ops_def)
  ultimately show ?thesis using cache_key_identifies [of demo_ops demo_inputs demo_inputs "''graph''" "''other''"] by simp
qed

theorem compile_layout_witness:
  "\<exists>g. compile demo_ops ''graph'' demo_inputs CompilerLimits_default = Ok g \<and>
     exec_entry_index g < 6 \<and> map exec_index (exec_nodes g) = [0..<6]"
proof (rule demo_executable)
  fix g assume g: "compile demo_ops ''graph'' demo_inputs CompilerLimits_default = Ok g" "demo_shape g"
  then show ?thesis using compile_layout [OF g(1)] demo_shape_nodes [OF g(2)] by auto
qed

theorem compile_flow_witness:
  "\<exists>g. compile demo_ops ''graph'' demo_inputs CompilerLimits_default = Ok g \<and> (exec_entry_index g, 3) \<in> (exec_rel g)\<^sup>*"
proof (rule demo_executable)
  fix g assume g: "compile demo_ops ''graph'' demo_inputs CompilerLimits_default = Ok g" "demo_shape g"
  then show ?thesis using compile_flow [OF g(1), of 3] demo_shape_nodes [OF g(2)] by auto
qed

theorem compile_cycles_bounded_witness:
  "\<exists>g. compile demo_ops ''graph'' demo_inputs CompilerLimits_default = Ok g \<and> closed_path (exec_rel g) [0, 4, 1, 3, 0] \<and>
     (\<exists>i \<in> {0, 4, 1, 3}. exec_kind (exec_nodes g ! i) = Loop)"
proof (rule demo_executable)
  fix g assume g: "compile demo_ops ''graph'' demo_inputs CompilerLimits_default = Ok g" "demo_shape g"
  have "closed_path (exec_rel g) [0, 4, 1, 3, 0]"
    by (simp add: closed_path_def demo_shape_nodes(8) [OF g(2)])
  then show ?thesis using compile_cycles_bounded [OF g(1)] g(1) by fastforce
qed

theorem compile_access_witness:
  "\<exists>g. compile demo_ops ''graph'' demo_inputs CompilerLimits_default = Ok g \<and> readable g ''a'' ''v''"
proof (rule demo_executable)
  fix g assume g: "compile demo_ops ''graph'' demo_inputs CompilerLimits_default = Ok g" "demo_shape g"
  note shape = demo_shape_nodes [OF g(2)]
  have "exec_nodes g ! 0 \<in> set (exec_nodes g)" using shape(1) by simp
  from compile_access [OF g(1) this] show ?thesis unfolding shape(2,7) using g(1) by auto
qed


theorem compile_contracts_witness:
  "\<exists>g. compile demo_ops ''graph'' demo_inputs CompilerLimits_default = Ok g \<and>
     ''agents'' |\<in>| declared_capabilities (exec_declarations g) \<and>
     GraphBudget.max_steps (exec_budget g) \<in> {1..10000000}"
proof (rule demo_executable)
  fix g assume g: "compile demo_ops ''graph'' demo_inputs CompilerLimits_default = Ok g" "demo_shape g"
  note shape = demo_shape_nodes [OF g(2)]
  have "exec_nodes g ! 3 \<in> set (exec_nodes g)" using shape(1) by simp
  from compile_contracts [OF g(1) this] show ?thesis
    using g(1) shape(6) by (auto simp: CompilerLimits_default_def)
qed

theorem compile_parallel_isolated_witness:
  "\<exists>g c. compile demo_ops ''graph'' demo_inputs CompilerLimits_default = Ok g \<and>
     branches_of g ''p'' = {''b'', ''c''} \<and> isolated g ''p'' c \<and> conflict_free g ''p'' c"
proof (rule demo_executable)
  fix g assume g: "compile demo_ops ''graph'' demo_inputs CompilerLimits_default = Ok g" "demo_shape g"
  note shape = demo_shape_nodes [OF g(2)]
  have "exec_nodes g ! 4 \<in> set (exec_nodes g)" using shape(1) by simp
  then obtain c where c: "isolated g ''p'' c" "conflict_free g ''p'' c"
    using compile_parallel_isolated [OF g(1) _ shape(5)] unfolding shape(3) by blast
  have "exec_id (exec_nodes g ! 1) = ''b''" "exec_id (exec_nodes g ! 2) = ''c''"
    using shape(1) arg_cong [OF conjunct1 [OF g(2) [unfolded demo_shape_def]], of "\<lambda>xs. xs ! 1"]
      arg_cong [OF conjunct1 [OF g(2) [unfolded demo_shape_def]], of "\<lambda>xs. xs ! 2"] by simp_all
  then have "branches_of g ''p'' = {''b'', ''c''}"
    unfolding branches_of_def name_rel_def shape(8) using shape(2-4) by auto
  then show ?thesis using g(1) c by blast
qed

end
