(* ===== verification/Action.thy ===== *)
theory Action
  imports Expr_Eval Primitives
begin

text \<open>
  \<^verbatim>\<open>apps/runtime/logic/src/action.rs\<close>: the consequential actions that the runtime proposes.

  A field carries its struct in its name where several structs share it. Numbers of an
  action are only carried, so they are \<open>nat\<close> (signed timestamps \<open>int\<close>); a \<^verbatim>\<open>serde_json\<close>
  value is a \<open>json\<close> over the number type \<open>'n\<close>, as in the expression engine.
\<close>

datatype ProposalId = ProposalId string

record FilesystemWriteAction =
  write_path :: string
  write_expected_hash :: "ContentHash option"
  write_content_hash :: ContentHash
  write_overwrite :: bool

record ProcessStartAction =
  process_executable :: string
  process_arguments :: "string list"
  working_directory :: string
  environment_names :: "string list"
  secret_references :: "string list"

record HttpRequestAction =
  http_request_method :: string
  http_request_url :: string
  header_names :: "string list"
  body_hash :: "ContentHash option"

record 'n ModelRequestAction =
  request_harness :: string
  request_provider :: string
  request_model :: string
  request_projection_hash :: ContentHash
  request_options :: "'n json"

record 'n ToolCallAction =
  call_tool :: string
  call_group :: string
  call_arguments :: "'n json"
  call_source :: "string option"

datatype ArtifactPersistenceSecurity = SecurityStandard | SecurityPrivate | SecuritySecret

datatype ArtifactPersistenceRetention = RetainPermanent | RetainWithSession | UntilUnixMilliseconds int

record ArtifactPersistenceAction =
  persisted_hash :: ContentHash
  persisted_mime_type :: string
  persisted_byte_size :: nat
  persisted_security :: ArtifactPersistenceSecurity
  persisted_retention :: ArtifactPersistenceRetention

record ChildAgentMessageAction =
  message_child_session_id :: string
  message_identity :: ContentHash
  message_payload_hash :: ContentHash
  message_artifact_references_hash :: ContentHash
  message_security_classification :: string

record ChildAgentCancellationAction =
  parent_session_id :: string
  cancellation_run_id :: string
  cancellation_node_id :: string
  cancellation_branch_path :: "string list"
  cancellation_attempt :: nat
  cancellation_loop_iteration :: nat
  cancellation_step :: nat
  execution_plan_hash :: ContentHash
  cancellation_configuration_hash :: ContentHash
  cancellation_projection_hash :: ContentHash
  reason_hash :: ContentHash
  child_session_ids :: "string list"

record PluginNodeInvocationAction =
  invoked_plugin_id :: string
  invoked_executor_id :: string
  invoked_executor_version :: string
  node_invocation_id :: string
  node_invocation_digest :: ContentHash
  node_declaration_hash :: ContentHash
  external_effects :: bool
  required_permissions :: "string list"

record PluginContextOperationActionIdentity =
  operation_plugin_id :: string
  operation_plugin_version :: string
  implementation_id :: string
  implementation_version :: string
  operation_declaration_hash :: ContentHash
  operation_configuration_reference :: ContentHash
  operation_request_hash :: ContentHash
  readable_state_hash :: ContentHash
  operation_invocation_digest :: ContentHash
  operation_invocation_id :: string
  idempotency_key :: string
  operation_attempt :: nat

record PluginMemoryRetrieveAction =
  retrieve_identity :: PluginContextOperationActionIdentity
  retrieval_contract_hash :: ContentHash

record PluginMemoryWriteAction =
  memory_write_identity :: PluginContextOperationActionIdentity
  memory_value_hash :: ContentHash
  memory_artifact_references_hash :: ContentHash
  memory_references_hash :: ContentHash
  memory_security_classification :: string

record PluginCompactionAction =
  compaction_identity :: PluginContextOperationActionIdentity
  compaction_projection_hash :: ContentHash
  preservation_contract_hash :: ContentHash

text \<open>Struct variants: the constructor arguments are the fields in the order of the source.\<close>

datatype 'n ConsequentialAction =
    ContextConstruction string
  | ContextReplacement ContentHash
  | ModelRequest "'n ModelRequestAction"
  | ModelRetry ProposalId nat
  | ProviderSwitch string string
  | ToolCall "'n ToolCallAction"
  | ProcessStart ProcessStartAction
  | ProcessInput string ContentHash
  | FilesystemWrite FilesystemWriteAction
  | HttpRequest HttpRequestAction
  | WebSearch string nat
  | MemoryWrite string string string string string ContentHash ContentHash nat int
  | PluginMemoryRetrieve PluginMemoryRetrieveAction
  | PluginMemoryWrite PluginMemoryWriteAction
  | ArtifactPersistence ArtifactPersistenceAction
  | Compaction string
  | PluginCompaction PluginCompactionAction
  | ChildAgentCreation string string nat "string option" "string option" "ContentHash option"
  | ChildAgentMessage ChildAgentMessageAction
  | ChildAgentCancellation ChildAgentCancellationAction
  | PluginStateChange string string
  | PluginNodeInvocation PluginNodeInvocationAction
  | ContinuationResume string
  | ScheduleCreation string string
  | CheckpointRestoration string

fun action_kind :: "'n ConsequentialAction \<Rightarrow> string" where
  "action_kind (ContextConstruction _) = ''context_construction''"
| "action_kind (PluginMemoryRetrieve _) = ''context_construction''"
| "action_kind (ContextReplacement _) = ''context_replacement''"
| "action_kind (ModelRequest _) = ''model_request''"
| "action_kind (ModelRetry _ _) = ''model_retry''"
| "action_kind (ProviderSwitch _ _) = ''provider_switch''"
| "action_kind (ToolCall _) = ''tool_call''"
| "action_kind (ProcessStart _) = ''process_start''"
| "action_kind (ProcessInput _ _) = ''process_input''"
| "action_kind (FilesystemWrite _) = ''filesystem_write''"
| "action_kind (HttpRequest _) = ''http_request''"
| "action_kind (WebSearch _ _) = ''web_search''"
| "action_kind (MemoryWrite _ _ _ _ _ _ _ _ _) = ''memory_write''"
| "action_kind (PluginMemoryWrite _) = ''memory_write''"
| "action_kind (ArtifactPersistence _) = ''artifact_persistence''"
| "action_kind (Compaction _) = ''compaction''"
| "action_kind (PluginCompaction _) = ''compaction''"
| "action_kind (ChildAgentCreation _ _ _ _ _ _) = ''child_agent_creation''"
| "action_kind (ChildAgentMessage _) = ''child_agent_message''"
| "action_kind (ChildAgentCancellation _) = ''child_agent_cancellation''"
| "action_kind (PluginStateChange _ _) = ''plugin_state_change''"
| "action_kind (PluginNodeInvocation _) = ''plugin_node_invocation''"
| "action_kind (ContinuationResume _) = ''continuation_resume''"
| "action_kind (ScheduleCreation _ _) = ''schedule_creation''"
| "action_kind (CheckpointRestoration _) = ''checkpoint_restoration''"

record 'n ActionProposal =
  proposal_id :: ProposalId
  proposal_action :: "'n ConsequentialAction"
  proposal_style :: string
  proposal_workspace :: string
  proposal_origin :: string

end
