(* ===== verification/Permission.thy ===== *)
theory Permission
  imports Action "HOL-Library.Multiset" "HOL-Library.Sublist" "HOL-Library.Product_Lexorder"
begin

text \<open>
  \<^verbatim>\<open>apps/runtime/logic/src/permission.rs\<close>: rules, policies, and the layered decision that
  puts user policies before the mandatory one.
\<close>

section \<open>Policies\<close>

datatype PermissionEffect = Allow | Ask | Deny

record PermissionMatcher =
  matcher_action :: "string option"
  matcher_tool :: "string option"
  tool_group :: "string option"
  matcher_source :: "string option"
  path_prefix :: "string option"
  executable :: "string option"
  domain :: "string option"
  http_method :: "string option"
  matcher_provider :: "string option"
  matcher_model :: "string option"
  matcher_style :: "string option"
  matcher_workspace :: "string option"

record PermissionRule =
  rule_id :: string
  rule_priority :: int
  matcher :: PermissionMatcher
  rule_effect :: PermissionEffect
  rule_reason :: string

record PermissionPolicy =
  policy_id :: string
  policy_rules :: "PermissionRule list"
  default_effect :: PermissionEffect
  default_reason :: string

definition rule_order :: "PermissionRule \<Rightarrow> int \<times> string" where
  "rule_order r = (- rule_priority r, rule_id r)"

definition PermissionPolicy_new ::
  "string \<Rightarrow> PermissionRule list \<Rightarrow> PermissionEffect \<Rightarrow> string \<Rightarrow> PermissionPolicy" where
  "PermissionPolicy_new i rules e why =
     \<lparr>policy_id = i, policy_rules = sort_key rule_order rules, default_effect = e, default_reason = why\<rparr>"

section \<open>Matching\<close>

datatype ActionFieldGroup = GroupNone | GroupTool | GroupPath | GroupProcess | GroupHttp | GroupProvider | GroupPlugin

definition action_unrelated_fields_empty :: "PermissionMatcher \<Rightarrow> ActionFieldGroup \<Rightarrow> bool" where
  "action_unrelated_fields_empty m grp \<longleftrightarrow>
     (grp = GroupTool \<or> matcher_tool m = None \<and> tool_group m = None) \<and>
     (grp = GroupTool \<or> grp = GroupPlugin \<or> matcher_source m = None) \<and>
     (grp = GroupPath \<or> path_prefix m = None) \<and>
     (grp = GroupProcess \<or> executable m = None) \<and>
     (grp = GroupHttp \<or> domain m = None \<and> http_method m = None) \<and>
     (grp = GroupProvider \<or> matcher_provider m = None \<and> matcher_model m = None)"

definition optional_eq :: "string option \<Rightarrow> string \<Rightarrow> bool" where
  "optional_eq expected actual =
     (case expected of None \<Rightarrow> True | Some e \<Rightarrow> to_ascii_lowercase e = to_ascii_lowercase actual)"

definition is_path_separator :: "char \<Rightarrow> bool" where
  "is_path_separator c \<longleftrightarrow> c = CHR ''/'' \<or> c = CHR 0x5C"

definition trim_end :: "(char \<Rightarrow> bool) \<Rightarrow> string \<Rightarrow> string" where
  "trim_end P s = rev (dropWhile P (rev s))"

definition optional_prefix :: "string option \<Rightarrow> string \<Rightarrow> bool" where
  "optional_prefix expected actual =
     (case expected of
        None \<Rightarrow> True
      | Some e \<Rightarrow>
          (let e = trim_end is_path_separator e in
           actual = e \<or>
           (case strip_prefix e actual of Some (c # _) \<Rightarrow> is_path_separator c | _ \<Rightarrow> False)))"

definition optional_domain :: "string option \<Rightarrow> string option \<Rightarrow> bool" where
  "optional_domain expected actual =
     (case expected of
        None \<Rightarrow> True
      | Some e \<Rightarrow>
          (case actual of
             None \<Rightarrow> False
           | Some a \<Rightarrow>
               (let e = to_ascii_lowercase e; a = to_ascii_lowercase a in
                case strip_prefix ''*.'' e of
                  Some s \<Rightarrow> a \<noteq> s \<and> suffix (''.'' @ s) a
                | None \<Rightarrow> a = e)))"

text \<open>\<^verbatim>\<open>split_once\<close> on a string, and \<^verbatim>\<open>rsplit_once\<close> on a character.\<close>

fun split_once_str :: "string \<Rightarrow> string \<Rightarrow> (string \<times> string) option" where
  "split_once_str sep [] = (if sep = [] then Some ([], []) else None)"
| "split_once_str sep (c # s) =
     (case strip_prefix sep (c # s) of
        Some rest \<Rightarrow> Some ([], rest)
      | None \<Rightarrow> map_option (\<lambda>(a, b). (c # a, b)) (split_once_str sep s))"

definition rsplit_once :: "char \<Rightarrow> string \<Rightarrow> (string \<times> string) option" where
  "rsplit_once sep s = map_option (\<lambda>(a, b). (rev b, rev a)) (split_once sep (rev s))"

definition extract_domain :: "string \<Rightarrow> string option" where
  "extract_domain url =
     (case split_once_str ''://'' url of
        None \<Rightarrow> None
      | Some (_, after_scheme) \<Rightarrow>
          (let authority = takeWhile (\<lambda>c. c \<notin> set ''/?#'') after_scheme;
               without_user = (case rsplit_once (CHR ''@'') authority of Some (_, host) \<Rightarrow> host | None \<Rightarrow> authority)
           in if take 1 without_user = ''[''
              then map_option (\<lambda>(host, _). dropWhile (\<lambda>c. c = CHR ''['') host) (split_once (CHR '']'') without_user)
              else Some (takeWhile (\<lambda>c. c \<noteq> CHR '':'') without_user)))"

fun matches_action :: "PermissionMatcher \<Rightarrow> 'n ConsequentialAction \<Rightarrow> bool" where
  "matches_action m (ToolCall t) \<longleftrightarrow>
     optional_eq (matcher_tool m) (call_tool t) \<and> optional_eq (tool_group m) (call_group t) \<and>
     optional_eq (matcher_source m) (case call_source t of Some s \<Rightarrow> s | None \<Rightarrow> []) \<and>
     action_unrelated_fields_empty m GroupTool"
| "matches_action m (FilesystemWrite w) \<longleftrightarrow>
     optional_prefix (path_prefix m) (write_path w) \<and> action_unrelated_fields_empty m GroupPath"
| "matches_action m (ProcessStart p) \<longleftrightarrow>
     optional_eq (executable m) (process_executable p) \<and> action_unrelated_fields_empty m GroupProcess"
| "matches_action m (HttpRequest r) \<longleftrightarrow>
     optional_domain (domain m) (extract_domain (http_request_url r)) \<and>
     optional_eq (http_method m) (http_request_method r) \<and> action_unrelated_fields_empty m GroupHttp"
| "matches_action m (ModelRequest r) \<longleftrightarrow>
     optional_eq (matcher_provider m) (request_provider r) \<and> optional_eq (matcher_model m) (request_model r) \<and>
     action_unrelated_fields_empty m GroupProvider"
| "matches_action m (ProviderSwitch p q) \<longleftrightarrow>
     optional_eq (matcher_provider m) p \<and> optional_eq (matcher_model m) q \<and>
     action_unrelated_fields_empty m GroupProvider"
| "matches_action m (PluginNodeInvocation i) \<longleftrightarrow>
     optional_eq (matcher_source m) (invoked_plugin_id i) \<and> action_unrelated_fields_empty m GroupPlugin"
| "matches_action m (PluginMemoryRetrieve a) \<longleftrightarrow>
     optional_eq (matcher_source m) (operation_plugin_id (retrieve_identity a)) \<and>
     action_unrelated_fields_empty m GroupPlugin"
| "matches_action m (PluginMemoryWrite a) \<longleftrightarrow>
     optional_eq (matcher_source m) (operation_plugin_id (memory_write_identity a)) \<and>
     action_unrelated_fields_empty m GroupPlugin"
| "matches_action m (PluginCompaction a) \<longleftrightarrow>
     optional_eq (matcher_source m) (operation_plugin_id (compaction_identity a)) \<and>
     action_unrelated_fields_empty m GroupPlugin"
| "matches_action m _ \<longleftrightarrow> action_unrelated_fields_empty m GroupNone"

definition matcher_matches :: "PermissionMatcher \<Rightarrow> 'n ActionProposal \<Rightarrow> bool" where
  "matcher_matches m p \<longleftrightarrow>
     optional_eq (matcher_action m) (action_kind (proposal_action p)) \<and>
     optional_eq (matcher_style m) (proposal_style p) \<and>
     optional_eq (matcher_workspace m) (proposal_workspace p) \<and> matches_action m (proposal_action p)"

section \<open>Decisions\<close>

record PolicyMatch =
  match_policy_id :: string
  match_rule_id :: "string option"
  match_effect :: PermissionEffect
  match_reason :: string

record PermissionDecision =
  decision_effect :: PermissionEffect
  decision_trace :: "PolicyMatch list"
  decision_reason :: string

definition evaluate_policy :: "PermissionPolicy \<Rightarrow> 'n ActionProposal \<Rightarrow> PolicyMatch" where
  "evaluate_policy q p =
     (case find (\<lambda>r. matcher_matches (matcher r) p) (policy_rules q) of
        None \<Rightarrow> \<lparr>match_policy_id = policy_id q, match_rule_id = None, match_effect = default_effect q,
                 match_reason = default_reason q\<rparr>
      | Some r \<Rightarrow> \<lparr>match_policy_id = policy_id q, match_rule_id = Some (rule_id r), match_effect = rule_effect r,
                   match_reason = rule_reason r\<rparr>)"

fun permission_rank :: "PermissionEffect \<Rightarrow> nat" where
  "permission_rank Allow = 0"
| "permission_rank Ask = 1"
| "permission_rank Deny = 2"

definition stricter :: "PermissionEffect \<times> string \<Rightarrow> PolicyMatch \<Rightarrow> PermissionEffect \<times> string" where
  "stricter = (\<lambda>(e, why) m.
     if permission_rank e < permission_rank (match_effect m) then (match_effect m, match_reason m) else (e, why))"

fun combine_mandatory :: "PermissionEffect \<times> string \<Rightarrow> PolicyMatch \<Rightarrow> PermissionEffect \<times> string" where
  "combine_mandatory (e, why) m =
     (case (e, match_effect m) of
        (_, Deny) \<Rightarrow> (Deny, match_reason m)
      | (Deny, _) \<Rightarrow> (Deny, why)
      | (_, Ask) \<Rightarrow> (Ask, match_reason m)
      | (Ask, _) \<Rightarrow> (Ask, why)
      | (Allow, Allow) \<Rightarrow> (Allow, match_reason m))"

definition evaluate_layered_permissions ::
  "'n ActionProposal \<Rightarrow> PermissionPolicy list \<Rightarrow> PermissionPolicy \<Rightarrow> PermissionDecision" where
  "evaluate_layered_permissions p users mandatory =
     (let user_matches = map (\<lambda>q. evaluate_policy q p) users;
          user = fold (\<lambda>m acc. stricter acc m) user_matches (Allow, []);
          mandatory_match = evaluate_policy mandatory p;
          (e, why) = combine_mandatory user mandatory_match
      in \<lparr>decision_effect = e, decision_trace = user_matches @ [mandatory_match], decision_reason = why\<rparr>)"

definition evaluate_permissions ::
  "'n ActionProposal \<Rightarrow> PermissionPolicy \<Rightarrow> PermissionPolicy \<Rightarrow> PermissionDecision" where
  "evaluate_permissions p user mandatory = evaluate_layered_permissions p [user] mandatory"

definition revalidate_mandatory_after_approval ::
  "'n ActionProposal \<Rightarrow> PermissionPolicy \<Rightarrow> PermissionDecision" where
  "revalidate_mandatory_after_approval p mandatory =
     (let m = evaluate_policy mandatory p;
          e = (if match_effect m = Deny then Deny else Allow)
      in \<lparr>decision_effect = e, decision_trace = [m], decision_reason = match_reason m\<rparr>)"

section \<open>The strictest layer decides\<close>

lemma fold_stricter:
  "fold (\<lambda>m acc. stricter acc m) ms (e, why) = (e', why') \<Longrightarrow>
   permission_rank e' = Max (insert (permission_rank e) ((permission_rank \<circ> match_effect) ` set ms)) \<and>
   (e' = e \<and> why' = why \<or> (\<exists>m \<in> set ms. match_effect m = e' \<and> match_reason m = why'))"
proof (induction ms arbitrary: e why)
  case (Cons m ms)
  have step: "stricter (e, why) m = (if permission_rank e < permission_rank (match_effect m)
      then (match_effect m, match_reason m) else (e, why))"
    by (simp add: stricter_def)
  show ?case
  proof (cases "permission_rank e < permission_rank (match_effect m)")
    case True
    let ?S = "insert (permission_rank (match_effect m)) ((permission_rank \<circ> match_effect) ` set ms)"
    have "fold (\<lambda>m acc. stricter acc m) ms (match_effect m, match_reason m) = (e', why')"
      using Cons.prems step True by simp
    note IH = Cons.IH [OF this]
    have "permission_rank e \<le> Max ?S" by (rule order_trans [OF less_imp_le [OF True] Max_ge]) simp_all
    then have "Max (insert (permission_rank e) ?S) = Max ?S" by (subst Max_insert) (simp_all add: max_absorb2 del: Max_insert)
    then show ?thesis using IH by (auto simp del: Max_insert)
  next
    case False
    then have "fold (\<lambda>m acc. stricter acc m) ms (e, why) = (e', why')" using Cons.prems step by simp
    from Cons.IH [OF this] show ?thesis
      using False by (cases "set ms = {}") (auto simp: insert_commute max_def not_less Max_insert)
  qed
qed simp

lemma permission_rank_inject: "permission_rank a = permission_rank b \<longleftrightarrow> a = b"
  by (cases a; cases b) simp_all

lemma combine_mandatory_max:
  "combine_mandatory (e, why) m = (e', why') \<Longrightarrow>
   permission_rank e' = max (permission_rank e) (permission_rank (match_effect m)) \<and>
   (e' = e \<and> why' = why \<and> e \<noteq> Allow \<or> e' = match_effect m \<and> why' = match_reason m)"
  by (cases e; cases "match_effect m") auto

lemma layered_permissions:
  fixes p :: "'n ActionProposal"
  defines "d \<equiv> \<lambda>users mandatory. evaluate_layered_permissions p users mandatory"
  shows "decision_trace (d users mandatory) = map (\<lambda>q. evaluate_policy q p) (users @ [mandatory])"
    and layered_rank: "permission_rank (decision_effect (d users mandatory)) =
      Max ((\<lambda>q. permission_rank (match_effect (evaluate_policy q p))) ` set (users @ [mandatory]))"
    and "\<exists>m \<in> set (decision_trace (d users mandatory)).
      match_effect m = decision_effect (d users mandatory) \<and> match_reason m = decision_reason (d users mandatory)"
proof -
  let ?ms = "map (\<lambda>q. evaluate_policy q p) users" and ?m = "evaluate_policy mandatory p"
  let ?d = "d users mandatory"
  obtain e why e' why' where user: "fold (\<lambda>m acc. stricter acc m) ?ms (Allow, []) = (e, why)"
    and both: "combine_mandatory (e, why) ?m = (e', why')" by fastforce
  have d: "decision_trace ?d = ?ms @ [?m]" "decision_effect ?d = e'" "decision_reason ?d = why'"
    using user both by (simp_all add: d_def evaluate_layered_permissions_def Let_def)
  note u = fold_stricter [OF user] and c = combine_mandatory_max [OF both]
  have "permission_rank e = Max (insert 0 ((\<lambda>q. permission_rank (match_effect (evaluate_policy q p))) ` set users))"
    using u by (simp add: image_image)
  then have "permission_rank e' = Max ((\<lambda>q. permission_rank (match_effect (evaluate_policy q p))) ` set (users @ [mandatory]))"
    using c by (cases "users = []") (auto simp: max.commute)
  moreover have "\<exists>m \<in> set (?ms @ [?m]). match_effect m = e' \<and> match_reason m = why'"
    using c u by auto
  ultimately show "decision_trace ?d = map (\<lambda>q. evaluate_policy q p) (users @ [mandatory])"
    "permission_rank (decision_effect ?d) =
      Max ((\<lambda>q. permission_rank (match_effect (evaluate_policy q p))) ` set (users @ [mandatory]))"
    "\<exists>m \<in> set (decision_trace ?d). match_effect m = decision_effect ?d \<and> match_reason m = decision_reason ?d"
    unfolding d by simp_all
qed

text \<open>
  C24. No layer of permissions can be relaxed by another: the trace holds the verdict of every
  user policy in order and then of the mandatory policy, the decision is the strictest of
  these verdicts (deny over ask over allow), and its reason is the reason of a verdict
  with the same effect.
\<close>

theorem permission_strictest:
  "decision_trace (evaluate_layered_permissions p users mandatory) =
     map (\<lambda>q. evaluate_policy q p) (users @ [mandatory]) \<and>
   permission_rank (decision_effect (evaluate_layered_permissions p users mandatory)) =
     Max ((\<lambda>q. permission_rank (match_effect (evaluate_policy q p))) ` set (users @ [mandatory])) \<and>
   (\<exists>m \<in> set (decision_trace (evaluate_layered_permissions p users mandatory)).
      match_effect m = decision_effect (evaluate_layered_permissions p users mandatory) \<and>
      match_reason m = decision_reason (evaluate_layered_permissions p users mandatory))"
  using layered_permissions [of p users mandatory] by blast

section \<open>The rule that decides\<close>

text \<open>The matching rule of the highest priority, the smallest identifier breaking ties.\<close>

definition deciding_rule :: "PermissionRule list \<Rightarrow> 'n ActionProposal \<Rightarrow> PermissionRule \<Rightarrow> bool" where
  "deciding_rule rules p r \<longleftrightarrow>
     r \<in> set rules \<and> matcher_matches (matcher r) p \<and>
     (\<forall>s \<in> set rules. matcher_matches (matcher s) p \<longrightarrow>
        rule_priority s < rule_priority r \<or> rule_priority s = rule_priority r \<and> rule_id r \<le> rule_id s)"

lemma find_sorted_least:
  assumes "sorted (map f xs)" and "find P xs = Some x"
  shows "x \<in> set xs \<and> P x \<and> (\<forall>y \<in> set xs. P y \<longrightarrow> f x \<le> f y)"
  using assms by (induction xs) (auto split: if_splits)

lemma deciding_rule_unique:
  "distinct (map rule_id rules) \<Longrightarrow> deciding_rule rules p r \<Longrightarrow> deciding_rule rules p s \<Longrightarrow> r = s"
  unfolding deciding_rule_def by (metis distinct_map inj_onD order_antisym order_less_asym order_less_irrefl)

text \<open>
  A policy decides by its best matching rule: with distinct rule identifiers, the
  policy built from a list of rules answers with the matching rule of the highest
  priority, the smallest identifier first among equals, and with its default exactly when
  no rule matches. The order in which the rules were written does not matter.
\<close>

theorem policy_best_rule:
  assumes "distinct (map rule_id rules)"
  shows "(case match_rule_id (evaluate_policy (PermissionPolicy_new i rules e why) p) of
      None \<Rightarrow> \<not> (\<exists>r \<in> set rules. matcher_matches (matcher r) p) \<and>
        match_effect (evaluate_policy (PermissionPolicy_new i rules e why) p) = e
    | Some k \<Rightarrow> (\<exists>r. deciding_rule rules p r \<and> rule_id r = k \<and>
        match_effect (evaluate_policy (PermissionPolicy_new i rules e why) p) = rule_effect r)) \<and>
    (mset rules = mset rules' \<longrightarrow>
      evaluate_policy (PermissionPolicy_new i rules e why) p = evaluate_policy (PermissionPolicy_new i rules' e why) p)"
proof -
  let ?P = "\<lambda>r. matcher_matches (matcher r) p"
  have found: "deciding_rule rs p r" if "find ?P (sort_key rule_order rs) = Some r" for rs r
    using find_sorted_least [OF sorted_sort_key that] unfolding deciding_rule_def rule_order_def by fastforce
  have none: "find ?P (sort_key rule_order rs) = None \<longleftrightarrow> \<not> (\<exists>r \<in> set rs. ?P r)" for rs
    by (auto simp: find_None_iff)
  have same: "find ?P (sort_key rule_order rules) = find ?P (sort_key rule_order rules')" if "mset rules = mset rules'"
  proof -
    have set: "set rules = set rules'" using that by (rule mset_eq_setD)
    then have "deciding_rule rules p r \<longleftrightarrow> deciding_rule rules' p r" for r by (simp add: deciding_rule_def)
    then show ?thesis
      using found [of rules] found [of rules'] none [of rules] none [of rules'] set deciding_rule_unique [OF assms]
      by (metis not_Some_eq)
  qed
  show ?thesis
  proof (cases "find ?P (sort_key rule_order rules)")
    case None
    then show ?thesis using none [of rules] same by (simp add: evaluate_policy_def PermissionPolicy_new_def split: option.split)
  next
    case (Some r)
    then show ?thesis using found [of rules] same
      by (auto simp: evaluate_policy_def PermissionPolicy_new_def split: option.split)
  qed
qed

text \<open>
  Constraining a matcher further only narrows it: a matcher that states every constraint
  of another one matches no action that the other does not match.
\<close>

definition narrows :: "'a option \<Rightarrow> 'a option \<Rightarrow> bool" where
  "narrows fine coarse \<longleftrightarrow> coarse = None \<or> fine = coarse"

definition matcher_narrows :: "PermissionMatcher \<Rightarrow> PermissionMatcher \<Rightarrow> bool" where
  "matcher_narrows m c \<longleftrightarrow>
     narrows (matcher_action m) (matcher_action c) \<and> narrows (matcher_tool m) (matcher_tool c) \<and>
     narrows (tool_group m) (tool_group c) \<and> narrows (matcher_source m) (matcher_source c) \<and>
     narrows (path_prefix m) (path_prefix c) \<and> narrows (executable m) (executable c) \<and>
     narrows (domain m) (domain c) \<and> narrows (http_method m) (http_method c) \<and>
     narrows (matcher_provider m) (matcher_provider c) \<and> narrows (matcher_model m) (matcher_model c) \<and>
     narrows (matcher_style m) (matcher_style c) \<and> narrows (matcher_workspace m) (matcher_workspace c)"

lemma narrows_optional:
  "narrows a b \<Longrightarrow> optional_eq a s \<Longrightarrow> optional_eq b s"
  "narrows a b \<Longrightarrow> optional_prefix a s \<Longrightarrow> optional_prefix b s"
  "narrows a b \<Longrightarrow> optional_domain a t \<Longrightarrow> optional_domain b t"
  by (auto simp: narrows_def optional_eq_def optional_prefix_def optional_domain_def)

lemma narrows_unrelated:
  "matcher_narrows m c \<Longrightarrow> action_unrelated_fields_empty m grp \<Longrightarrow> action_unrelated_fields_empty c grp"
  unfolding matcher_narrows_def narrows_def action_unrelated_fields_empty_def by metis

lemma matcher_narrows_matches:
  assumes n: "matcher_narrows m c" and "matcher_matches m p"
  shows "matcher_matches c p"
proof -
  have "matches_action c a" if "matches_action m a" for a :: "'a ConsequentialAction"
    using that n narrows_unrelated [OF n]
    by (cases a) (auto simp: matcher_narrows_def intro: narrows_optional)
  then show ?thesis using assms unfolding matcher_matches_def matcher_narrows_def
    by (blast intro: narrows_optional)
qed

end
