(* ===== verification/Interception.thy ===== *)
theory Interception
  imports Permission Execution
begin

text \<open>
  \<^verbatim>\<open>apps/runtime/logic/src/interception.rs\<close>: a proposed action passes the handlers of the
  session style, then those of the plugins, then every permission policy. The pipelines
  are those of \<open>Execution\<close>, the policies those of \<open>Permission\<close>. \<open>None\<close> stands for a panic
  (\<^verbatim>\<open>expect\<close>, \<^verbatim>\<open>unreachable!\<close>).
\<close>

datatype InterceptorScope = SessionStyle | PluginScope

datatype 'n InterceptorAuditResult =
    AuditContinue "'n ActionProposal" bool
  | AuditReject string
  | AuditRequireApproval string string
  | AuditDefer string
  | AuditCancel string
  | AuditFork "'n ActionProposal list"
  | AuditFailure string

record 'n InterceptorAuditStep =
  audit_scope :: InterceptorScope
  audit_handler :: string
  audit_input :: "'n ActionProposal"
  audit_result :: "'n InterceptorAuditResult"

datatype 'n InterceptionOutcome =
    Approved "'n ActionProposal" PermissionDecision
  | ApprovalRequired "'n ActionProposal" string "string option"
  | Rejected string
  | Deferred string
  | Cancelled string
  | Forked "'n ActionProposal list"
  | InterceptionAborted string string

record 'n InterceptionResult =
  original :: "'n ActionProposal"
  audit_steps :: "'n InterceptorAuditStep list"
  interception_outcome :: "'n InterceptionOutcome"

datatype 'n PipelineTerminal =
    TerminalContinue "'n ActionProposal"
  | TerminalApproval "'n ActionProposal" string string
  | TerminalRejected string
  | TerminalDeferred string
  | TerminalCancelled string
  | TerminalForked "'n ActionProposal list"
  | TerminalAborted string string

fun continuation_text :: "ContinuationId \<Rightarrow> string" where
  "continuation_text (ContinuationId s) = s"

fun audit_decision :: "'n ActionProposal Decision \<Rightarrow> 'n InterceptorAuditResult" where
  "audit_decision (Continue output) = AuditContinue output False"
| "audit_decision (Replace output) = AuditContinue output True"
| "audit_decision (Reject why) = AuditReject why"
| "audit_decision (RequireApproval request c) = AuditRequireApproval (summary request) (continuation_text c)"
| "audit_decision (Defer c _) = AuditDefer (continuation_text c)"
| "audit_decision (Cancel why) = AuditCancel why"
| "audit_decision (Fork branches _) = AuditFork branches"

fun audit_step_result :: "'n ActionProposal ExecutionStepResult \<Rightarrow> 'n InterceptorAuditResult" where
  "audit_step_result (StepDecision d) = audit_decision d"
| "audit_step_result (StepFailure f) = AuditFailure (failure_message f)"

definition audit_report ::
  "InterceptorScope \<Rightarrow> 'n ActionProposal ExecutionReport \<Rightarrow> 'n InterceptorAuditStep list" where
  "audit_report scope report =
     map (\<lambda>s. \<lparr>audit_scope = scope, audit_handler = step_handler s, audit_input = step_input s,
               audit_result = audit_step_result (step_result s)\<rparr>) (steps report)"

fun into_outcome :: "'n PipelineTerminal \<Rightarrow> 'n InterceptionOutcome option" where
  "into_outcome (TerminalContinue _) = None"
| "into_outcome (TerminalApproval p why c) = Some (ApprovalRequired p why (Some c))"
| "into_outcome (TerminalRejected why) = Some (Rejected why)"
| "into_outcome (TerminalDeferred c) = Some (Deferred c)"
| "into_outcome (TerminalCancelled why) = Some (Cancelled why)"
| "into_outcome (TerminalForked branches) = Some (Forked branches)"
| "into_outcome (TerminalAborted h why) = Some (InterceptionAborted h why)"

definition terminal_from_report :: "'n ActionProposal ExecutionReport \<Rightarrow> 'n PipelineTerminal option" where
  "terminal_from_report report =
     (let last_input = (if steps report = [] then None else Some (step_input (last (steps report)))) in
      case outcome report of
        OutcomeDecision (Continue p) \<Rightarrow> Some (TerminalContinue p)
      | OutcomeDecision (Replace p) \<Rightarrow> Some (TerminalContinue p)
      | OutcomeDecision (Reject why) \<Rightarrow> Some (TerminalRejected why)
      | OutcomeDecision (RequireApproval request c) \<Rightarrow>
          map_option (\<lambda>p. TerminalApproval p (summary request) (continuation_text c)) last_input
      | OutcomeDecision (Defer c _) \<Rightarrow> Some (TerminalDeferred (continuation_text c))
      | OutcomeDecision (Cancel why) \<Rightarrow> Some (TerminalCancelled why)
      | OutcomeDecision (Fork branches _) \<Rightarrow> Some (TerminalForked branches)
      | Aborted h f \<Rightarrow> Some (TerminalAborted h (failure_message f)))"

definition permission_outcome ::
  "'n ActionProposal \<Rightarrow> PermissionPolicy list \<Rightarrow> PermissionPolicy \<Rightarrow> 'n InterceptionOutcome" where
  "permission_outcome p users mandatory =
     (let d = evaluate_layered_permissions p users mandatory in
      case decision_effect d of
        Allow \<Rightarrow> Approved p d
      | Ask \<Rightarrow> ApprovalRequired p (decision_reason d) None
      | Deny \<Rightarrow> Rejected (decision_reason d))"

type_synonym ('n, 'w) pipeline = "('n ActionProposal, 'w) InterceptorRegistration list"

definition intercept_action_with_user_policies ::
  "'n ActionProposal \<Rightarrow> ('n, 'w) pipeline \<Rightarrow> ('n, 'w) pipeline \<Rightarrow> ActionCapabilities \<Rightarrow>
   PermissionPolicy list \<Rightarrow> PermissionPolicy \<Rightarrow> 'w \<Rightarrow> 'n InterceptionResult option \<times> 'w" where
  "intercept_action_with_user_policies p style_pipeline plugin_pipeline capabilities users mandatory w =
     (let (style_report, w1) = execute style_pipeline p capabilities w;
          log = audit_report SessionStyle style_report;
          finish = (\<lambda>log out. \<lparr>original = p, audit_steps = log, interception_outcome = out\<rparr>)
      in case terminal_from_report style_report of
           None \<Rightarrow> (None, w1)
         | Some (TerminalContinue after_style) \<Rightarrow>
             (let (plugin_report, w2) = execute plugin_pipeline after_style capabilities w1;
                  log' = log @ audit_report PluginScope plugin_report
              in case terminal_from_report plugin_report of
                   None \<Rightarrow> (None, w2)
                 | Some (TerminalContinue final) \<Rightarrow>
                     (Some (finish log' (permission_outcome final users mandatory)), w2)
                 | Some t \<Rightarrow> (map_option (finish log') (into_outcome t), w2))
         | Some t \<Rightarrow> (map_option (finish log) (into_outcome t), w1))"

definition intercept_action ::
  "'n ActionProposal \<Rightarrow> ('n, 'w) pipeline \<Rightarrow> ('n, 'w) pipeline \<Rightarrow> ActionCapabilities \<Rightarrow>
   PermissionPolicy \<Rightarrow> PermissionPolicy \<Rightarrow> 'w \<Rightarrow> 'n InterceptionResult option \<times> 'w" where
  "intercept_action p style_pipeline plugin_pipeline capabilities user mandatory w =
     intercept_action_with_user_policies p style_pipeline plugin_pipeline capabilities [user] mandatory w"

section \<open>Reports of a pipeline\<close>

text \<open>The proposals handed along: each step saw what its predecessors left.\<close>

fun handed_on :: "'n ActionProposal \<Rightarrow> 'n InterceptorAuditStep list \<Rightarrow> 'n ActionProposal \<Rightarrow> bool" where
  "handed_on p [] x \<longleftrightarrow> x = p"
| "handed_on p (s # ss) x \<longleftrightarrow> audit_input s = p \<and>
     (case audit_result s of
        AuditContinue output _ \<Rightarrow> handed_on output ss x
      | AuditFailure _ \<Rightarrow> handed_on p ss x
      | _ \<Rightarrow> False)"

lemma handed_on_append: "handed_on p ss y \<Longrightarrow> handed_on y ts x \<Longrightarrow> handed_on p (ss @ ts) x"
  by (induction p ss y rule: handed_on.induct) (auto split: InterceptorAuditResult.splits)

lemma audit_continue:
  assumes "audit c rs p ss (OutcomeDecision d)" and "d = Continue x \<or> d = Replace x"
  shows "handed_on p (audit_report scope \<lparr>steps = ss, outcome = out\<rparr>) x \<and> map step_handler ss = map reg_handler rs"
  using assms
proof (induction c rs p ss "OutcomeDecision d :: 'a ActionProposal ExecutionOutcome" rule: audit.induct)
  case (3 c r rs current s ss)
  have pass: "passes (failure_policy r) (step_result s)"
  proof (rule ccontr)
    assume "\<not> passes (failure_policy r) (step_result s)"
    then have "OutcomeDecision d = stop_outcome r (step_result s)" using "3.prems" by simp
    then show False using \<open>\<not> passes _ _\<close> "3.prems"(2)
      by (cases "(failure_policy r, step_result s)" rule: passes.cases) (auto split: FailurePolicy.splits)
  qed
  then have "audit c rs (advance (step_result s) current) ss (OutcomeDecision d)" using "3.prems" by simp
  from "3.hyps" [OF pass this "3.prems"(2)] show ?case
    using pass "3.prems"(1)
    by (cases "(failure_policy r, step_result s)" rule: passes.cases) (auto simp: audit_report_def)
qed (auto simp: audit_report_def)

lemma audit_nonempty: "audit c rs p [] out \<Longrightarrow> out = OutcomeDecision (Continue p)"
  by (cases rs) auto

lemma terminal_continue:
  assumes "execute rs p c w = (rep, w')" and "terminal_from_report rep = Some (TerminalContinue x)"
  shows "handed_on p (audit_report scope rep) x \<and> map step_handler (steps rep) = map reg_handler rs"
proof -
  have "outcome rep = OutcomeDecision (Continue x) \<or> outcome rep = OutcomeDecision (Replace x)"
    using assms(2) by (auto simp: terminal_from_report_def Let_def split: ExecutionOutcome.splits Decision.splits if_splits)
  then show ?thesis
    using audit_continue [of c rs p "steps rep" _ x scope "outcome rep"] execute_audit [OF assms(1)]
    by (auto simp: audit_report_def)
qed

lemma terminal_total: "execute rs p c w = (rep, w') \<Longrightarrow> terminal_from_report rep \<noteq> None"
  using audit_nonempty [of c rs p "outcome rep"] execute_audit [of rs p c w rep w']
  by (auto simp: terminal_from_report_def Let_def split: ExecutionOutcome.splits Decision.splits)

text \<open>The cases of an interception.\<close>

lemma intercept_cases:
  assumes "intercept_action_with_user_policies p style plugins c users mandatory w = (res, w')"
  obtains (style) rep w1 t out where "execute style p c w = (rep, w1)" "terminal_from_report rep = Some t"
      "into_outcome t = Some out" "\<And>x. t \<noteq> TerminalContinue x"
      "res = Some \<lparr>original = p, audit_steps = audit_report SessionStyle rep, interception_outcome = out\<rparr>"
  | (plugins) rep w1 x rep' w2 t out where "execute style p c w = (rep, w1)"
      "terminal_from_report rep = Some (TerminalContinue x)" "execute plugins x c w1 = (rep', w2)"
      "terminal_from_report rep' = Some t" "into_outcome t = Some out" "\<And>y. t \<noteq> TerminalContinue y"
      "res = Some \<lparr>original = p, audit_steps = audit_report SessionStyle rep @ audit_report PluginScope rep',
         interception_outcome = out\<rparr>"
  | (policies) rep w1 x rep' w2 y where "execute style p c w = (rep, w1)"
      "terminal_from_report rep = Some (TerminalContinue x)" "execute plugins x c w1 = (rep', w2)"
      "terminal_from_report rep' = Some (TerminalContinue y)"
      "res = Some \<lparr>original = p, audit_steps = audit_report SessionStyle rep @ audit_report PluginScope rep',
         interception_outcome = permission_outcome y users mandatory\<rparr>"
proof -
  obtain rep w1 where rep: "execute style p c w = (rep, w1)" by fastforce
  then obtain t where t: "terminal_from_report rep = Some t" using terminal_total [OF rep] by blast
  show thesis
  proof (cases "\<exists>x. t = TerminalContinue x")
    case False
    then obtain out where "into_outcome t = Some out" by (cases t) auto
    then show ?thesis using style [OF rep t] False assms rep t
      by (cases t) (auto simp: intercept_action_with_user_policies_def)
  next
    case True
    then obtain x where x: "t = TerminalContinue x" by blast
    obtain rep' w2 where rep': "execute plugins x c w1 = (rep', w2)" by fastforce
    then obtain t' where t': "terminal_from_report rep' = Some t'" using terminal_total [OF rep'] by blast
    show ?thesis
    proof (cases "\<exists>y. t' = TerminalContinue y")
      case False
      then obtain out where "into_outcome t' = Some out" by (cases t') auto
      then show ?thesis using plugins [OF rep _ rep' t'] False assms rep t x rep' t'
        by (cases t') (auto simp: intercept_action_with_user_policies_def)
    next
      case True
      then show ?thesis using policies [OF rep _ rep'] assms rep t x rep' t'
        by (auto simp: intercept_action_with_user_policies_def)
    qed
  qed
qed

lemma permission_approved:
  "permission_outcome y users mandatory = Approved x d \<Longrightarrow>
   y = x \<and> d = evaluate_layered_permissions x users mandatory \<and> decision_effect d = Allow"
  by (auto simp: permission_outcome_def Let_def split: PermissionEffect.splits)

section \<open>Properties\<close>

text \<open>
  C25. Interception never panics and nothing is approved behind the back of a handler or a
  policy: an approved proposal is the one that remained after every style handler and then
  every plugin handler was asked in order, each about what its predecessors left, starting
  from the original; and every user policy and the mandatory policy allows exactly this
  proposal.
\<close>

theorem interception_complete:
  "(\<exists>res. fst (intercept_action_with_user_policies p style plugins c users mandatory w) = Some res \<and>
     original res = p \<and>
     (\<forall>x d. interception_outcome res = Approved x d \<longrightarrow>
        map audit_handler (audit_steps res) = map reg_handler (style @ plugins) \<and>
        handed_on p (audit_steps res) x \<and>
        (\<forall>q \<in> set (users @ [mandatory]). match_effect (evaluate_policy q x) = Allow)))"
proof -
  obtain res w' where run: "intercept_action_with_user_policies p style plugins c users mandatory w = (res, w')"
    by fastforce
  have not_approved: "into_outcome t \<noteq> Some (Approved x d)" for t x d by (cases t) auto
  from run show ?thesis
  proof (cases rule: intercept_cases)
    case (policies rep w1 x rep' w2 y)
    have "match_effect (evaluate_policy q y) = Allow"
      if "permission_outcome y users mandatory = Approved z d" "q \<in> set (users @ [mandatory])" for z d q
    proof -
      let ?r = "\<lambda>q. permission_rank (match_effect (evaluate_policy q y))"
      have "decision_effect (evaluate_layered_permissions y users mandatory) = Allow"
        using permission_approved [OF that(1)] by auto
      then have "Max (?r ` set (users @ [mandatory])) = 0"
        using layered_rank [of y users mandatory] by simp
      then have "?r q \<le> 0" using that(2) by (metis Max_ge finite_imageI finite_set imageI)
      then show ?thesis by (cases "match_effect (evaluate_policy q y)") auto
    qed
    moreover have "handed_on p (audit_report SessionStyle rep @ audit_report PluginScope rep') y"
      using terminal_continue [OF policies(1,2)] terminal_continue [OF policies(3,4)] by (blast intro: handed_on_append)
    moreover have "map audit_handler (audit_report SessionStyle rep @ audit_report PluginScope rep') = map reg_handler (style @ plugins)"
      using terminal_continue [OF policies(1,2)] terminal_continue [OF policies(3,4)]
      by (simp add: audit_report_def comp_def)
    ultimately show ?thesis using run policies(5) permission_approved [of y users mandatory] by fastforce
  qed (use run not_approved in auto)
qed

section \<open>Witnesses\<close>

definition demo_request :: "string \<Rightarrow> nat ActionProposal" where
  "demo_request url =
     \<lparr>proposal_id = ProposalId ''p1'',
      proposal_action = HttpRequest \<lparr>http_request_method = ''GET'', http_request_url = url, header_names = [], body_hash = None\<rparr>,
      proposal_style = ''chat'', proposal_workspace = ''w'', proposal_origin = ''runtime''\<rparr>"

definition demo_matcher :: "string \<Rightarrow> PermissionMatcher" where
  "demo_matcher d =
     \<lparr>matcher_action = Some ''HTTP_request'', matcher_tool = None, tool_group = None, matcher_source = None,
      path_prefix = None, executable = None, domain = Some d, http_method = None, matcher_provider = None,
      matcher_model = None, matcher_style = None, matcher_workspace = None\<rparr>"

definition demo_rules :: "PermissionRule list" where
  "demo_rules =
     [\<lparr>rule_id = ''allow'', rule_priority = 1, matcher = demo_matcher ''*.Example.com'', rule_effect = Allow, rule_reason = ''own''\<rparr>,
      \<lparr>rule_id = ''deny'', rule_priority = 2, matcher = demo_matcher ''evil.example.com'', rule_effect = Deny, rule_reason = ''evil''\<rparr>]"

definition demo_policy :: PermissionPolicy where
  "demo_policy = PermissionPolicy_new ''user'' demo_rules Ask ''unknown''"

definition demo_handler :: "(nat, unit) pipeline" where
  "demo_handler =
     [\<lparr>ordering = OrderingSpec_new ''rewrite'' ''style'', timeout = 1, failure_policy = PolicyAbort,
       intercept = (\<lambda>w p. (Returned (Ok (Replace (demo_request ''https://user@api.example.com:80/x''))), w))\<rparr>]"

theorem policy_best_rule_witness:
  "\<exists>r. deciding_rule demo_rules (demo_request ''http://evil.example.com'') r \<and> rule_id r = ''deny'' \<and>
     match_effect (evaluate_policy demo_policy (demo_request ''http://evil.example.com'')) = rule_effect r"
proof -
  have "match_rule_id (evaluate_policy demo_policy (demo_request ''http://evil.example.com'')) = Some ''deny''"
    by code_simp
  then show ?thesis
    using policy_best_rule [where rules = demo_rules and i = "''user''" and e = Ask and why = "''unknown''"
        and p = "demo_request ''http://evil.example.com''"]
    by (simp add: demo_policy_def) (simp add: demo_rules_def)
qed

theorem interception_complete_witness:
  "\<exists>res x d. fst (intercept_action_with_user_policies (demo_request ''http://evil.example.com'') demo_handler []
       caps_all [demo_policy] demo_policy ()) = Some res \<and>
     interception_outcome res = Approved x d \<and>
     map audit_handler (audit_steps res) = [''rewrite''] \<and>
     handed_on (demo_request ''http://evil.example.com'') (audit_steps res) x \<and>
     match_effect (evaluate_policy demo_policy x) = Allow"
proof -
  let ?run = "fst (intercept_action_with_user_policies (demo_request ''http://evil.example.com'') demo_handler []
       caps_all [demo_policy] demo_policy ())"
  have "case ?run of Some res \<Rightarrow> (case interception_outcome res of Approved _ _ \<Rightarrow> True | _ \<Rightarrow> False) | None \<Rightarrow> False"
    by code_simp
  then obtain res x d where run: "?run = Some res" "interception_outcome res = Approved x d"
    by (auto split: option.splits InterceptionOutcome.splits)
  have "map reg_handler (demo_handler @ []) = [''rewrite'']" by code_simp
  then show ?thesis
    using interception_complete [of "demo_request ''http://evil.example.com''" demo_handler "[]" caps_all "[demo_policy]" demo_policy "()"]
      run by auto
qed

end
