(* ===== verification/Parallel_State.thy ===== *)
theory Parallel_State
  imports Graph_Parallel
begin

text \<open>
  \<^verbatim>\<open>apps/runtime/logic/src/parallel_execution.rs\<close>, first part: the replayable state of a
  parallel fan-out. The configuration is the one of the compiled graph; identities are
  derived by \<^verbatim>\<open>serde_json\<close> and BLAKE3, which are parameters. A transition that is refused
  leaves the state as it was, so \<open>apply\<close> returns the new state or the error.
\<close>

definition MAX_MEMBERS :: nat where "MAX_MEMBERS = 1024"
definition MAX_IDENTIFIER_BYTES :: nat where "MAX_IDENTIFIER_BYTES = 512"
definition MAX_RESULT_BYTES :: nat where "MAX_RESULT_BYTES = 64 * 1024"
definition MAX_ARTIFACTS_PER_RESULT :: nat where "MAX_ARTIFACTS_PER_RESULT = 1024"
definition MAX_FAILURE_CODE_BYTES :: nat where "MAX_FAILURE_CODE_BYTES = 256"

section \<open>Data\<close>

record NodeWorkIdentity =
  work_run_id :: string
  work_node_id :: string
  work_branch_path :: "string list"
  work_attempt :: nat
  work_loop_iteration :: nat
  work_step :: nat

record ParallelBranchSpec =
  member_reference :: string
  spec_target :: string
  spec_write_variables :: "string fset"
  workspace_resources :: "string fset"

record ParallelMemberBinding =
  configured_reference :: string
  bound_target :: string
  bound_index :: nat
  bound_branch_id :: string

record 'n JoinMemberResult =
  inline_value :: "'n json option"
  node_result_reference :: "string option"
  artifact_references :: "string fset"
  declared_artifact_references :: "string fset"

datatype 'n ParallelBranchState =
    Queued
  | Dispatched
  | Running
  | Completed u64 "'n JoinMemberResult"
  | Failed string
  | Cancelled string

fun is_active :: "'n ParallelBranchState \<Rightarrow> bool" where
  "is_active Dispatched = True"
| "is_active Running = True"
| "is_active _ = False"

fun is_incomplete :: "'n ParallelBranchState \<Rightarrow> bool" where
  "is_incomplete Queued = True"
| "is_incomplete Dispatched = True"
| "is_incomplete Running = True"
| "is_incomplete _ = False"

record 'n ParallelBranchRecord =
  branch_id :: string
  dispatch_id :: string
  branch_index :: nat
  target_node_id :: string
  branch_state :: "'n ParallelBranchState"

datatype 'n ParallelBranchTransition =
    Dispatch (transition_branch: string) (transition_dispatch: string)
  | Start (transition_branch: string) (transition_dispatch: string)
  | Complete (transition_branch: string) (transition_dispatch: string) u64 "'n JoinMemberResult"
  | Fail (transition_branch: string) (transition_dispatch: string) string
  | Cancel (transition_branch: string) (transition_dispatch: string) string

record BranchDispatchDescriptor =
  ready_branch_id :: string
  ready_dispatch_id :: string
  ready_index :: nat
  ready_target :: string

record ParallelDispatchDecision =
  ready :: "BranchDispatchDescriptor list"
  backpressured :: bool
  queued_after_dispatch :: nat

record 'n ParallelExecutionState =
  parallel_work :: NodeWorkIdentity
  state_max_parallelism :: nat
  state_max_queue_depth :: nat
  state_join_target :: string
  state_join_policy :: ParallelJoinPolicy
  state_serialization :: "ParallelSerializationPolicy option"
  branches :: "(string, 'n ParallelBranchRecord) fmap"
  member_bindings :: "ParallelMemberBinding list"

datatype ParallelExecutionError =
    WrongConfiguration string
  | InvalidCapacity
  | InvalidMemberCount nat
  | QueueCapacityExceeded nat nat nat
  | InvalidIdentifier string string
  | IdentitySerialization string
  | DuplicateBranchIdentity
  | DuplicateConfiguredReference string
  | DuplicateBoundBranch string
  | MissingBoundBranch string
  | UnexpectedBoundBranch
  | JoinBindingSetMismatch
  | ParallelJoinPolicyMismatch
  | UnknownBranch string
  | DispatchIdentityMismatch string
  | IllegalTransition string string string
  | InvalidCompletionSequence u64 u64
  | CompletionSequenceExhausted
  | ResultSerialization string
  | ResultTooLarge nat
  | InvalidArtifactCollection
  | InvalidDiagnosticCode
  | InvalidJoinConfiguration
  | UnexpectedJoinMember string
  | MissingProjectedResult string string
  | UnknownMergeVariable string
  | UnknownWrittenVariable string
  | MergePolicyMismatch string VariableMergePolicy VariableMergePolicy
  | ConflictingVariableWrite string string string
  | ConflictingWorkspaceWrite string string string

type_synonym 'a parallel = "('a, ParallelExecutionError) result"

text \<open>External code: canonical serialization, BLAKE3 and its hexadecimal text.\<close>

record 'n parallel_ops =
  branch_material :: "NodeWorkIdentity \<Rightarrow> string \<Rightarrow> nat \<Rightarrow> (bytes, string) result"
  dispatch_material :: "NodeWorkIdentity \<Rightarrow> string \<Rightarrow> (bytes, string) result"
  identity_hash :: "bytes \<Rightarrow> bytes"
  identity_hex :: "bytes \<Rightarrow> string"
  result_to_vec :: "'n json \<Rightarrow> (bytes, string) result"

section \<open>Validation\<close>

definition validate_identifier :: "string \<Rightarrow> string \<Rightarrow> unit parallel" where
  "validate_identifier field s =
     fail_if (s = [] \<or> MAX_IDENTIFIER_BYTES < length s \<or> has_control s) (InvalidIdentifier field s)"

definition validate_code :: "string \<Rightarrow> unit parallel" where
  "validate_code code =
     fail_if (code = [] \<or> MAX_FAILURE_CODE_BYTES < length code \<or> has_control code) InvalidDiagnosticCode"

definition validate_member_result :: "'n parallel_ops \<Rightarrow> 'n JoinMemberResult \<Rightarrow> unit parallel" where
  "validate_member_result ops r =
     rbind (fail_if (MAX_ARTIFACTS_PER_RESULT < fcard (artifact_references r) \<or>
         \<not> declared_artifact_references r |\<subseteq>| artifact_references r) InvalidArtifactCollection) (\<lambda>_.
     rbind (case inline_value r of
         None \<Rightarrow> Ok ()
       | Some v \<Rightarrow>
           rbind (map_err ResultSerialization (result_to_vec ops v)) (\<lambda>bs.
           fail_if (MAX_RESULT_BYTES < length bs) (ResultTooLarge (length bs)))) (\<lambda>_.
     rbind (case node_result_reference r of
         None \<Rightarrow> Ok ()
       | Some reference \<Rightarrow> validate_identifier ''node result reference'' reference) (\<lambda>_.
     check_all (validate_identifier ''artifact reference'') (sorted_list_of_fset (artifact_references r)))))"

definition declarations_by_name :: "VariableDeclaration list \<Rightarrow> (string, VariableDeclaration) fmap" where
  "declarations_by_name variables = fold (\<lambda>v. fmupd (variable_name v) v) variables fmempty"

definition check_merge_policy ::
  "(string, VariableDeclaration) fmap \<Rightarrow> string \<times> VariableMergePolicy \<Rightarrow> unit parallel" where
  "check_merge_policy declarations = (\<lambda>(name, configured).
     rbind (ok_or (UnknownMergeVariable name) (fmlookup declarations name)) (\<lambda>declaration.
     case merge_policy declaration of
       None \<Rightarrow> Ok ()
     | Some declared \<Rightarrow> fail_if (declared \<noteq> configured) (MergePolicyMismatch name declared configured)))"

definition check_shared_variable ::
  "(string, VariableDeclaration) fmap \<Rightarrow> (string, VariableMergePolicy) fmap \<Rightarrow>
   ParallelSerializationPolicy option \<Rightarrow> ParallelBranchSpec \<Rightarrow> ParallelBranchSpec \<Rightarrow> string \<Rightarrow> unit parallel" where
  "check_shared_variable declarations policies serialization left right variable =
     rbind (ok_or (UnknownWrittenVariable variable) (fmlookup declarations variable)) (\<lambda>declaration.
     if variable_scope declaration = ScopeBranch then Ok ()
     else fail_if (variable |\<notin>| fmdom policies \<and> merge_policy declaration = None \<and> serialization = None)
            (ConflictingVariableWrite variable (spec_target left) (spec_target right)))"

definition check_branch_pair ::
  "(string, VariableDeclaration) fmap \<Rightarrow> (string, VariableMergePolicy) fmap \<Rightarrow>
   ParallelSerializationPolicy option \<Rightarrow> ParallelBranchSpec list \<Rightarrow> nat \<times> nat \<Rightarrow> unit parallel" where
  "check_branch_pair declarations policies serialization specs = (\<lambda>(l, r).
     let left = specs ! l; right = specs ! r in
     rbind (check_all (check_shared_variable declarations policies serialization left right)
       (sorted_list_of_fset (spec_write_variables left |\<inter>| spec_write_variables right))) (\<lambda>_.
     case first_common (workspace_resources left) (workspace_resources right) of
       Some resource \<Rightarrow>
         fail_if (serialization = None) (ConflictingWorkspaceWrite resource (spec_target left) (spec_target right))
     | None \<Rightarrow> Ok ()))"

definition validate_branch_writes ::
  "ParallelBranchSpec list \<Rightarrow> VariableDeclaration list \<Rightarrow> (string, VariableMergePolicy) fmap \<Rightarrow>
   ParallelSerializationPolicy option \<Rightarrow> unit parallel" where
  "validate_branch_writes specs variables policies serialization =
     rbind (fail_if (MAX_MEMBERS < length specs) (InvalidMemberCount (length specs))) (\<lambda>_.
     let declarations = declarations_by_name variables in
     rbind (check_all (check_merge_policy declarations) (sorted_list_of_fmap policies)) (\<lambda>_.
     rbind (check_all (check_branch_pair declarations policies serialization specs) (index_pairs (length specs))) (\<lambda>_.
     check_all (\<lambda>spec.
         check_all (\<lambda>variable. fail_if (variable |\<notin>| fmdom declarations) (UnknownWrittenVariable variable))
           (sorted_list_of_fset (spec_write_variables spec))) specs)))"

section \<open>Identities\<close>

definition stable_branch_id :: "'n parallel_ops \<Rightarrow> NodeWorkIdentity \<Rightarrow> string \<Rightarrow> nat \<Rightarrow> string parallel" where
  "stable_branch_id ops work target index =
     rbind (validate_identifier ''run id'' (work_run_id work)) (\<lambda>_.
     rbind (validate_identifier ''node id'' (work_node_id work)) (\<lambda>_.
     rbind (validate_identifier ''branch target'' target) (\<lambda>_.
     rbind (check_all (validate_identifier ''parent branch id'') (work_branch_path work)) (\<lambda>_.
     rbind (map_err IdentitySerialization (branch_material ops work target index)) (\<lambda>material.
     Ok (''branch:blake3:'' @
       ContentHash_to_hex (identity_hex ops) (ContentHash_digest (identity_hash ops) material)))))))"

definition stable_dispatch_id :: "'n parallel_ops \<Rightarrow> NodeWorkIdentity \<Rightarrow> string \<Rightarrow> string parallel" where
  "stable_dispatch_id ops work branch =
     rbind (map_err IdentitySerialization (dispatch_material ops work branch)) (\<lambda>material.
     Ok (''dispatch:blake3:'' @
       ContentHash_to_hex (identity_hex ops) (ContentHash_digest (identity_hash ops) material)))"

section \<open>Initialization\<close>

text \<open>The loop over the branch specifications: references seen, bindings and records so far.\<close>

fun add_branches ::
  "'n parallel_ops \<Rightarrow> NodeWorkIdentity \<Rightarrow> nat \<Rightarrow> (nat \<times> ParallelBranchSpec) list \<Rightarrow> string fset \<Rightarrow>
   ParallelMemberBinding list \<Rightarrow> (string, 'n ParallelBranchRecord) fmap \<Rightarrow>
   (ParallelMemberBinding list \<times> (string, 'n ParallelBranchRecord) fmap) parallel" where
  "add_branches ops work members [] references bindings records = Ok (bindings, records)"
| "add_branches ops work members ((index, spec) # rest) references bindings records =
     rbind (validate_identifier ''join member reference'' (member_reference spec)) (\<lambda>_.
     rbind (validate_identifier ''branch target'' (spec_target spec)) (\<lambda>_.
     rbind (fail_if (member_reference spec |\<in>| references) (DuplicateConfiguredReference (member_reference spec))) (\<lambda>_.
     rbind (fail_if (2 ^ 32 \<le> index) (InvalidMemberCount members)) (\<lambda>_.
     rbind (stable_branch_id ops work (spec_target spec) index) (\<lambda>b.
     rbind (stable_dispatch_id ops work b) (\<lambda>d.
     rbind (fail_if (b |\<in>| fmdom records) DuplicateBranchIdentity) (\<lambda>_.
     add_branches ops work members rest (finsert (member_reference spec) references)
       (bindings @ [\<lparr>configured_reference = member_reference spec, bound_target = spec_target spec,
                     bound_index = index, bound_branch_id = b\<rparr>])
       (fmupd b \<lparr>branch_id = b, dispatch_id = d, branch_index = index, target_node_id = spec_target spec,
                 branch_state = Queued\<rparr> records))))))))"

definition effective_parallelism :: "ParallelSerializationPolicy option \<Rightarrow> nat \<Rightarrow> nat" where
  "effective_parallelism serialization maximum = (if serialization \<noteq> None then 1 else maximum)"

definition ParallelExecutionState_new ::
  "'n parallel_ops \<Rightarrow> NodeWorkIdentity \<Rightarrow> 'n NodeConfiguration \<Rightarrow> ParallelBranchSpec list \<Rightarrow>
   VariableDeclaration list \<Rightarrow> 'n ParallelExecutionState parallel" where
  "ParallelExecutionState_new ops work config specs variables =
     (case config of
        NodeConfiguration.ParallelBranch c \<Rightarrow>
          rbind (fail_if (parallel_max_parallelism c = 0 \<or> max_queue_depth c = 0) InvalidCapacity) (\<lambda>_.
          rbind (fail_if (length specs < 2 \<or> MAX_MEMBERS < length specs) (InvalidMemberCount (length specs))) (\<lambda>_.
          rbind (validate_identifier ''join target'' (join_target c)) (\<lambda>_.
          rbind (validate_branch_writes specs variables (variable_merge_policies c) (serialization_policy c)) (\<lambda>_.
          let effective = effective_parallelism (serialization_policy c) (parallel_max_parallelism c);
              waiting = length specs - effective
          in
          rbind (fail_if (max_queue_depth c < waiting)
            (QueueCapacityExceeded (length specs) effective (max_queue_depth c))) (\<lambda>_.
          rbind (add_branches ops work (length specs) (enumerate 0 specs) {||} [] fmempty) (\<lambda>(bindings, records).
          Ok \<lparr>parallel_work = work, state_max_parallelism = parallel_max_parallelism c,
              state_max_queue_depth = max_queue_depth c, state_join_target = join_target c,
              state_join_policy = join_policy c, state_serialization = serialization_policy c,
              branches = records, member_bindings = bindings\<rparr>))))))
      | _ \<Rightarrow> Err (WrongConfiguration ''parallel_branch''))"

section \<open>Dispatch\<close>

definition ordered_branches :: "'n ParallelExecutionState \<Rightarrow> 'n ParallelBranchRecord list" where
  "ordered_branches s = sort_key (\<lambda>r. (branch_index r, branch_id r)) (fmvalues (branches s))"

definition effective_limit :: "'n ParallelExecutionState \<Rightarrow> nat" where
  "effective_limit s = effective_parallelism (state_serialization s) (state_max_parallelism s)"

definition dispatch_decision :: "'n ParallelExecutionState \<Rightarrow> ParallelDispatchDecision" where
  "dispatch_decision s =
     (let active = length (filter (\<lambda>r. is_active (branch_state r)) (fmvalues (branches s)));
          capacity = effective_limit s - active;
          queued = filter (\<lambda>r. branch_state r = Queued) (ordered_branches s);
          ready_now = map (\<lambda>r. \<lparr>ready_branch_id = branch_id r, ready_dispatch_id = dispatch_id r,
                                  ready_index = branch_index r, ready_target = target_node_id r\<rparr>) (take capacity queued);
          remaining = length queued - length ready_now
      in \<lparr>ready = ready_now, backpressured = (0 < remaining), queued_after_dispatch = min remaining (2 ^ 32 - 1)\<rparr>)"

section \<open>Transitions\<close>

fun state_name :: "'n ParallelBranchState \<Rightarrow> string" where
  "state_name Queued = ''queued''"
| "state_name Dispatched = ''dispatched''"
| "state_name Running = ''running''"
| "state_name (Completed _ _) = ''completed''"
| "state_name (Failed _) = ''failed''"
| "state_name (Cancelled _) = ''cancelled''"

fun transition_name :: "'n ParallelBranchTransition \<Rightarrow> string" where
  "transition_name (Dispatch _ _) = ''dispatch''"
| "transition_name (Start _ _) = ''start''"
| "transition_name (Complete _ _ _ _) = ''complete''"
| "transition_name (Fail _ _ _) = ''fail''"
| "transition_name (Cancel _ _ _) = ''cancel''"

fun completed_sequence :: "'n ParallelBranchState \<Rightarrow> u64 option" where
  "completed_sequence (Completed q _) = Some q"
| "completed_sequence _ = None"

definition next_completion_sequence :: "'n ParallelExecutionState \<Rightarrow> u64 parallel" where
  "next_completion_sequence s =
     ok_or CompletionSequenceExhausted
       (checked_add_u64 (fold max (List.map_filter (completed_sequence \<circ> branch_state) (fmvalues (branches s))) 0) 1)"

text \<open>The \<^verbatim>\<open>match\<close> on the transition: the new state of the branch.\<close>

fun next_branch_state ::
  "'n parallel_ops \<Rightarrow> u64 option \<Rightarrow> 'n ParallelBranchTransition \<Rightarrow> 'n ParallelBranchState \<Rightarrow>
   'n ParallelBranchState parallel" where
  "next_branch_state ops expected (Dispatch b d) Queued = Ok Dispatched"
| "next_branch_state ops expected (Start b d) Dispatched = Ok Running"
| "next_branch_state ops expected (Complete b d actual result) Running =
     rbind (validate_member_result ops result) (\<lambda>_.
     rbind (ok_or CompletionSequenceExhausted expected) (\<lambda>e.
     rbind (fail_if (actual \<noteq> e) (InvalidCompletionSequence e actual)) (\<lambda>_.
     Ok (Completed actual result))))"
| "next_branch_state ops expected (Fail b d code) Running = rbind (validate_code code) (\<lambda>_. Ok (Failed code))"
| "next_branch_state ops expected (Cancel b d code) st =
     (if is_incomplete st then rbind (validate_code code) (\<lambda>_. Ok (Cancelled code))
      else Err (IllegalTransition b (state_name st) ''cancel''))"
| "next_branch_state ops expected t st = Err (IllegalTransition (transition_branch t) (state_name st) (transition_name t))"

definition is_complete :: "'n ParallelBranchTransition \<Rightarrow> bool" where
  "is_complete t = (case t of Complete _ _ _ _ \<Rightarrow> True | _ \<Rightarrow> False)"

definition apply_transition ::
  "'n parallel_ops \<Rightarrow> 'n ParallelBranchTransition \<Rightarrow> 'n ParallelExecutionState \<Rightarrow> 'n ParallelExecutionState parallel" where
  "apply_transition ops t s =
     rbind (if is_complete t then rbind (next_completion_sequence s) (\<lambda>q. Ok (Some q)) else Ok None) (\<lambda>expected.
     rbind (ok_or (UnknownBranch (transition_branch t)) (fmlookup (branches s) (transition_branch t))) (\<lambda>r.
     rbind (fail_if (transition_dispatch t \<noteq> dispatch_id r) (DispatchIdentityMismatch (transition_branch t))) (\<lambda>_.
     rbind (next_branch_state ops expected t (branch_state r)) (\<lambda>st.
     Ok (s\<lparr>branches := fmupd (transition_branch t) (r\<lparr>branch_state := st\<rparr>) (branches s)\<rparr>)))))"

definition completion_transition ::
  "'n parallel_ops \<Rightarrow> string \<Rightarrow> 'n JoinMemberResult \<Rightarrow> 'n ParallelExecutionState \<Rightarrow>
   'n ParallelBranchTransition parallel" where
  "completion_transition ops b result s =
     rbind (validate_member_result ops result) (\<lambda>_.
     rbind (ok_or (UnknownBranch b) (fmlookup (branches s) b)) (\<lambda>r.
     rbind (fail_if (branch_state r \<noteq> Running) (IllegalTransition b (state_name (branch_state r)) ''complete'')) (\<lambda>_.
     rbind (next_completion_sequence s) (\<lambda>q.
     Ok (Complete b (dispatch_id r) q result)))))"

definition cancellation_transitions ::
  "string \<Rightarrow> 'n ParallelExecutionState \<Rightarrow> 'n ParallelBranchTransition list parallel" where
  "cancellation_transitions code s =
     rbind (validate_code code) (\<lambda>_.
     Ok (map (\<lambda>r. Cancel (branch_id r) (dispatch_id r) code)
       (filter (\<lambda>r. is_incomplete (branch_state r)) (ordered_branches s))))"

end
