(* ===== verification/Parallel_Correct.thy ===== *)
theory Parallel_Correct
  imports Parallel_State Graph_Shape "HOL-Library.Multiset"
begin

text \<open>
  The state machine of a parallel fan-out: what one accepted transition changes, the
  bounds on running and waiting branches, the numbering of completions and termination.
\<close>

section \<open>Values of an updated map\<close>

lemma mset_fmvalues: "mset (fmvalues m) = image_mset (\<lambda>k. the (fmlookup m k)) (mset_set (fset (fmdom m)))"
proof -
  have "fmvalues m = map (\<lambda>k. the (fmlookup m k)) (sorted_list_of_fset (fmdom m))"
    by (simp add: fmvalues_def sorted_list_of_fmap_def comp_def)
  moreover have "mset (sorted_list_of_set (fset (fmdom m))) = mset_set (fset (fmdom m))"
    by (metis mset_sorted_list_of_multiset sorted_list_of_mset_set)
  ultimately show ?thesis by (simp add: sorted_list_of_fset.rep_eq)
qed

lemma mset_fmvalues_upd:
  assumes "fmlookup m k = Some v"
  shows "add_mset v (mset (fmvalues (fmupd k v' m))) = add_mset v' (mset (fmvalues m))"
proof -
  let ?D = "fset (fmdom m)"
  have k: "k \<in> ?D" using assms by (rule fmdomI)
  then have dom: "fset (fmdom (fmupd k v' m)) = ?D" by auto
  have split: "mset_set ?D = add_mset k (mset_set (?D - {k}))" using k by (simp add: mset_set.remove)
  have "image_mset (\<lambda>j. the (fmlookup (fmupd k v' m) j)) (mset_set (?D - {k})) =
      image_mset (\<lambda>j. the (fmlookup m j)) (mset_set (?D - {k}))"
    by (rule image_mset_cong) auto
  then show ?thesis unfolding mset_fmvalues dom split using assms by simp
qed

definition records :: "'n ParallelExecutionState \<Rightarrow> 'n ParallelBranchRecord multiset" where
  "records s = mset (fmvalues (branches s))"

definition in_state :: "('n ParallelBranchState \<Rightarrow> bool) \<Rightarrow> 'n ParallelExecutionState \<Rightarrow> nat" where
  "in_state P s = size (filter_mset (\<lambda>r. P (branch_state r)) (records s))"

lemma length_filter_branches:
  "length (filter (\<lambda>r. P (branch_state r)) (fmvalues (branches s))) = in_state P s"
  by (simp add: in_state_def records_def flip: size_mset)

section \<open>One transition\<close>

fun phase :: "'n ParallelBranchState \<Rightarrow> nat" where
  "phase Queued = 0"
| "phase Dispatched = 1"
| "phase Running = 2"
| "phase _ = 3"

definition set_branch ::
  "string \<Rightarrow> 'n ParallelBranchRecord \<Rightarrow> 'n ParallelBranchState \<Rightarrow> 'n ParallelExecutionState \<Rightarrow> 'n ParallelExecutionState" where
  "set_branch b r st s = s\<lparr>branches := fmupd b (r\<lparr>branch_state := st\<rparr>) (branches s)\<rparr>"

lemma apply_Ok:
  assumes "apply_transition ops t s = Ok s'"
  obtains r st expected where "fmlookup (branches s) (transition_branch t) = Some r"
    "transition_dispatch t = dispatch_id r" "next_branch_state ops expected t (branch_state r) = Ok st"
    "is_complete t \<Longrightarrow> \<exists>q. expected = Some q \<and> next_completion_sequence s = Ok q"
    "s' = set_branch (transition_branch t) r st s"
  using assms that by (auto simp: apply_transition_def set_branch_def result_simps split: if_splits)

definition is_dispatch :: "'n ParallelBranchTransition \<Rightarrow> bool" where
  "is_dispatch t = (case t of Dispatch _ _ \<Rightarrow> True | _ \<Rightarrow> False)"

lemma next_branch_state_cases:
  assumes "next_branch_state ops expected t st = Ok st'"
  obtains (dispatch) "is_dispatch t" "st = Queued" "st' = Dispatched"
  | (start) "\<not> is_dispatch t" "st = Dispatched" "st' = Running"
  | (complete) q result where "\<not> is_dispatch t" "is_complete t" "st = Running" "st' = Completed q result"
      "expected = Some q" "validate_member_result ops result = Ok ()"
  | (failed) code where "\<not> is_dispatch t" "is_incomplete st" "st' = Failed code" "validate_code code = Ok ()"
  | (cancelled) code where "\<not> is_dispatch t" "is_incomplete st" "st' = Cancelled code" "validate_code code = Ok ()"
  using assms
  by (induction ops expected t st rule: next_branch_state.induct)
    (auto simp: result_simps is_dispatch_def is_complete_def split: if_splits)

lemma next_branch_state_phase:
  "next_branch_state ops expected t st = Ok st' \<Longrightarrow> phase st < phase st' \<and> is_incomplete st"
  by (erule next_branch_state_cases) (auto elim: is_incomplete.elims)

lemma records_set_branch:
  assumes "fmlookup (branches s) b = Some r"
  shows "add_mset r (records (set_branch b r st s)) = add_mset (r\<lparr>branch_state := st\<rparr>) (records s)"
  unfolding records_def set_branch_def using mset_fmvalues_upd [OF assms] by simp

lemma in_state_set_branch:
  assumes "fmlookup (branches s) b = Some r"
  shows "in_state P (set_branch b r st s) + of_bool (P (branch_state r)) = in_state P s + of_bool (P st)"
  using arg_cong [OF records_set_branch [OF assms, of st], of "\<lambda>M. size (filter_mset (\<lambda>r. P (branch_state r)) M)"]
  by (auto simp: in_state_def split: if_splits)

lemma set_branch_simps [simp]:
  "effective_limit (set_branch b r st s) = effective_limit s"
  "state_max_queue_depth (set_branch b r st s) = state_max_queue_depth s"
  "member_bindings (set_branch b r st s) = member_bindings s"
  "fmdom (branches (set_branch b r st s)) = finsert b (fmdom (branches s))"
  by (simp_all add: set_branch_def effective_limit_def)

section \<open>Steps\<close>

text \<open>A run commits dispatches only from the current decision; any other transition may arrive.\<close>

inductive parallel_step ::
  "'n parallel_ops \<Rightarrow> 'n ParallelExecutionState \<Rightarrow> 'n ParallelExecutionState \<Rightarrow> bool" for ops where
  commit: "d \<in> set (ready (dispatch_decision s)) \<Longrightarrow>
    apply_transition ops (Dispatch (ready_branch_id d) (ready_dispatch_id d)) s = Ok s' \<Longrightarrow> parallel_step ops s s'"
| advance: "\<not> is_dispatch t \<Longrightarrow> apply_transition ops t s = Ok s' \<Longrightarrow> parallel_step ops s s'"

definition applied :: "'n parallel_ops \<Rightarrow> 'n ParallelExecutionState \<Rightarrow> 'n ParallelExecutionState \<Rightarrow> bool" where
  "applied ops s s' \<longleftrightarrow> (\<exists>t. apply_transition ops t s = Ok s')"

lemma parallel_step_applied: "parallel_step ops s s' \<Longrightarrow> applied ops s s'"
  by (induction rule: parallel_step.induct) (auto simp: applied_def)

abbreviation active :: "'n ParallelExecutionState \<Rightarrow> nat" where
  "active \<equiv> in_state is_active"

abbreviation queued :: "'n ParallelExecutionState \<Rightarrow> nat" where
  "queued \<equiv> in_state (\<lambda>st. st = Queued)"

lemma dispatch_decision_counts:
  "length (ready (dispatch_decision s)) = min (queued s) (effective_limit s - active s)"
  "queued_after_dispatch (dispatch_decision s) = min (queued s - (effective_limit s - active s)) (2 ^ 32 - 1)"
proof -
  have "length (filter (\<lambda>r. branch_state r = Queued) (ordered_branches s)) = queued s"
    by (simp add: in_state_def records_def ordered_branches_def flip: size_mset)
  then show "length (ready (dispatch_decision s)) = min (queued s) (effective_limit s - active s)"
    "queued_after_dispatch (dispatch_decision s) = min (queued s - (effective_limit s - active s)) (2 ^ 32 - 1)"
    by (auto simp: dispatch_decision_def Let_def length_filter_branches min_def)
qed

definition within_capacity :: "'n ParallelExecutionState \<Rightarrow> bool" where
  "within_capacity s \<longleftrightarrow>
     active s \<le> effective_limit s \<and> queued s + active s \<le> effective_limit s + state_max_queue_depth s"

lemma within_capacity_step:
  assumes "parallel_step ops s s'" and "within_capacity s"
  shows "within_capacity s'"
  using assms(1)
proof cases
  case (commit d)
  from commit(2) obtain r st expected where "fmlookup (branches s) (ready_branch_id d) = Some r"
    "next_branch_state ops expected (Dispatch (ready_branch_id d) (ready_dispatch_id d)) (branch_state r) = Ok st"
    "s' = set_branch (ready_branch_id d) r st s" by (rule apply_Ok) simp
  then have "fmlookup (branches s) (ready_branch_id d) = Some r" "branch_state r = Queued"
    "s' = set_branch (ready_branch_id d) r Dispatched s"
    by (auto elim!: next_branch_state_cases simp: is_dispatch_def)
  moreover from commit(1) have "active s < effective_limit s"
    using dispatch_decision_counts(1) [of s] by (cases "effective_limit s - active s") auto
  ultimately show ?thesis
    using in_state_set_branch [of s "ready_branch_id d" r is_active Dispatched]
      in_state_set_branch [of s "ready_branch_id d" r "\<lambda>st. st = Queued" Dispatched] assms(2)
    by (simp add: within_capacity_def)
next
  case (advance t)
  from advance(2) obtain r st expected where r: "fmlookup (branches s) (transition_branch t) = Some r"
    and st: "next_branch_state ops expected t (branch_state r) = Ok st"
    and s': "s' = set_branch (transition_branch t) r st s" by (rule apply_Ok)
  from st have "st \<noteq> Queued" "is_active st \<longrightarrow> is_active (branch_state r)" "branch_state r = Queued \<or> is_active (branch_state r)"
    by (cases rule: next_branch_state_cases; use advance(1) in \<open>auto elim: is_incomplete.elims\<close>)+
  then show ?thesis
    using in_state_set_branch [OF r, of is_active st] in_state_set_branch [OF r, of "\<lambda>st. st = Queued" st] assms(2)
    by (cases "is_active st"; cases "is_active (branch_state r)") (auto simp: within_capacity_def s')
qed

section \<open>The initial state\<close>

definition binding_ok :: "'n parallel_ops \<Rightarrow> ParallelMemberBinding \<Rightarrow> bool" where
  "binding_ok ops m \<longleftrightarrow>
     validate_identifier ''join member reference'' (configured_reference m) = Ok () \<and>
     validate_identifier ''branch target'' (bound_target m) = Ok () \<and>
     (\<exists>h. bound_branch_id m = ''branch:blake3:'' @ identity_hex ops h)"

text \<open>Bindings and branch records name the same branches.\<close>

definition bound_records ::
  "'n parallel_ops \<Rightarrow> ParallelMemberBinding list \<Rightarrow> (string, 'n ParallelBranchRecord) fmap \<Rightarrow> bool" where
  "bound_records ops ms recs \<longleftrightarrow>
     distinct (map configured_reference ms) \<and> distinct (map bound_branch_id ms) \<and>
     set (map bound_branch_id ms) = fset (fmdom recs) \<and> list_all (binding_ok ops) ms \<and>
     (\<forall>b r. fmlookup recs b = Some r \<longrightarrow> branch_id r = b)"

lemma stable_branch_id_Ok:
  "stable_branch_id ops work target index = Ok b \<Longrightarrow> \<exists>h. b = ''branch:blake3:'' @ identity_hex ops h"
  by (auto simp: stable_branch_id_def ContentHash_to_hex_def result_simps)

lemma add_branches_Ok:
  assumes "add_branches ops work n rest refs ms recs = Ok (ms', recs')"
    and "bound_records ops ms recs" and "fset refs = configured_reference ` set ms"
    and "\<And>b r. fmlookup recs b = Some r \<Longrightarrow> branch_state r = Queued"
  shows "bound_records ops ms' recs' \<and>
    map configured_reference ms' = map configured_reference ms @ map (member_reference \<circ> snd) rest \<and>
    (\<forall>b r. fmlookup recs' b = Some r \<longrightarrow> branch_state r = Queued)"
  using assms
proof (induction ops work n rest refs ms recs rule: add_branches.induct)
  case (2 ops work n index spec rest refs ms recs)
  let ?m = "\<lambda>b. \<lparr>configured_reference = member_reference spec, bound_target = spec_target spec,
    bound_index = index, bound_branch_id = b\<rparr>"
  let ?r = "\<lambda>b d. \<lparr>branch_id = b, dispatch_id = d, branch_index = index, target_node_id = spec_target spec,
    branch_state = Queued\<rparr>"
  from "2.prems"(1) obtain b d where ok: "validate_identifier ''join member reference'' (member_reference spec) = Ok ()"
      "validate_identifier ''branch target'' (spec_target spec) = Ok ()"
      "member_reference spec |\<notin>| refs" "\<not> 2 ^ 32 \<le> index"
      "stable_branch_id ops work (spec_target spec) index = Ok b" "stable_dispatch_id ops work b = Ok d" "b |\<notin>| fmdom recs"
    and rest: "add_branches ops work n rest (finsert (member_reference spec) refs) (ms @ [?m b]) (fmupd b (?r b d) recs) = Ok (ms', recs')"
    by (auto simp: result_simps)
  have "bound_records ops (ms @ [?m b]) (fmupd b (?r b d) recs)"
    using "2.prems"(2,3) ok stable_branch_id_Ok [OF ok(5)]
    by (auto simp: bound_records_def binding_ok_def split: if_splits)
  moreover have "fset (finsert (member_reference spec) refs) = configured_reference ` set (ms @ [?m b])"
    using "2.prems"(3) by simp
  moreover have "branch_state r = Queued" if "fmlookup (fmupd b (?r b d) recs) j = Some r" for j r
    using that "2.prems"(4) by (auto split: if_splits)
  ultimately show ?case using "2.IH" [OF _ _ _ _ _ _ _ rest] ok by (simp add: comp_def)
qed auto

lemma new_Ok:
  assumes "ParallelExecutionState_new ops work config specs variables = Ok s"
  obtains c where "config = NodeConfiguration.ParallelBranch c" "bound_records ops (member_bindings s) (branches s)"
    "map configured_reference (member_bindings s) = map member_reference specs"
    "\<And>b r. fmlookup (branches s) b = Some r \<Longrightarrow> branch_state r = Queued"
    "length specs \<le> MAX_MEMBERS" "0 < effective_limit s" "length specs - effective_limit s \<le> state_max_queue_depth s"
    "state_join_policy s = join_policy c" "effective_limit s = effective_parallelism (serialization_policy c) (parallel_max_parallelism c)"
    "state_max_queue_depth s = max_queue_depth c"
proof -
  obtain c where c: "config = NodeConfiguration.ParallelBranch c"
    using assms by (cases config) (auto simp: ParallelExecutionState_new_def)
  obtain ms recs where add: "add_branches ops work (length specs) (enumerate 0 specs) {||} [] fmempty = Ok (ms, recs)"
    and s: "s = \<lparr>parallel_work = work, state_max_parallelism = parallel_max_parallelism c,
              state_max_queue_depth = max_queue_depth c, state_join_target = join_target c,
              state_join_policy = join_policy c, state_serialization = serialization_policy c,
              branches = recs, member_bindings = ms\<rparr>"
    and bounds: "length specs \<le> MAX_MEMBERS" "0 < parallel_max_parallelism c"
      "length specs - effective_parallelism (serialization_policy c) (parallel_max_parallelism c) \<le> max_queue_depth c"
    using assms by (auto simp: c ParallelExecutionState_new_def Let_def result_simps)
  have "bound_records ops [] (fmempty :: (string, 'a ParallelBranchRecord) fmap)" by (simp add: bound_records_def)
  from add_branches_Ok [OF add this]
  have "bound_records ops ms recs \<and> map configured_reference ms = map member_reference specs \<and>
    (\<forall>b r. fmlookup recs b = Some r \<longrightarrow> branch_state r = Queued)" by (simp flip: map_map)
  then show ?thesis
    using that [OF c] bounds
    by (simp add: s effective_limit_def effective_parallelism_def)
qed

lemma bound_size: "bound_records ops ms recs \<Longrightarrow> size (mset (fmvalues recs)) = length ms"
  by (metis bound_records_def distinct_card length_map mset_fmvalues size_image_mset size_mset_set)

lemma new_records:
  assumes "ParallelExecutionState_new ops work config specs variables = Ok s"
  shows "size (records s) = length specs" and "r \<in># records s \<Longrightarrow> branch_state r = Queued"
proof -
  obtain c where "bound_records ops (member_bindings s) (branches s)"
    "map configured_reference (member_bindings s) = map member_reference specs"
    and queued: "\<And>b r. fmlookup (branches s) b = Some r \<Longrightarrow> branch_state r = Queued"
    using new_Ok [OF assms] by metis
  then show "size (records s) = length specs"
    unfolding records_def by (metis bound_size length_map)
  show "r \<in># records s \<Longrightarrow> branch_state r = Queued"
    using queued by (auto simp: records_def set_fmvalues)
qed

lemma new_in_state:
  assumes "ParallelExecutionState_new ops work config specs variables = Ok s"
  shows "in_state P s = (if P Queued then length specs else 0)"
proof -
  have "filter_mset (\<lambda>r. P (branch_state r)) (records s) = filter_mset (\<lambda>r. P Queued) (records s)"
    by (rule filter_mset_cong) (simp_all add: new_records(2) [OF assms])
  then show ?thesis using new_records(1) [OF assms] by (simp add: in_state_def)
qed

section \<open>Runs\<close>

lemma step_constant:
  assumes "applied ops s s'"
  shows "effective_limit s' = effective_limit s \<and> state_max_queue_depth s' = state_max_queue_depth s \<and>
    member_bindings s' = member_bindings s \<and> size (records s') = size (records s)"
proof -
  obtain t where "apply_transition ops t s = Ok s'" using assms by (auto simp: applied_def)
  then obtain r st expected where r: "fmlookup (branches s) (transition_branch t) = Some r"
    and "s' = set_branch (transition_branch t) r st s" by (rule apply_Ok)
  then show ?thesis using arg_cong [OF records_set_branch [OF r, of st], of size] by simp
qed

text \<open>
  C26. Parallel execution respects its capacity: from the state a fan-out starts in, along
  any run that commits dispatches only as decided, at most the configured number of
  branches is dispatched or running (one if the branches are serialized), and at most the
  configured queue depth keeps waiting once the decided dispatches are committed; no branch
  waits while there is capacity for it.
\<close>

theorem parallel_within_capacity:
  assumes "ParallelExecutionState_new ops work (NodeConfiguration.ParallelBranch c) specs variables = Ok s0"
    and "(parallel_step ops)\<^sup>*\<^sup>* s0 s"
  shows "length (filter (\<lambda>r. is_active (branch_state r)) (fmvalues (branches s))) \<le>
      effective_parallelism (serialization_policy c) (parallel_max_parallelism c) \<and>
    queued_after_dispatch (dispatch_decision s) \<le> max_queue_depth c \<and>
    (length (filter (\<lambda>r. is_active (branch_state r)) (fmvalues (branches s))) <
       effective_parallelism (serialization_policy c) (parallel_max_parallelism c) \<and>
     (\<exists>b r. fmlookup (branches s) b = Some r \<and> branch_state r = Queued) \<longrightarrow> ready (dispatch_decision s) \<noteq> [])"
proof -
  let ?e = "effective_parallelism (serialization_policy c) (parallel_max_parallelism c)"
  have init: "effective_limit s0 = ?e" "state_max_queue_depth s0 = max_queue_depth c"
      "length specs - ?e \<le> max_queue_depth c"
    using new_Ok [OF assms(1)] by (metis NodeConfiguration.inject(12))+
  have "within_capacity s \<and> effective_limit s = ?e \<and> state_max_queue_depth s = max_queue_depth c"
    using assms(2)
  proof induction
    case base
    show ?case using init new_in_state [OF assms(1)] by (auto simp: within_capacity_def)
  next
    case (step y z)
    then show ?case using within_capacity_step step_constant parallel_step_applied by metis
  qed
  moreover have "0 < queued s" if "fmlookup (branches s) b = Some r" "branch_state r = Queued" for b r
  proof -
    have "r \<in># filter_mset (\<lambda>r. branch_state r = Queued) (records s)" using that by (auto simp: records_def set_fmvalues)
    then show ?thesis unfolding in_state_def by (metis empty_iff nonempty_has_size set_mset_empty)
  qed
  ultimately show ?thesis
    using dispatch_decision_counts [of s]
    by (fastforce simp: length_filter_branches within_capacity_def simp flip: length_greater_0_conv)
qed

section \<open>Numbering of completions\<close>

definition sequences :: "'n ParallelBranchRecord multiset \<Rightarrow> nat multiset" where
  "sequences M = image_mset (\<lambda>r. unat (the (completed_sequence (branch_state r))))
     (filter_mset (\<lambda>r. completed_sequence (branch_state r) \<noteq> None) M)"

lemma mset_map_filter: "mset (List.map_filter f xs) = image_mset (\<lambda>x. the (f x)) (filter_mset (\<lambda>x. f x \<noteq> None) (mset xs))"
  by (induction xs) (auto simp: map_filter_simps split: option.splits)

lemma sequences_records:
  "mset (map unat (List.map_filter (completed_sequence \<circ> branch_state) (fmvalues (branches s)))) = sequences (records s)"
  by (simp add: sequences_def records_def mset_map_filter image_mset.compositionality comp_def)

lemma size_sequences: "size (sequences M) \<le> size M"
  by (simp add: sequences_def size_filter_mset_lesseq)

definition numbered :: "'n ParallelExecutionState \<Rightarrow> bool" where
  "numbered s \<longleftrightarrow> (\<exists>k. sequences (records s) = mset [1..<Suc k])"

lemma unat_fold_max: "unat (fold max xs a) = fold max (map unat xs) (unat (a :: u64))"
  by (induction xs arbitrary: a) (auto simp: max_def word_le_nat_alt)

lemma numbered_next:
  assumes "sequences (records s) = mset [1..<Suc k]" and "k < 2 ^ 64 - 1"
  shows "next_completion_sequence s = Ok (of_nat (k + 1))"
proof -
  let ?q = "List.map_filter (completed_sequence \<circ> branch_state) (fmvalues (branches s))"
  have "set (map unat ?q) = {1..k}"
    using assms(1) by (metis atLeastLessThanSuc_atLeastAtMost sequences_records set_mset_mset set_upt)
  moreover have "fold max (map unat ?q) 0 = Max (set (0 # map unat ?q))" by (rule Max.set_eq_fold [symmetric])
  moreover have "Max (insert 0 {1..k}) = k" by (rule Max_eqI) auto
  ultimately have "unat (fold max ?q (0 :: u64)) = k" by (simp add: unat_fold_max)
  moreover have unat: "unat (of_nat k :: u64) = k" using assms(2) by (simp add: unat_of_nat)
  ultimately have "fold max ?q (0 :: u64) = of_nat k" by (simp add: word_unat_eq_iff)
  then show ?thesis
    using assms(2) unat by (simp add: next_completion_sequence_def checked_add_u64_def)
qed

lemma numbered_step:
  assumes "applied ops s s'" and "numbered s" and "size (records s) \<le> MAX_MEMBERS"
  shows "numbered s'"
proof -
  obtain t where "apply_transition ops t s = Ok s'" using assms(1) by (auto simp: applied_def)
  then obtain r st expected where r: "fmlookup (branches s) (transition_branch t) = Some r"
    and st: "next_branch_state ops expected t (branch_state r) = Ok st"
    and counted: "is_complete t \<Longrightarrow> \<exists>q. expected = Some q \<and> next_completion_sequence s = Ok q"
    and s': "s' = set_branch (transition_branch t) r st s" by (rule apply_Ok) blast
  obtain k where k: "sequences (records s) = mset [1..<Suc k]" using assms(2) by (auto simp: numbered_def)
  have bound: "k \<le> MAX_MEMBERS"
    using size_sequences [of "records s"] assms(3) k by (metis diff_Suc_1 le_trans length_upt size_mset)
  have small: "k < 2 ^ 64 - 1" using bound by (simp add: MAX_MEMBERS_def)
  have "completed_sequence (branch_state r) = None"
    using next_branch_state_phase [OF st] by (cases "branch_state r") auto
  then have eq: "sequences (records s') = sequences (add_mset (r\<lparr>branch_state := st\<rparr>) (records s))"
    using arg_cong [OF records_set_branch [OF r, of st], of sequences] by (simp add: sequences_def s')
  show ?thesis
  proof (cases "completed_sequence st")
    case None
    then show ?thesis using eq k by (auto simp: numbered_def sequences_def)
  next
    case (Some q)
    from st have "next_completion_sequence s = Ok q"
      by (cases rule: next_branch_state_cases) (use Some counted in auto)
    then have "q = of_nat (Suc k)" using numbered_next [OF k small] by (simp del: of_nat_Suc)
    then have "unat q = Suc k" using small by (simp add: unat_of_nat del: of_nat_Suc)
    moreover have "sequences (add_mset (r\<lparr>branch_state := st\<rparr>) (records s)) = add_mset (unat q) (sequences (records s))"
      using Some by (simp add: sequences_def)
    moreover have "[1..<Suc (Suc k)] = [1..<Suc k] @ [Suc k]" by (rule upt_Suc_append) simp
    ultimately have "sequences (records s') = mset [1..<Suc (Suc k)]" by (simp only: eq k mset_append mset.simps) simp
    then show ?thesis unfolding numbered_def by blast
  qed
qed

lemma run_numbered:
  assumes "ParallelExecutionState_new ops work config specs variables = Ok s0" and "(applied ops)\<^sup>*\<^sup>* s0 s"
  shows "numbered s \<and> size (records s) = length specs"
  using assms(2)
proof induction
  case base
  have "sequences (records s0) = {#}"
    using new_records(2) [OF assms(1)] by (auto simp: sequences_def multiset_eq_iff count_eq_zero_iff)
  then show ?case using new_records(1) [OF assms(1)] by (auto simp: numbered_def intro: exI [of _ 0])
next
  case (step y z)
  have "length specs \<le> MAX_MEMBERS" using new_Ok [OF assms(1)] by metis
  then show ?case using step numbered_step step_constant by metis
qed

text \<open>
  Completions are numbered without a gap: whatever transitions are accepted from the
  initial state on, in any order, the completion sequences recorded in the branches are
  exactly 1 to the number of completed branches, each once, and the counter is never
  exhausted.
\<close>

theorem parallel_completions_numbered:
  assumes "ParallelExecutionState_new ops work config specs variables = Ok s0"
    and "(applied ops)\<^sup>*\<^sup>* s0 s"
  shows "\<exists>k \<le> length specs.
    sort (map unat (List.map_filter (completed_sequence \<circ> branch_state) (fmvalues (branches s)))) = [1..<Suc k] \<and>
    next_completion_sequence s = Ok (of_nat (k + 1))"
proof -
  obtain k where k: "sequences (records s) = mset [1..<Suc k]" and size: "size (records s) = length specs"
    using run_numbered [OF assms] by (auto simp: numbered_def)
  have le: "k \<le> length specs" using size_sequences [of "records s"] size k by (metis diff_Suc_1 length_upt size_mset)
  moreover have "length specs \<le> MAX_MEMBERS" using new_Ok [OF assms(1)] by metis
  then have "next_completion_sequence s = Ok (of_nat (k + 1))"
    using numbered_next [OF k] le by (simp add: MAX_MEMBERS_def)
  moreover have "sort (map unat (List.map_filter (completed_sequence \<circ> branch_state) (fmvalues (branches s)))) = [1..<Suc k]"
    by (rule properties_for_sort) (simp_all only: sequences_records k sorted_upt)
  ultimately show ?thesis by blast
qed

section \<open>Termination and cancellation\<close>

definition progress :: "'n ParallelExecutionState \<Rightarrow> nat" where
  "progress s = sum_mset (image_mset (\<lambda>r. phase (branch_state r)) (records s))"

lemma phase_le: "phase st \<le> 3" by (cases st) auto

lemma progress_le: "progress s \<le> 3 * size (records s)"
proof -
  have "sum_mset (image_mset (\<lambda>r. phase (branch_state r)) M) \<le> 3 * size M" for M :: "'a ParallelBranchRecord multiset"
    by (induction M) (auto simp: add_mono phase_le)
  then show ?thesis by (simp add: progress_def)
qed

lemma progress_step: "applied ops s s' \<Longrightarrow> progress s < progress s'"
proof -
  assume "applied ops s s'"
  then obtain t where "apply_transition ops t s = Ok s'" by (auto simp: applied_def)
  then obtain r st expected where r: "fmlookup (branches s) (transition_branch t) = Some r"
    and st: "next_branch_state ops expected t (branch_state r) = Ok st"
    and "s' = set_branch (transition_branch t) r st s" by (rule apply_Ok)
  then have "phase (branch_state r) + progress s' = phase st + progress s"
    using arg_cong [OF records_set_branch [OF r, of st], of "\<lambda>M. sum_mset (image_mset (\<lambda>r. phase (branch_state r)) M)"]
    by (simp add: progress_def)
  then show ?thesis using next_branch_state_phase [OF st] by simp
qed

lemma progress_run: "(applied ops ^^ n) s s' \<Longrightarrow> progress s + n \<le> progress s' \<and> size (records s') = size (records s)"
proof (induction n arbitrary: s')
  case (Suc n)
  then obtain u where "(applied ops ^^ n) s u" "applied ops u s'" by auto
  then show ?case using Suc.IH progress_step step_constant by fastforce
qed simp

text \<open>
  A fan-out ends: no sequence of accepted transitions from the initial state is longer
  than three per branch.
\<close>

theorem parallel_run_bounded:
  assumes "ParallelExecutionState_new ops work config specs variables = Ok s0"
    and "(applied ops ^^ n) s0 s"
  shows "n \<le> 3 * length specs"
proof -
  have "n \<le> progress s" "size (records s) = length specs"
    using progress_run [OF assms(2)] new_records(1) [OF assms(1)] by simp_all
  then show ?thesis using progress_le [of s] by simp
qed

primrec apply_all ::
  "'n parallel_ops \<Rightarrow> 'n ParallelBranchTransition list \<Rightarrow> 'n ParallelExecutionState \<Rightarrow> 'n ParallelExecutionState parallel" where
  "apply_all ops [] s = Ok s"
| "apply_all ops (t # ts) s = rbind (apply_transition ops t s) (apply_all ops ts)"

definition keyed :: "'n ParallelExecutionState \<Rightarrow> bool" where
  "keyed s \<longleftrightarrow> (\<forall>b r. fmlookup (branches s) b = Some r \<longrightarrow> branch_id r = b)"

lemma keyed_step: "applied ops s s' \<Longrightarrow> keyed s \<Longrightarrow> keyed s'"
  by (auto simp: applied_def keyed_def set_branch_def elim!: apply_Ok split: if_splits)

lemma keyed_run:
  assumes "ParallelExecutionState_new ops work config specs variables = Ok s0" and "(applied ops)\<^sup>*\<^sup>* s0 s"
  shows "keyed s"
  using assms(2)
proof induction
  case base
  obtain c where "bound_records ops (member_bindings s0) (branches s0)" using new_Ok [OF assms(1)] by metis
  then show ?case by (auto simp: keyed_def bound_records_def)
qed (rule keyed_step)

lemma keyed_distinct: "keyed s \<Longrightarrow> distinct (map branch_id (fmvalues (branches s)))"
proof -
  assume "keyed s"
  then have "map branch_id (fmvalues (branches s)) = map fst (sorted_list_of_fmap (branches s))"
    by (auto simp: fmvalues_def keyed_def sorted_list_of_fmap_def)
  then show ?thesis by (simp add: sorted_list_of_fmap_def comp_def sorted_list_of_fset.rep_eq)
qed

definition cancel_record :: "string \<Rightarrow> 'n ParallelBranchRecord \<Rightarrow> 'n ParallelBranchRecord" where
  "cancel_record code r = (if is_incomplete (branch_state r) then r\<lparr>branch_state := Cancelled code\<rparr> else r)"

lemma apply_cancel:
  assumes "fmlookup (branches s) (branch_id r) = Some r" "is_incomplete (branch_state r)" "validate_code code = Ok ()"
  shows "apply_transition ops (Cancel (branch_id r) (dispatch_id r) code) s =
    Ok (s\<lparr>branches := fmupd (branch_id r) (cancel_record code r) (branches s)\<rparr>)"
  using assms by (simp add: apply_transition_def is_complete_def cancel_record_def result_simps)

lemma apply_all_cancel:
  assumes "validate_code code = Ok ()" "distinct (map branch_id rs)"
    and "\<And>r. r \<in> set rs \<Longrightarrow> fmlookup (branches s) (branch_id r) = Some r \<and> is_incomplete (branch_state r)"
  shows "apply_all ops (map (\<lambda>r. Cancel (branch_id r) (dispatch_id r) code) rs) s =
    Ok (s\<lparr>branches := fold (\<lambda>r. fmupd (branch_id r) (cancel_record code r)) rs (branches s)\<rparr>)"
  using assms(2,3)
proof (induction rs arbitrary: s)
  case (Cons r rs)
  let ?s = "s\<lparr>branches := fmupd (branch_id r) (cancel_record code r) (branches s)\<rparr>"
  have "fmlookup (branches ?s) (branch_id q) = Some q \<and> is_incomplete (branch_state q)" if "q \<in> set rs" for q
    using Cons.prems that by auto
  then have "apply_all ops (map (\<lambda>r. Cancel (branch_id r) (dispatch_id r) code) rs) ?s =
    Ok (?s\<lparr>branches := fold (\<lambda>r. fmupd (branch_id r) (cancel_record code r)) rs (branches ?s)\<rparr>)"
    using Cons.prems(1) by (intro Cons.IH) auto
  then show ?case using Cons.prems(2) [of r] by (simp add: apply_cancel assms(1))
qed simp

lemma lookup_fold_upd:
  "distinct (map key rs) \<Longrightarrow> fmlookup (fold (\<lambda>r. fmupd (key r) (f r)) rs m) b =
     (case find (\<lambda>r. key r = b) rs of Some r \<Rightarrow> Some (f r) | None \<Rightarrow> fmlookup m b)"
proof (induction rs arbitrary: m)
  case (Cons r rs)
  moreover have "find (\<lambda>q. key q = key r) rs = None"
    using Cons.prems unfolding find_None_iff by (metis distinct.simps(2) image_eqI list.map(2) list.set_map)
  ultimately show ?case by (auto split: option.split)
qed simp

text \<open>
  C27. Cancellation is total: at any moment of a run, the cancellation transitions the
  state asks for are all accepted, one after the other, and turn exactly the incomplete
  branches into cancelled ones, leaving every other branch as it was.
\<close>

theorem parallel_cancellation:
  assumes "ParallelExecutionState_new ops work config specs variables = Ok s0"
    and "(applied ops)\<^sup>*\<^sup>* s0 s" and "cancellation_transitions code s = Ok ts"
  shows "apply_all ops ts s = Ok (s\<lparr>branches := fmmap (cancel_record code) (branches s)\<rparr>)"
proof -
  let ?rs = "filter (\<lambda>r. is_incomplete (branch_state r)) (ordered_branches s)"
  have code: "validate_code code = Ok ()" and ts: "ts = map (\<lambda>r. Cancel (branch_id r) (dispatch_id r) code) ?rs"
    using assms(3) by (auto simp: cancellation_transitions_def result_simps)
  have keyed: "keyed s" by (rule keyed_run [OF assms(1,2)])
  then have member: "r \<in> set (ordered_branches s) \<longleftrightarrow> fmlookup (branches s) (branch_id r) = Some r" for r
    by (auto simp: ordered_branches_def set_fmvalues keyed_def)
  have "distinct (map branch_id (ordered_branches s))"
    using keyed_distinct [OF keyed] by (simp add: ordered_branches_def distinct_map)
  then have distinct: "distinct (map branch_id ?rs)" by (rule distinct_map_filter)
  have "fmlookup (fold (\<lambda>r. fmupd (branch_id r) (cancel_record code r)) ?rs (branches s)) b =
      fmlookup (fmmap (cancel_record code) (branches s)) b" for b
  proof (cases "find (\<lambda>r. branch_id r = b) ?rs")
    case None
    have "\<not> is_incomplete (branch_state r)" if r: "fmlookup (branches s) b = Some r" for r
    proof -
      have "branch_id r = b" using r keyed by (simp add: keyed_def)
      moreover from this have "r \<in> set (ordered_branches s)" using r by (simp add: member)
      ultimately show ?thesis using None by (auto simp: find_None_iff)
    qed
    then show ?thesis using None by (cases "fmlookup (branches s) b") (auto simp: lookup_fold_upd [OF distinct] cancel_record_def)
  next
    case (Some r)
    have "branch_id r = b" "r \<in> set ?rs" using Some by (metis (mono_tags) find_Some_iff nth_mem)+
    then show ?thesis using Some member by (auto simp: lookup_fold_upd [OF distinct])
  qed
  then have "fold (\<lambda>r. fmupd (branch_id r) (cancel_record code r)) ?rs (branches s) = fmmap (cancel_record code) (branches s)"
    by (rule fmap_ext)
  moreover have "apply_all ops ts s = Ok (s\<lparr>branches := fold (\<lambda>r. fmupd (branch_id r) (cancel_record code r)) ?rs (branches s)\<rparr>)"
    unfolding ts by (rule apply_all_cancel [OF code distinct]) (simp add: member)
  ultimately show ?thesis by simp
qed

end
