(* ===== verification/Parallel_Join.thy ===== *)
theory Parallel_Join
  imports Parallel_Correct
begin

text \<open>
  \<^verbatim>\<open>apps/runtime/logic/src/parallel_execution.rs\<close>, second part: the join of a fan-out. Member
  states are projected from the branches, keyed by the references of the graph, and the
  join is decided from them alone.
\<close>

section \<open>Data\<close>

datatype 'n JoinMemberState =
    Pending
  | Completed u64 "'n JoinMemberResult"
  | Failed string
  | Cancelled string

record 'n ProjectedJoinMember =
  projected_member :: string
  projected_inline_value :: "'n json option"
  projected_node_result :: "string option"
  projected_artifacts :: "string list"

record 'n JoinReadyDescriptor =
  ready_results :: "'n ProjectedJoinMember list"
  ready_success_count :: nat
  ready_failed_members :: "string list"
  ready_cancelled_members :: "string list"
  ready_missing_members :: "string list"
  ready_cancellation_targets :: "string list"

datatype JoinTerminalReason =
    RequiredMemberFailed
  | SuccessThresholdImpossible
  | RequiredMembersInsufficient
  | TimedOut

record JoinFailureDescriptor =
  failure_reason :: JoinTerminalReason
  failure_success_count :: nat
  failed_members :: "string list"
  cancelled_members :: "string list"
  missing_members :: "string list"
  cancellation_targets :: "string list"

datatype 'n JoinDecision =
    Waiting "string list" nat
  | Ready "'n JoinReadyDescriptor"
  | JoinFailed JoinFailureDescriptor

record JoinSnapshot =
  successful :: "string fset"
  snapshot_failed :: "string list"
  snapshot_cancelled :: "string list"
  snapshot_missing :: "string list"
  required_failed :: bool
  required_terminal :: bool

section \<open>Projection and binding\<close>

fun member_state :: "'n ParallelBranchState \<Rightarrow> 'n JoinMemberState" where
  "member_state (ParallelBranchState.Completed q result) = Completed q result"
| "member_state (ParallelBranchState.Failed code) = Failed code"
| "member_state (ParallelBranchState.Cancelled code) = Cancelled code"
| "member_state _ = Pending"

definition join_members :: "'n ParallelExecutionState \<Rightarrow> (string, 'n JoinMemberState) fmap" where
  "join_members s = fold (\<lambda>r. fmupd (branch_id r) (member_state (branch_state r))) (fmvalues (branches s)) fmempty"

fun validate_member_state :: "'n parallel_ops \<Rightarrow> 'n JoinMemberState \<Rightarrow> unit parallel" where
  "validate_member_state ops Pending = Ok ()"
| "validate_member_state ops (Completed q result) =
     rbind (fail_if (q = 0) (InvalidCompletionSequence 1 0)) (\<lambda>_. validate_member_result ops result)"
| "validate_member_state ops (Failed code) = validate_code code"
| "validate_member_state ops (Cancelled code) = validate_code code"

fun bind_loop ::
  "'n parallel_ops \<Rightarrow> (string, 'n JoinMemberState) fmap \<Rightarrow> ParallelMemberBinding list \<Rightarrow> string fset \<Rightarrow> string fset \<Rightarrow>
   (string, 'n JoinMemberState) fmap \<Rightarrow> (string fset \<times> (string, 'n JoinMemberState) fmap) parallel" where
  "bind_loop ops members [] references ids bound = Ok (ids, bound)"
| "bind_loop ops members (m # ms) references ids bound =
     rbind (validate_identifier ''join member reference'' (configured_reference m)) (\<lambda>_.
     rbind (validate_identifier ''branch id'' (bound_branch_id m)) (\<lambda>_.
     rbind (validate_identifier ''branch target'' (bound_target m)) (\<lambda>_.
     rbind (fail_if (configured_reference m |\<in>| references) (DuplicateConfiguredReference (configured_reference m))) (\<lambda>_.
     rbind (fail_if (bound_branch_id m |\<in>| ids) (DuplicateBoundBranch (bound_branch_id m))) (\<lambda>_.
     rbind (ok_or (MissingBoundBranch (bound_branch_id m)) (fmlookup members (bound_branch_id m))) (\<lambda>state.
     rbind (validate_member_state ops state) (\<lambda>_.
     bind_loop ops members ms (finsert (configured_reference m) references) (finsert (bound_branch_id m) ids)
       (fmupd (configured_reference m) state bound))))))))"

definition bind_parallel_join_members ::
  "'n parallel_ops \<Rightarrow> ParallelMemberBinding list \<Rightarrow> (string, 'n JoinMemberState) fmap \<Rightarrow>
   (string, 'n JoinMemberState) fmap parallel" where
  "bind_parallel_join_members ops bindings members =
     rbind (fail_if (bindings = [] \<or> MAX_MEMBERS < length bindings) (InvalidMemberCount (length bindings))) (\<lambda>_.
     rbind (bind_loop ops members bindings {||} {||} fmempty) (\<lambda>(ids, bound).
     rbind (fail_if (\<not> fmdom members |\<subseteq>| ids) UnexpectedBoundBranch) (\<lambda>_.
     Ok bound)))"

definition bound_join_members ::
  "'n parallel_ops \<Rightarrow> 'n ParallelExecutionState \<Rightarrow> (string, 'n JoinMemberState) fmap parallel" where
  "bound_join_members ops s = bind_parallel_join_members ops (member_bindings s) (join_members s)"

section \<open>Evaluation\<close>

definition validate_join_configuration :: "string fset \<Rightarrow> string fset \<Rightarrow> nat \<Rightarrow> unit parallel" where
  "validate_join_configuration required optional minimum =
     (let member_count = saturating_add_usize (fcard required) (fcard optional) in
     rbind (fail_if (member_count = 0 \<or> MAX_MEMBERS < member_count \<or> required |\<inter>| optional \<noteq> {||} \<or>
         minimum = 0 \<or> member_count < minimum) InvalidJoinConfiguration) (\<lambda>_.
     check_all (validate_identifier ''join member'') (sorted_list_of_fset required @ sorted_list_of_fset optional)))"

fun is_completed :: "'n JoinMemberState option \<Rightarrow> bool" where
  "is_completed (Some (Completed _ _)) = True"
| "is_completed _ = False"

fun is_failed :: "'n JoinMemberState option \<Rightarrow> bool" where
  "is_failed (Some (Failed _)) = True"
| "is_failed _ = False"

fun is_cancelled :: "'n JoinMemberState option \<Rightarrow> bool" where
  "is_cancelled (Some (Cancelled _)) = True"
| "is_cancelled _ = False"

definition is_missing :: "'n JoinMemberState option \<Rightarrow> bool" where
  "is_missing st \<longleftrightarrow> st = None \<or> st = Some Pending"

definition build_join_snapshot ::
  "'n parallel_ops \<Rightarrow> string fset \<Rightarrow> string fset \<Rightarrow> nat \<Rightarrow> (string, 'n JoinMemberState) fmap \<Rightarrow> JoinSnapshot parallel" where
  "build_join_snapshot ops required optional minimum members =
     rbind (validate_join_configuration required optional minimum) (\<lambda>_.
     let configured = required |\<union>| optional; order = sorted_list_of_fset configured in
     rbind (check_all (\<lambda>(member, state).
         rbind (validate_identifier ''join member'' member) (\<lambda>_.
         rbind (validate_member_state ops state) (\<lambda>_.
         fail_if (member |\<notin>| configured) (UnexpectedJoinMember member)))) (sorted_list_of_fmap members)) (\<lambda>_.
     Ok \<lparr>successful = ffilter (\<lambda>m. is_completed (fmlookup members m)) configured,
         snapshot_failed = filter (\<lambda>m. is_failed (fmlookup members m)) order,
         snapshot_cancelled = filter (\<lambda>m. is_cancelled (fmlookup members m)) order,
         snapshot_missing = filter (\<lambda>m. is_missing (fmlookup members m)) order,
         required_failed = list_ex (\<lambda>m. is_failed (fmlookup members m) \<or> is_cancelled (fmlookup members m))
           (sorted_list_of_fset required),
         required_terminal = list_all (\<lambda>m. \<not> is_missing (fmlookup members m)) (sorted_list_of_fset required)\<rparr>))"

definition completed_member ::
  "(string, 'n JoinMemberState) fmap \<Rightarrow> string \<Rightarrow> (string \<times> u64 \<times> 'n JoinMemberResult) option" where
  "completed_member members m =
     (case fmlookup members m of Some (Completed q result) \<Rightarrow> Some (m, q, result) | _ \<Rightarrow> None)"

definition project_member ::
  "JoinResultProjection \<Rightarrow> JoinArtifactCollection \<Rightarrow> string \<times> u64 \<times> 'n JoinMemberResult \<Rightarrow>
   'n ProjectedJoinMember parallel" where
  "project_member projection collection = (\<lambda>(m, q, result).
     rbind (case projection of
         Inline \<Rightarrow> rbind (ok_or (MissingProjectedResult m ''inline'') (inline_value result)) (\<lambda>v. Ok (Some v, None))
       | NodeReferences \<Rightarrow>
           rbind (ok_or (MissingProjectedResult m ''node_references'') (node_result_reference result)) (\<lambda>r. Ok (None, Some r))
       | ArtifactReferences \<Rightarrow> Ok (None, None)) (\<lambda>(inline, reference).
     Ok \<lparr>projected_member = m, projected_inline_value = inline, projected_node_result = reference,
         projected_artifacts = (case collection of
             CollectNone \<Rightarrow> []
           | CollectDeclared \<Rightarrow> sorted_list_of_fset (declared_artifact_references result)
           | CollectAll \<Rightarrow> sorted_list_of_fset (artifact_references result))\<rparr>))"

definition ordered_members ::
  "JoinOrderingPolicy \<Rightarrow> (string \<times> u64 \<times> 'n JoinMemberResult) list \<Rightarrow> (string \<times> u64 \<times> 'n JoinMemberResult) list" where
  "ordered_members order_policy completed =
     (case order_policy of
        MemberId \<Rightarrow> sort_key (\<lambda>(m, q, result). m) completed
      | CompletionSequence \<Rightarrow> sort_key (\<lambda>(m, q, result). (q, m)) completed)"

definition project_results ::
  "string fset \<Rightarrow> (string, 'n JoinMemberState) fmap \<Rightarrow> JoinOrderingPolicy \<Rightarrow> JoinResultProjection \<Rightarrow>
   JoinArtifactCollection \<Rightarrow> 'n ProjectedJoinMember list parallel" where
  "project_results success members order_policy projection collection =
     try_map (project_member projection collection)
       (ordered_members order_policy (List.map_filter (completed_member members) (sorted_list_of_fset success)))"

definition failure_descriptor ::
  "JoinTerminalReason \<Rightarrow> nat \<Rightarrow> string list \<Rightarrow> string list \<Rightarrow> string list \<Rightarrow> bool \<Rightarrow> JoinFailureDescriptor" where
  "failure_descriptor reason success_count failed cancelled missing propagates =
     \<lparr>failure_reason = reason, failure_success_count = success_count, failed_members = failed,
      cancelled_members = cancelled, missing_members = missing,
      cancellation_targets = (if propagates then missing else [])\<rparr>"

definition terminal_reason ::
  "JoinFailurePolicy \<Rightarrow> nat \<Rightarrow> JoinSnapshot \<Rightarrow> JoinTerminalReason option" where
  "terminal_reason policy threshold snap =
     (let success = fcard (successful snap);
          possible = saturating_add_usize success (length (snapshot_missing snap))
      in
      if policy = FailFast \<and> required_failed snap then Some RequiredMemberFailed
      else if (policy = FailFast \<or> policy = MinimumSuccess) \<and> possible < threshold then Some SuccessThresholdImpossible
      else if policy = WaitRequired \<and> required_terminal snap \<and> success < threshold then Some RequiredMembersInsufficient
      else None)"

definition join_is_ready :: "JoinFailurePolicy \<Rightarrow> nat \<Rightarrow> JoinSnapshot \<Rightarrow> bool" where
  "join_is_ready policy threshold snap =
     (case policy of
        MinimumSuccess \<Rightarrow> threshold \<le> fcard (successful snap)
      | _ \<Rightarrow> required_terminal snap \<and> threshold \<le> fcard (successful snap))"

definition evaluate_join ::
  "'n parallel_ops \<Rightarrow> 'n NodeConfiguration \<Rightarrow> (string, 'n JoinMemberState) fmap \<Rightarrow> bool \<Rightarrow> 'n JoinDecision parallel" where
  "evaluate_join ops config members timeout_elapsed =
     (case config of
        NodeConfiguration.JoinResults c \<Rightarrow>
          rbind (build_join_snapshot ops (join_required c) (join_optional c) (join_minimum_successes c) members) (\<lambda>snap.
          let success_count = min (fcard (successful snap)) (2 ^ 32 - 1);
              failed = snapshot_failed snap; cancelled = snapshot_cancelled snap; missing = snapshot_missing snap;
              policy = join_failure_policy c; threshold = join_minimum_successes c;
              propagates = cancellation_propagates c
          in
          case terminal_reason policy threshold snap of
            Some reason \<Rightarrow> Ok (JoinFailed (failure_descriptor reason success_count failed cancelled missing propagates))
          | None \<Rightarrow>
              if join_is_ready policy threshold snap
              then rbind (project_results (successful snap) members (join_ordering_policy c) (result_projection c)
                     (artifact_collection c)) (\<lambda>results.
                   Ok (Ready \<lparr>ready_results = results, ready_success_count = success_count, ready_failed_members = failed,
                     ready_cancelled_members = cancelled, ready_missing_members = missing,
                     ready_cancellation_targets = (if propagates then missing else [])\<rparr>))
              else if timeout_elapsed
              then Ok (JoinFailed (failure_descriptor TimedOut success_count failed cancelled missing propagates))
              else Ok (Waiting missing success_count))
      | _ \<Rightarrow> Err (WrongConfiguration ''join_results''))"

definition bound_policy_mismatch ::
  "ParallelConfiguration \<Rightarrow> JoinConfiguration \<Rightarrow> string fset \<Rightarrow> bool" where
  "bound_policy_mismatch c j references \<longleftrightarrow>
     (join_policy c = RequireAll \<and>
       (join_optional j \<noteq> {||} \<or> join_required j \<noteq> references \<or> join_minimum_successes j \<noteq> fcard references)) \<or>
     (join_policy c = RequireMinimum \<and> join_failure_policy j \<noteq> MinimumSuccess)"

definition evaluate_bound_parallel_join ::
  "'n parallel_ops \<Rightarrow> 'n NodeConfiguration \<Rightarrow> 'n NodeConfiguration \<Rightarrow> ParallelMemberBinding list \<Rightarrow>
   (string, 'n JoinMemberState) fmap \<Rightarrow> bool \<Rightarrow> 'n JoinDecision parallel" where
  "evaluate_bound_parallel_join ops parallel_config join_config bindings members timeout_elapsed =
     rbind (bind_parallel_join_members ops bindings members) (\<lambda>bound.
     case parallel_config of
       NodeConfiguration.ParallelBranch c \<Rightarrow>
         (case join_config of
            NodeConfiguration.JoinResults j \<Rightarrow>
              rbind (fail_if (join_required j |\<union>| join_optional j \<noteq> fmdom bound) JoinBindingSetMismatch) (\<lambda>_.
              rbind (fail_if (bound_policy_mismatch c j (fmdom bound)) ParallelJoinPolicyMismatch) (\<lambda>_.
              evaluate_join ops join_config bound timeout_elapsed))
          | _ \<Rightarrow> Err (WrongConfiguration ''join_results''))
     | _ \<Rightarrow> Err (WrongConfiguration ''parallel_branch''))"

section \<open>What a decision means\<close>

text \<open>
  The contract of a join: the members it needs have completed. \<open>extends\<close> is the order in
  which members develop: a missing member may become anything, a terminal one stays.
\<close>

definition completed_of :: "JoinConfiguration \<Rightarrow> (string, 'n JoinMemberState) fmap \<Rightarrow> string set" where
  "completed_of c members = {m \<in> fset (join_required c |\<union>| join_optional c). is_completed (fmlookup members m)}"

definition satisfied :: "JoinConfiguration \<Rightarrow> (string, 'n JoinMemberState) fmap \<Rightarrow> bool" where
  "satisfied c members \<longleftrightarrow>
     join_minimum_successes c \<le> card (completed_of c members) \<and>
     (case join_failure_policy c of
        FailFast \<Rightarrow> fset (join_required c) \<subseteq> completed_of c members
      | WaitRequired \<Rightarrow> (\<forall>m. m |\<in>| join_required c \<longrightarrow> \<not> is_missing (fmlookup members m))
      | MinimumSuccess \<Rightarrow> True)"

definition extends ::
  "(string, 'n JoinMemberState) fmap \<Rightarrow> (string, 'n JoinMemberState) fmap \<Rightarrow> bool" where
  "extends members later \<longleftrightarrow>
     (\<forall>m. \<not> is_missing (fmlookup members m) \<longrightarrow> fmlookup later m = fmlookup members m)"

fun is_ready :: "'n JoinDecision \<Rightarrow> bool" where
  "is_ready (Ready _) = True"
| "is_ready _ = False"

fun is_join_failed :: "'n JoinDecision \<Rightarrow> bool" where
  "is_join_failed (JoinFailed _) = True"
| "is_join_failed _ = False"



definition missing_of :: "JoinConfiguration \<Rightarrow> (string, 'n JoinMemberState) fmap \<Rightarrow> string set" where
  "missing_of c members = {m \<in> fset (join_required c |\<union>| join_optional c). is_missing (fmlookup members m)}"

definition feasible_join :: "JoinConfiguration \<Rightarrow> bool" where
  "feasible_join c \<longleftrightarrow>
     join_required c |\<inter>| join_optional c = {||} \<and> 0 < join_minimum_successes c \<and>
     join_minimum_successes c \<le> fcard (join_required c) + fcard (join_optional c) \<and>
     fcard (join_required c) + fcard (join_optional c) \<le> MAX_MEMBERS"

lemma length_filter_fset: "length (filter P (sorted_list_of_fset X)) = card {x \<in> fset X. P x}"
proof -
  have "distinct (filter P (sorted_list_of_fset X))" by (simp add: sorted_list_of_fset.rep_eq)
  then have "card (set (filter P (sorted_list_of_fset X))) = length (filter P (sorted_list_of_fset X))"
    by (rule distinct_card)
  then show ?thesis by simp
qed

lemma snapshot_Ok:
  assumes "build_join_snapshot ops (join_required c) (join_optional c) (join_minimum_successes c) members = Ok snap"
  shows "feasible_join c" "fset (successful snap) = completed_of c members"
    "length (snapshot_missing snap) = card (missing_of c members)"
    "required_failed snap \<longleftrightarrow> (\<exists>m. m |\<in>| join_required c \<and>
       (is_failed (fmlookup members m) \<or> is_cancelled (fmlookup members m)))"
    "required_terminal snap \<longleftrightarrow> (\<forall>m. m |\<in>| join_required c \<longrightarrow> \<not> is_missing (fmlookup members m))"
  using assms
  by (auto simp: build_join_snapshot_def validate_join_configuration_def feasible_join_def Let_def result_simps
      completed_of_def missing_of_def length_filter_fset list_ex_iff list_all_iff saturating_add_usize_def
      MAX_MEMBERS_def usize_max_def min_def split: if_splits)

lemma member_cases:
  "is_missing st \<or> is_completed st \<or> is_failed st \<or> is_cancelled st"
  "\<not> (is_completed st \<and> is_missing st)" "\<not> (is_completed st \<and> is_failed st)" "\<not> (is_completed st \<and> is_cancelled st)"
  "\<not> (is_missing st \<and> is_failed st)" "\<not> (is_missing st \<and> is_cancelled st)"
  by (cases st; (cases "the st")?; simp add: is_missing_def)+

lemma member_completed: "is_completed st \<longleftrightarrow> \<not> is_missing st \<and> \<not> is_failed st \<and> \<not> is_cancelled st"
  using member_cases [of st] by blast

lemma possible_bound:
  assumes "feasible_join c"
  shows "card (completed_of c members) + card (missing_of c members) \<le> MAX_MEMBERS"
    and "card (completed_of c members) + card (missing_of c members) = card (completed_of c members \<union> missing_of c members)"
proof -
  have "completed_of c members \<inter> missing_of c members = {}"
    using member_cases(2) by (auto simp: completed_of_def missing_of_def)
  then show eq: "card (completed_of c members) + card (missing_of c members) = card (completed_of c members \<union> missing_of c members)"
    by (subst card_Un_disjoint) (auto simp: completed_of_def missing_of_def)
  have "card (completed_of c members \<union> missing_of c members) \<le> card (fset (join_required c |\<union>| join_optional c))"
    by (rule card_mono) (auto simp: completed_of_def missing_of_def)
  also have "\<dots> \<le> fcard (join_required c) + fcard (join_optional c)"
    using card_Un_le [of "fset (join_required c)" "fset (join_optional c)"] by (simp add: fcard.rep_eq)
  finally show "card (completed_of c members) + card (missing_of c members) \<le> MAX_MEMBERS"
    using assms unfolding eq feasible_join_def by linarith
qed

definition complete_missing ::
  "JoinConfiguration \<Rightarrow> (string, 'n JoinMemberState) fmap \<Rightarrow> (string, 'n JoinMemberState) fmap" where
  "complete_missing c members = fold (\<lambda>m. fmupd m (Completed 1 \<lparr>inline_value = None, node_result_reference = None,
       artifact_references = {||}, declared_artifact_references = {||}\<rparr>))
     (filter (\<lambda>m. is_missing (fmlookup members m)) (sorted_list_of_fset (join_required c |\<union>| join_optional c))) members"

lemma lookup_fold_const: "fmlookup (fold (\<lambda>m. fmupd m x) ms f) k = (if k \<in> set ms then Some x else fmlookup f k)"
  by (induction ms arbitrary: f) auto

lemma complete_missing:
  "extends members (complete_missing c members)"
  "completed_of c (complete_missing c members) = completed_of c members \<union> missing_of c members"
  by (auto simp: extends_def complete_missing_def completed_of_def missing_of_def lookup_fold_const)

text \<open>A terminal reason is given exactly when no development of the members satisfies the join.\<close>

definition hopeless :: "JoinConfiguration \<Rightarrow> (string, 'n JoinMemberState) fmap \<Rightarrow> bool" where
  "hopeless c members \<longleftrightarrow> (\<forall>later. extends members later \<longrightarrow> \<not> satisfied c later)"

lemma completed_later:
  assumes "extends members later"
  shows "completed_of c later \<subseteq> completed_of c members \<union> missing_of c members"
  using assms by (auto simp: completed_of_def missing_of_def extends_def)

lemma terminal_reason_hopeless:
  assumes snap: "build_join_snapshot ops (join_required c) (join_optional c) (join_minimum_successes c) members = Ok snap"
    and policy: "join_failure_policy c \<noteq> WaitRequired"
  shows "terminal_reason (join_failure_policy c) (join_minimum_successes c) snap \<noteq> None \<longleftrightarrow> hopeless c members"
proof -
  note [simp] = snapshot_Ok [OF snap]
  let ?C = "completed_of c members" and ?M = "missing_of c members"
  have success: "fcard (successful snap) = card ?C" by (simp add: fcard.rep_eq)
  have possible: "saturating_add_usize (card ?C) (card ?M) = card (?C \<union> ?M)"
    using possible_bound [of c members] by (simp add: saturating_add_usize_def MAX_MEMBERS_def usize_max_def)
  have finite: "finite (?C \<union> ?M)" by (simp add: completed_of_def missing_of_def)
  have reason: "terminal_reason (join_failure_policy c) (join_minimum_successes c) snap \<noteq> None \<longleftrightarrow>
      (join_failure_policy c = FailFast \<and> required_failed snap) \<or> card (?C \<union> ?M) < join_minimum_successes c"
    using policy by (cases "join_failure_policy c") (auto simp: terminal_reason_def Let_def success possible)
  show ?thesis
  proof
    assume "terminal_reason (join_failure_policy c) (join_minimum_successes c) snap \<noteq> None"
    then consider (failed) "join_failure_policy c = FailFast" "required_failed snap"
      | (few) "card (?C \<union> ?M) < join_minimum_successes c" unfolding reason by blast
    then show "hopeless c members"
    proof cases
      case failed
      then obtain m where m: "m |\<in>| join_required c" "is_failed (fmlookup members m) \<or> is_cancelled (fmlookup members m)"
        by auto
      have "m \<notin> completed_of c later" if "extends members later" for later
        using m(2) that member_cases [of "fmlookup members m"] by (auto simp: extends_def completed_of_def)
      then show ?thesis using m(1) failed(1) by (auto simp: hopeless_def satisfied_def)
    next
      case few
      have "card (completed_of c later) \<le> card (?C \<union> ?M)" if "extends members later" for later
        by (rule card_mono [OF finite completed_later [OF that]])
      then show ?thesis using few by (fastforce simp: hopeless_def satisfied_def)
    qed
  next
    assume hopeless: "hopeless c members"
    show "terminal_reason (join_failure_policy c) (join_minimum_successes c) snap \<noteq> None"
    proof (rule ccontr)
      assume "\<not> ?thesis"
      then have none: "join_failure_policy c = FailFast \<longrightarrow> \<not> required_failed snap"
        "join_minimum_successes c \<le> card (?C \<union> ?M)" unfolding reason by auto
      have "m \<in> ?C \<union> ?M" if "m |\<in>| join_required c" "join_failure_policy c = FailFast" for m
        using that none(1) member_cases(1) [of "fmlookup members m"] by (auto simp: completed_of_def missing_of_def)
      then have "satisfied c (complete_missing c members)"
        using none(2) policy unfolding satisfied_def complete_missing(2) by (auto split: JoinFailurePolicy.split)
      then show False using hopeless complete_missing(1) unfolding hopeless_def by blast
    qed
  qed
qed

lemma ready_satisfied:
  assumes snap: "build_join_snapshot ops (join_required c) (join_optional c) (join_minimum_successes c) members = Ok snap"
  shows "terminal_reason (join_failure_policy c) (join_minimum_successes c) snap = None \<and>
      join_is_ready (join_failure_policy c) (join_minimum_successes c) snap \<longleftrightarrow> satisfied c members"
proof -
  note [simp] = snapshot_Ok [OF snap]
  have success: "fcard (successful snap) = card (completed_of c members)" by (simp add: fcard.rep_eq)
  have possible: "card (completed_of c members) \<le> saturating_add_usize (card (completed_of c members)) k" for k
    using possible_bound [of c members] by (simp add: saturating_add_usize_def MAX_MEMBERS_def usize_max_def)
  have required: "fset (join_required c) \<subseteq> completed_of c members \<longleftrightarrow> required_terminal snap \<and> \<not> required_failed snap"
  proof -
    have "fset (join_required c) \<subseteq> completed_of c members \<longleftrightarrow> (\<forall>m. m |\<in>| join_required c \<longrightarrow> is_completed (fmlookup members m))"
      by (auto simp: completed_of_def)
    then show ?thesis by (simp add: member_completed) blast
  qed
  show ?thesis
    using possible [of "card (missing_of c members)"] required
    by (cases "join_failure_policy c")
      (auto simp: terminal_reason_def join_is_ready_def satisfied_def Let_def success)
qed

lemma evaluate_join_Ok:
  assumes "evaluate_join ops (NodeConfiguration.JoinResults c) members timeout = Ok dec"
  obtains snap where
    "build_join_snapshot ops (join_required c) (join_optional c) (join_minimum_successes c) members = Ok snap"
    "is_ready dec \<longleftrightarrow> satisfied c members"
    "is_join_failed dec \<longleftrightarrow> \<not> satisfied c members \<and>
       (terminal_reason (join_failure_policy c) (join_minimum_successes c) snap \<noteq> None \<or> timeout)"
proof -
  obtain snap where snap: "build_join_snapshot ops (join_required c) (join_optional c) (join_minimum_successes c) members = Ok snap"
    using assms by (auto simp: evaluate_join_def result_simps)
  show ?thesis
    using that [OF snap] assms ready_satisfied [OF snap]
    by (auto simp: evaluate_join_def Let_def result_simps snap split: option.splits if_splits)
qed


text \<open>
  C28. A join decides as early and as late as it should: it is ready exactly when its
  members satisfy the configured policy; before its timeout it has failed, unless the
  policy is to wait for the required members, exactly when no way the missing members may
  still develop satisfies the policy; and once every member is terminal it has decided.
\<close>

theorem join_decides:
  assumes "evaluate_join ops (NodeConfiguration.JoinResults c) members timeout = Ok dec"
  shows "(is_ready dec \<longleftrightarrow> satisfied c members) \<and>
    (\<not> timeout \<and> join_failure_policy c \<noteq> WaitRequired \<longrightarrow> (is_join_failed dec \<longleftrightarrow> hopeless c members)) \<and>
    (missing_of c members = {} \<longrightarrow> is_ready dec \<or> is_join_failed dec)"
proof -
  obtain snap where snap: "build_join_snapshot ops (join_required c) (join_optional c) (join_minimum_successes c) members = Ok snap"
    and ready: "is_ready dec \<longleftrightarrow> satisfied c members"
    and failed: "is_join_failed dec \<longleftrightarrow> \<not> satisfied c members \<and>
       (terminal_reason (join_failure_policy c) (join_minimum_successes c) snap \<noteq> None \<or> timeout)"
    by (rule evaluate_join_Ok [OF assms])
  have refl: "extends members members" by (simp add: extends_def)
  have early: "is_join_failed dec \<longleftrightarrow> hopeless c members" if "\<not> timeout" "join_failure_policy c \<noteq> WaitRequired"
    using failed terminal_reason_hopeless [OF snap that(2)] that(1) refl by (auto simp: hopeless_def)
  have "is_ready dec \<or> is_join_failed dec" if "missing_of c members = {}"
  proof (cases "join_failure_policy c = WaitRequired")
    case True
    have "required_terminal snap"
      using that snapshot_Ok(5) [OF snap] by (auto simp: missing_of_def)
    then have "satisfied c members \<or> terminal_reason (join_failure_policy c) (join_minimum_successes c) snap \<noteq> None"
      using True ready_satisfied [OF snap] by (auto simp: terminal_reason_def join_is_ready_def)
    then show ?thesis using ready failed by blast
  next
    case False
    have "satisfied c later \<longrightarrow> satisfied c members" if "extends members later" for later
    proof -
      have "fmlookup later m = fmlookup members m" if "m |\<in>| join_required c |\<union>| join_optional c" for m
        using that \<open>extends members later\<close> \<open>missing_of c members = {}\<close> by (auto simp: extends_def missing_of_def)
      then have "completed_of c later = completed_of c members" by (auto simp: completed_of_def)
      then show ?thesis using False by (auto simp: satisfied_def split: JoinFailurePolicy.splits)
    qed
    then have "satisfied c members \<or> hopeless c members" by (auto simp: hopeless_def)
    then show ?thesis using ready failed terminal_reason_hopeless [OF snap False] by blast
  qed
  then show ?thesis using ready early by blast
qed


section \<open>Order of the results\<close>

definition sequence_of :: "(string, 'n JoinMemberState) fmap \<Rightarrow> string \<Rightarrow> u64" where
  "sequence_of members m = (case fmlookup members m of Some (Completed q _) \<Rightarrow> q | _ \<Rightarrow> 0)"

lemma project_member_Ok: "project_member projection collection x = Ok p \<Longrightarrow> projected_member p = fst x"
  by (cases x) (auto simp: project_member_def result_simps split: JoinResultProjection.splits)

lemma completed_member_Some:
  "is_completed (fmlookup members m) \<Longrightarrow> \<exists>result. completed_member members m = Some (m, sequence_of members m, result)"
  by (cases "fmlookup members m"; cases "the (fmlookup members m)") (auto simp: completed_member_def sequence_of_def)

lemma completed_members:
  assumes "\<And>m. m \<in> set ms \<Longrightarrow> is_completed (fmlookup members m)"
  shows "map fst (List.map_filter (completed_member members) ms) = ms \<and>
    (\<forall>x \<in> set (List.map_filter (completed_member members) ms). fst (snd x) = sequence_of members (fst x))"
  using assms
proof (induction ms)
  case (Cons m ms)
  then obtain result where "completed_member members m = Some (m, sequence_of members m, result)"
    using completed_member_Some by (metis list.set_intros(1))
  then show ?case using Cons by (simp add: map_filter_simps)
qed (simp add: map_filter_simps)

lemma project_results_Ok:
  assumes "project_results success members order_policy projection collection = Ok ps"
    and "\<And>m. m |\<in>| success \<Longrightarrow> is_completed (fmlookup members m)"
  shows "mset (map projected_member ps) = mset (sorted_list_of_fset success)"
    "case order_policy of MemberId \<Rightarrow> sorted (map projected_member ps)
      | CompletionSequence \<Rightarrow> sorted (map (\<lambda>p. sequence_of members (projected_member p)) ps)"
proof -
  let ?cs = "List.map_filter (completed_member members) (sorted_list_of_fset success)"
  have all: "list_all2 (\<lambda>x p. project_member projection collection x = Ok p) (ordered_members order_policy ?cs) ps"
    using assms(1) by (simp add: project_results_def try_map_eq_Ok)
  then have ps: "map projected_member ps = map fst (ordered_members order_policy ?cs)"
    by (induction rule: list_all2_induct) (auto dest: project_member_Ok)
  have cs: "map fst ?cs = sorted_list_of_fset success"
    "\<forall>x \<in> set ?cs. fst (snd x) = sequence_of members (fst x)"
    using completed_members [of "sorted_list_of_fset success" members] assms(2) by simp_all
  have "mset (map fst (ordered_members order_policy ?cs)) = mset (map fst ?cs)"
    by (cases order_policy) (simp_all add: ordered_members_def)
  then show "mset (map projected_member ps) = mset (sorted_list_of_fset success)" unfolding ps cs(1) .
  show "case order_policy of MemberId \<Rightarrow> sorted (map projected_member ps)
      | CompletionSequence \<Rightarrow> sorted (map (\<lambda>p. sequence_of members (projected_member p)) ps)"
  proof (cases order_policy)
    case MemberId
    then show ?thesis unfolding ps by (simp add: ordered_members_def case_prod_unfold)
  next
    case CompletionSequence
    let ?os = "sort_key (\<lambda>(m, q, result). (q, m)) ?cs"
    have "map (\<lambda>p. sequence_of members (projected_member p)) ps = map (sequence_of members) (map projected_member ps)" by simp
    also have "\<dots> = map (\<lambda>x. sequence_of members (fst x)) ?os"
      unfolding ps using CompletionSequence by (simp add: ordered_members_def)
    also have "\<dots> = map (\<lambda>x. fst (snd x)) ?os" using cs(2) by simp
    finally have eq: "map (\<lambda>p. sequence_of members (projected_member p)) ps = map fst (map (\<lambda>(m, q, result). (q, m)) ?os)"
      by (simp add: case_prod_unfold comp_def)
    have "sorted (map fst xs)" if "sorted xs" for xs :: "(u64 \<times> string) list"
      using that by (induction xs) (auto simp: less_eq_prod_def)
    then have "sorted (map fst (map (\<lambda>(m, q, result). (q, m)) ?os))" using sorted_sort_key by blast
    then show ?thesis unfolding eq [symmetric] using CompletionSequence by simp
  qed
qed

text \<open>
  C30. A ready join delivers every successful member exactly once, in the configured order,
  whatever order the members completed in: by member name, or by the completion sequence.
\<close>

theorem join_results_order:
  assumes "evaluate_join ops (NodeConfiguration.JoinResults c) members timeout = Ok (Ready d)"
  shows "distinct (map projected_member (ready_results d)) \<and>
    set (map projected_member (ready_results d)) = completed_of c members \<and>
    (case join_ordering_policy c of
       MemberId \<Rightarrow> sorted (map projected_member (ready_results d))
     | CompletionSequence \<Rightarrow> sorted (map (\<lambda>p. sequence_of members (projected_member p)) (ready_results d)))"
proof -
  obtain snap where snap: "build_join_snapshot ops (join_required c) (join_optional c) (join_minimum_successes c) members = Ok snap"
    and results: "project_results (successful snap) members (join_ordering_policy c) (result_projection c)
      (artifact_collection c) = Ok (ready_results d)"
    using assms by (auto simp: evaluate_join_def Let_def result_simps split: option.splits if_splits)
  have completed: "is_completed (fmlookup members m)" if "m |\<in>| successful snap" for m
    using that snapshot_Ok(2) [OF snap] by (auto simp: completed_of_def)
  note order = project_results_Ok [OF results completed]
  have "set (map projected_member (ready_results d)) = completed_of c members"
    using mset_eq_setD [OF order(1)] snapshot_Ok(2) [OF snap] by simp
  moreover have "distinct (map projected_member (ready_results d))"
    using mset_eq_imp_distinct_iff [OF order(1)] by (simp add: sorted_list_of_fset.rep_eq)
  ultimately show ?thesis using order(2) by simp
qed

end
