(* ===== verification/Parallel_Compiled.thy ===== *)
theory Parallel_Compiled
  imports Parallel_Join Graph_Regions
begin

text \<open>
  The compiler and the runtime agree on parallel regions: whatever a run of the fan-out of
  a compiled graph has reached, its branches bind to the members of the configured join and
  the join can be evaluated.
\<close>

section \<open>Binding the branches of a run\<close>

lemma has_control_ascii:
  "char_code c < 128 \<Longrightarrow> has_control (c # s) \<longleftrightarrow> is_control (char_code c) \<or> has_control s"
  by (subst has_control_def, subst str_chars.simps) (simp add: next_char_def has_control_def)

definition valid_states :: "'n parallel_ops \<Rightarrow> 'n ParallelExecutionState \<Rightarrow> bool" where
  "valid_states ops s \<longleftrightarrow>
     (\<forall>b r. fmlookup (branches s) b = Some r \<longrightarrow> validate_member_state ops (member_state (branch_state r)) = Ok ())"

lemma next_completion_positive: "next_completion_sequence s = Ok q \<Longrightarrow> q \<noteq> 0"
  by (auto simp: next_completion_sequence_def result_simps dest!: checked_add_u64_Some)

lemma valid_step:
  assumes "applied ops s s'" and "valid_states ops s"
  shows "valid_states ops s'"
proof -
  obtain t where "apply_transition ops t s = Ok s'" using assms(1) by (auto simp: applied_def)
  then obtain r st expected where st: "next_branch_state ops expected t (branch_state r) = Ok st"
    and counted: "is_complete t \<Longrightarrow> \<exists>q. expected = Some q \<and> next_completion_sequence s = Ok q"
    and s': "s' = set_branch (transition_branch t) r st s" by (rule apply_Ok) blast
  from st have "validate_member_state ops (member_state st) = Ok ()"
    by (cases rule: next_branch_state_cases)
      (use counted next_completion_positive in \<open>auto simp: result_simps\<close>)
  then show ?thesis using assms(2) by (auto simp: valid_states_def s' set_branch_def)
qed

lemma bound_step:
  assumes "applied ops s s'" and "bound_records pops (member_bindings s) (branches s)"
  shows "bound_records pops (member_bindings s') (branches s')"
proof -
  obtain t where "apply_transition ops t s = Ok s'" using assms(1) by (auto simp: applied_def)
  then obtain r st expected where r: "fmlookup (branches s) (transition_branch t) = Some r"
    and s': "s' = set_branch (transition_branch t) r st s" by (rule apply_Ok)
  have "transition_branch t |\<in>| fmdom (branches s)" using r by (rule fmdomI)
  then have "fmdom (branches s') = fmdom (branches s)" by (auto simp: s')
  moreover have "branch_id q = b" if "fmlookup (branches s') b = Some q" for b q
    using that r assms(2) by (auto simp: s' set_branch_def bound_records_def split: if_splits)
  ultimately show ?thesis using assms(2) by (simp add: bound_records_def s')
qed

lemma run_bound:
  assumes "ParallelExecutionState_new ops work config specs variables = Ok s0" and "(applied ops)\<^sup>*\<^sup>* s0 s"
  shows "bound_records ops (member_bindings s) (branches s) \<and> valid_states ops s \<and>
    map configured_reference (member_bindings s) = map member_reference specs"
  using assms(2)
proof induction
  case base
  obtain c where "bound_records ops (member_bindings s0) (branches s0)"
    "map configured_reference (member_bindings s0) = map member_reference specs"
    and queued: "\<And>b r. fmlookup (branches s0) b = Some r \<Longrightarrow> branch_state r = Queued"
    using new_Ok [OF assms(1)] by metis
  then show ?case by (auto simp: valid_states_def)
next
  case (step y z)
  then show ?case using bound_step valid_step step_constant by metis
qed

lemma lookup_join_members:
  assumes "keyed s"
  shows "fmlookup (join_members s) b = map_option (\<lambda>r. member_state (branch_state r)) (fmlookup (branches s) b)"
proof -
  have find: "find (\<lambda>r. branch_id r = b) (fmvalues (branches s)) = fmlookup (branches s) b"
  proof (cases "fmlookup (branches s) b")
    case None
    then show ?thesis using assms by (auto simp: find_None_iff set_fmvalues keyed_def)
  next
    case (Some r)
    then have r: "r \<in> set (fmvalues (branches s))" "branch_id r = b" using assms by (auto simp: set_fmvalues keyed_def)
    then obtain q where "find (\<lambda>r. branch_id r = b) (fmvalues (branches s)) = Some q"
      by (cases "find (\<lambda>r. branch_id r = b) (fmvalues (branches s))") (auto simp: find_None_iff)
    moreover from this have "q \<in> set (fmvalues (branches s))" "branch_id q = b"
      by (metis (mono_tags) find_Some_iff nth_mem)+
    ultimately show ?thesis using Some assms by (auto simp: set_fmvalues keyed_def)
  qed
  show ?thesis
    unfolding join_members_def lookup_fold_upd [OF keyed_distinct [OF assms]] find
    by (cases "fmlookup (branches s) b") simp_all
qed

lemma bind_loop_Ok:
  assumes "\<And>m. m \<in> set ms \<Longrightarrow> validate_identifier ''join member reference'' (configured_reference m) = Ok () \<and>
      validate_identifier ''branch id'' (bound_branch_id m) = Ok () \<and>
      validate_identifier ''branch target'' (bound_target m) = Ok () \<and>
      (\<exists>st. fmlookup members (bound_branch_id m) = Some st \<and> validate_member_state ops st = Ok ())"
    and "distinct (map configured_reference ms)" "distinct (map bound_branch_id ms)"
    and "configured_reference ` set ms \<inter> fset refs = {}" "bound_branch_id ` set ms \<inter> fset ids = {}"
  shows "\<exists>bound'. bind_loop ops members ms refs ids bound = Ok (ids |\<union>| fset_of_list (map bound_branch_id ms), bound') \<and>
    fmdom bound' = fmdom bound |\<union>| fset_of_list (map configured_reference ms) \<and>
    (\<forall>k st. fmlookup bound' k = Some st \<longrightarrow> fmlookup bound k = Some st \<or> st |\<in>| fmran members)"
  using assms
proof (induction ms arbitrary: refs ids bound)
  case (Cons m ms)
  obtain st where st: "fmlookup members (bound_branch_id m) = Some st" "validate_member_state ops st = Ok ()"
    using Cons.prems(1) by auto
  obtain bound' where b: "bind_loop ops members ms (finsert (configured_reference m) refs) (finsert (bound_branch_id m) ids)
      (fmupd (configured_reference m) st bound) =
      Ok (finsert (bound_branch_id m) ids |\<union>| fset_of_list (map bound_branch_id ms), bound')"
    "fmdom bound' = fmdom (fmupd (configured_reference m) st bound) |\<union>| fset_of_list (map configured_reference ms)"
    "\<forall>k v. fmlookup bound' k = Some v \<longrightarrow> fmlookup (fmupd (configured_reference m) st bound) k = Some v \<or> v |\<in>| fmran members"
    using Cons.IH [of "finsert (configured_reference m) refs" "finsert (bound_branch_id m) ids" "fmupd (configured_reference m) st bound"]
      Cons.prems by auto
  have "st |\<in>| fmran members" using st(1) by (rule fmranI)
  then have "\<forall>k v. fmlookup bound' k = Some v \<longrightarrow> fmlookup bound k = Some v \<or> v |\<in>| fmran members"
    using b(3) by (auto split: if_splits)
  then show ?case using Cons.prems st b by (auto simp: result_simps)
qed simp

text \<open>The hexadecimal text of a hash is short and printable, as \<^verbatim>\<open>blake3::Hash::to_hex\<close> documents.\<close>

definition hex_text :: "'n parallel_ops \<Rightarrow> bool" where
  "hex_text ops \<longleftrightarrow> (\<forall>h. length (identity_hex ops h) \<le> 64 \<and> \<not> has_control (identity_hex ops h))"

lemma run_binds:
  assumes new: "ParallelExecutionState_new ops work config specs variables = Ok s0" and run: "(applied ops)\<^sup>*\<^sup>* s0 s"
    and hex: "hex_text ops"
  obtains bound where "bind_parallel_join_members ops (member_bindings s) (join_members s) = Ok bound"
    "fmdom bound = fset_of_list (map member_reference specs)" "distinct (map member_reference specs)"
    "specs \<noteq> []" "length specs \<le> MAX_MEMBERS"
    "\<forall>k \<in> member_reference ` set specs. \<forall>field. validate_identifier field k = Ok ()"
    "\<forall>k st. fmlookup bound k = Some st \<longrightarrow> validate_member_state ops st = Ok ()"
proof -
  let ?ms = "member_bindings s"
  have bound: "bound_records ops ?ms (branches s)" and valid: "valid_states ops s"
    and refs: "map configured_reference ?ms = map member_reference specs"
    using run_bound [OF new run] by simp_all
  have keyed: "keyed s" by (rule keyed_run [OF new run])
  have dom: "fset (fmdom (branches s)) = set (map bound_branch_id ?ms)" using bound by (simp add: bound_records_def)
  have size: "specs \<noteq> []" "length specs \<le> MAX_MEMBERS" "length ?ms = length specs"
    using new arg_cong [OF refs, of length]
    by (auto simp: ParallelExecutionState_new_def result_simps split: NodeConfiguration.splits)
  have member: "\<exists>st. fmlookup (join_members s) b = Some st \<and> validate_member_state ops st = Ok ()" if "b |\<in>| fmdom (branches s)" for b
    using that valid by (auto simp: lookup_join_members [OF keyed] valid_states_def fmlookup_dom_iff)
  have id: "validate_identifier field k = Ok ()" if "validate_identifier field' k = Ok ()" for field field' k
    using that by (simp add: validate_identifier_def result_simps)
  have ok: "validate_identifier ''join member reference'' (configured_reference m) = Ok () \<and>
      validate_identifier ''branch id'' (bound_branch_id m) = Ok () \<and>
      validate_identifier ''branch target'' (bound_target m) = Ok () \<and>
      (\<exists>st. fmlookup (join_members s) (bound_branch_id m) = Some st \<and> validate_member_state ops st = Ok ())"
    if m: "m \<in> set ?ms" for m
  proof -
    have b: "binding_ok ops m" using bound m by (auto simp: bound_records_def list_all_iff)
    then obtain h where "bound_branch_id m = ''branch:blake3:'' @ identity_hex ops h" by (auto simp: binding_ok_def)
    moreover have "length (identity_hex ops h) \<le> 64" "\<not> has_control (identity_hex ops h)"
      using hex by (auto simp: hex_text_def)
    ultimately have "validate_identifier ''branch id'' (bound_branch_id m) = Ok ()"
      by (simp add: validate_identifier_def result_simps MAX_IDENTIFIER_BYTES_def has_control_ascii is_control_def char_code_def)
    moreover have "bound_branch_id m |\<in>| fmdom (branches s)" using dom m by simp
    ultimately show ?thesis using b member unfolding binding_ok_def by blast
  qed
  obtain bound where b: "bind_loop ops (join_members s) ?ms {||} {||} fmempty = Ok (fset_of_list (map bound_branch_id ?ms), bound)"
    "fmdom bound = fset_of_list (map configured_reference ?ms)"
    "\<forall>k st. fmlookup bound k = Some st \<longrightarrow> st |\<in>| fmran (join_members s)"
    using bind_loop_Ok [OF ok, of ?ms "{||}" "{||}" fmempty] bound by (auto simp: bound_records_def)
  have "fmdom (join_members s) |\<subseteq>| fset_of_list (map bound_branch_id ?ms)"
  proof
    fix k assume "k |\<in>| fmdom (join_members s)"
    then have "k |\<in>| fmdom (branches s)" by (auto simp: lookup_join_members [OF keyed] fmlookup_dom_iff)
    then show "k |\<in>| fset_of_list (map bound_branch_id ?ms)" using dom by (simp add: fset_of_list.rep_eq)
  qed
  then have "bind_parallel_join_members ops ?ms (join_members s) = Ok bound"
    using size b(1) by (auto simp: bind_parallel_join_members_def result_simps)
  moreover have "validate_identifier field k = Ok ()" if "k \<in> member_reference ` set specs" for k field
  proof -
    have "k \<in> configured_reference ` set ?ms" using that arg_cong [OF refs, of set] by simp
    then show ?thesis using ok id by blast
  qed
  moreover have "validate_member_state ops st = Ok ()" if "fmlookup bound k = Some st" for k st
  proof -
    have "st |\<in>| fmran (join_members s)" using b(3) that by blast
    then obtain j where j: "fmlookup (join_members s) j = Some st" by (auto simp: fmlookup_ran_iff)
    then have "j |\<in>| fmdom (branches s)" by (auto simp: lookup_join_members [OF keyed] fmlookup_dom_iff)
    then show ?thesis using member j by fastforce
  qed
  moreover have "distinct (map member_reference specs)" using bound refs by (simp add: bound_records_def)
  ultimately show ?thesis using that size(1,2) b(2) refs by simp
qed

section \<open>Evaluating the join of a compiled graph\<close>

lemma try_map_Err: "try_map f xs = Err e \<Longrightarrow> \<exists>x \<in> set xs. f x = Err e"
  by (induction xs) (auto simp: rbind_eq_Err)

lemma project_member_Err:
  "project_member projection collection x = Err e \<Longrightarrow> \<exists>m what. e = MissingProjectedResult m what"
  by (cases x) (auto simp: project_member_def rbind_eq_Err ok_or_def split: JoinResultProjection.splits option.splits)

lemma evaluate_join_total:
  assumes feasible: "feasible_join c" and dom: "fmdom members = join_required c |\<union>| join_optional c"
    and ids: "\<And>k field. k |\<in>| fmdom members \<Longrightarrow> validate_identifier field k = Ok ()"
    and states: "\<And>k st. fmlookup members k = Some st \<Longrightarrow> validate_member_state ops st = Ok ()"
  shows "(\<exists>dec. evaluate_join ops (NodeConfiguration.JoinResults c) members timeout = Ok dec) \<or>
    (\<exists>m what. evaluate_join ops (NodeConfiguration.JoinResults c) members timeout = Err (MissingProjectedResult m what))"
proof -
  have "validate_join_configuration (join_required c) (join_optional c) (join_minimum_successes c) = Ok ()"
    using feasible ids dom
    by (auto simp: validate_join_configuration_def feasible_join_def Let_def result_simps saturating_add_usize_def
        usize_max_def MAX_MEMBERS_def fcard_fempty)
  moreover have "check_all (\<lambda>(member, state).
         rbind (validate_identifier ''join member'' member) (\<lambda>_.
         rbind (validate_member_state ops state) (\<lambda>_.
         fail_if (member |\<notin>| join_required c |\<union>| join_optional c) (UnexpectedJoinMember member))))
      (sorted_list_of_fmap members) = Ok ()"
  proof -
    have "k |\<in>| join_required c |\<union>| join_optional c" if "fmlookup members k = Some st" for k st
      using fmdomI [OF that] dom by simp
    then show ?thesis
      using ids states dom by (auto simp: check_all_eq_Ok sorted_list_of_fmap_iff result_simps)
  qed
  ultimately obtain snap where snap:
    "build_join_snapshot ops (join_required c) (join_optional c) (join_minimum_successes c) members = Ok snap"
    by (simp add: build_join_snapshot_def Let_def)
  let ?results = "project_results (successful snap) members (join_ordering_policy c) (result_projection c) (artifact_collection c)"
  have "(\<exists>ps. ?results = Ok ps) \<or> (\<exists>m what. ?results = Err (MissingProjectedResult m what))"
    unfolding project_results_def by (metis project_member_Err result.exhaust try_map_Err)
  then consider ps where "?results = Ok ps" | m what where "?results = Err (MissingProjectedResult m what)" by blast
  then show ?thesis
    by cases (simp_all add: evaluate_join_def Let_def snap split: option.split)
qed

lemma canonical_parallel: "canonicalize_node_configuration c = NodeConfiguration.ParallelBranch x \<longleftrightarrow> c = NodeConfiguration.ParallelBranch x"
  by (cases c rule: canonicalize_node_configuration.cases) auto

lemma canonical_join: "canonicalize_node_configuration c = NodeConfiguration.JoinResults x \<longleftrightarrow> c = NodeConfiguration.JoinResults x"
  by (cases c rule: canonicalize_node_configuration.cases) auto

lemma effective_parallel:
  "effective_node_configuration nd = Some (NodeConfiguration.ParallelBranch x) \<longleftrightarrow> parallel_configuration nd = Some x"
  "effective_node_configuration nd = Some (NodeConfiguration.JoinResults y) \<longleftrightarrow> join_configuration nd = Some y"
  by (auto simp: effective_node_configuration_def parallel_configuration_def join_configuration_def
      split: option.splits NodeConfiguration.splits)

lemma compiled_labels:
  assumes c: "compiled_from ops inputs limits d g" and x: "x \<in> set (exec_nodes g)"
  shows "exec_label ` {e \<in> set (exec_edges g). exec_from e = exec_index x} =
    edge_label ` {e \<in> set (graph_edges d). edge_from e = exec_id x}"
proof -
  obtain source where layout: "layout_graph ops source inputs limits d = Ok g"
    using c by (auto simp: compiled_from_def)
  let ?nds = "sort_key node_id (graph_nodes d)" and ?es = "sort_key edge_order (graph_edges d)"
  have dist: "distinct (map node_id ?nds)" using compiled_distinct [OF c] unfolding compiled_ids [OF c] .
  have len: "length (exec_nodes g) = length ?nds" using compiled_nodes(1) [OF c] by simp
  obtain k where k: "k < length (exec_nodes g)" "x = exec_nodes g ! k" using x by (metis in_set_conv_nth)
  have at: "exec_id x = node_id (?nds ! k)" "exec_index x = k"
    using compile_node_Ok [OF exec_node_at [OF layout k(1)]] k(2) by simp_all
  have edges: "list_all2 (\<lambda>e x. compile_edge ops limits (index_nodes ?nds) e = Ok x) ?es (exec_edges g)"
    by (rule layout_graph_Ok(7) [OF layout])
  have same: "exec_label e' = edge_label e \<and> (exec_from e' = k \<longleftrightarrow> edge_from e = exec_id x)"
    if "compile_edge ops limits (index_nodes ?nds) e = Ok e'" for e e'
  proof -
    have "fmlookup (index_nodes ?nds) (edge_from e) = Some (exec_from e')" "exec_label e' = edge_label e"
      using that by (auto simp: compile_edge_def rbind_eq_Ok)
    then have "exec_from e' < length ?nds" "node_id (?nds ! exec_from e') = edge_from e" "exec_label e' = edge_label e"
      by (auto simp: fmlookup_index_nodes [OF dist])
    moreover have "k < length ?nds" using k(1) len by simp
    moreover have "inj_on (\<lambda>i. node_id (?nds ! i)) {..<length ?nds}"
      using dist unfolding inj_on_def distinct_conv_nth by auto
    ultimately show ?thesis using at(1) by (auto simp: inj_on_def)
  qed
  show ?thesis
  proof (intro equalityI subsetI)
    fix l assume "l \<in> exec_label ` {e \<in> set (exec_edges g). exec_from e = exec_index x}"
    then obtain e' where "e' \<in> set (exec_edges g)" "exec_from e' = k" "l = exec_label e'" using at(2) by auto
    then show "l \<in> edge_label ` {e \<in> set (graph_edges d). edge_from e = exec_id x}"
      using list_all2_memb2 [OF edges] same by fastforce
  next
    fix l assume "l \<in> edge_label ` {e \<in> set (graph_edges d). edge_from e = exec_id x}"
    then obtain e where e: "e \<in> set ?es" "edge_from e = exec_id x" "l = edge_label e" by auto
    obtain e' where "e' \<in> set (exec_edges g)" "compile_edge ops limits (index_nodes ?nds) e = Ok e'"
      using list_all2_memb1 [OF edges e(1)] by blast
    then show "l \<in> exec_label ` {e \<in> set (exec_edges g). exec_from e = exec_index x}"
      using same [of e e'] e at(2) by (intro image_eqI [of _ _ e']) auto
  qed
qed

lemma check_fanout_labels:
  "check_fanout p j m es (labels, targets) = Ok (labels', targets') \<Longrightarrow>
   fcard labels' = fcard labels + length es \<and> fcard targets' = fcard targets + length es \<and>
   Some ` fset labels' = Some ` fset labels \<union> edge_label ` set es"
proof (induction p j m es "(labels, targets)" arbitrary: labels targets rule: check_fanout.induct)
  case (2 p j m e es labels targets)
  then obtain l where l: "edge_label e = Some l" "l |\<notin>| labels" "edge_to e |\<notin>| targets"
    and rest: "check_fanout p j m es (finsert l labels, finsert (edge_to e) targets) = Ok (labels', targets')"
    by (auto simp: result_simps)
  then have "fcard labels' = fcard (finsert l labels) + length es \<and>
    fcard targets' = fcard (finsert (edge_to e) targets) + length es \<and>
    Some ` fset labels' = Some ` fset (finsert l labels) \<union> edge_label ` set es"
    using "2.hyps" "2.prems" by (auto simp: result_simps)
  then show ?case using l by (auto simp: fcard_finsert_disjoint)
qed auto

text \<open>What the compiler has established about the join of a parallel node.\<close>

lemma compiled_join:
  assumes cf: "compiled_from gops inputs limits d g"
    and x: "x \<in> set (exec_nodes g)" "exec_kind x = NodeKind.ParallelBranch"
      "exec_configuration x = Some (NodeConfiguration.ParallelBranch c)"
    and y: "y \<in> set (exec_nodes g)" "exec_id y = join_target c"
      "exec_configuration y = Some (NodeConfiguration.JoinResults j)"
  obtains n where
    "Some ` fset (join_required j |\<union>| join_optional j) = edge_label ` {e \<in> set (graph_edges d). edge_from e = exec_id x}"
    "n = fcard (join_required j |\<union>| join_optional j)" "\<not> join_policy_mismatch c j n"
    "join_required j |\<inter>| join_optional j = {||}" "0 < join_minimum_successes j"
    "join_minimum_successes j \<le> fcard (join_required j) + fcard (join_optional j)"
proof -
  obtain nd nodes variables where nd: "node_id nd = exec_id x"
    and config: "exec_configuration x = map_option canonicalize_node_configuration (effective_node_configuration nd)"
    and map: "node_map_of d nodes"
    and vpar: "validate_parallel_node d nodes variables limits nd = Ok ()"
    by (rule compiled_parallel [OF cf x(1,2)])
  have c: "parallel_configuration nd = Some c"
    using config x(3) canonical_parallel effective_parallel(1) by (metis (no_types, lifting) map_option_eq_Some)
  obtain i jn where jn: "jn \<in> set (graph_nodes d)" "compile_node gops limits (i, jn) = Ok y"
    using compiled_node_of [OF cf y(1)] by blast
  have j: "join_configuration jn = Some j"
    using compile_node_Ok [OF jn(2)] y(3) canonical_join effective_parallel(2) by (metis (no_types, lifting) map_option_eq_Some)
  have lookup: "fmlookup nodes (join_target c) = Some jn"
    using node_map_lookup [OF map jn(1)] compile_node_Ok [OF jn(2)] y(2) by simp
  let ?es = "filter (\<lambda>e. edge_from e = exec_id x) (graph_edges d)"
  obtain branches where topo: "validate_parallel_topology nd ?es (adjacency d) (reverse_adjacency d) nodes limits = Ok branches"
    using vpar nd by (auto simp: validate_parallel_node_def Let_def result_simps)
  then obtain labels targets where fanout: "check_fanout (node_id nd) (join_target c) (max_name_bytes limits) ?es ({||}, {||}) = Ok (labels, targets)"
    and same: "labels = join_required j |\<union>| join_optional j" and policy: "\<not> join_policy_mismatch c j (fcard targets)"
    using c j lookup by (auto simp: validate_parallel_topology_def Let_def result_simps split: prod.splits)
  have ok: "validate_definition gops inputs limits d = Ok ()" using cf by (simp add: compiled_from_def)
  obtain nodes' where contracts: "validate_node_contracts gops d nodes' inputs limits = Ok ()"
    by (rule validate_definition_Ok [OF ok])
  have "check_join jn limits j = Ok ()"
    using contracts jn(1) j
    by (auto simp: validate_node_contracts_def validate_node_contract_def validate_node_configuration_def
        join_configuration_def result_simps split: option.splits NodeConfiguration.splits)
  then show ?thesis
    using that [of "fcard targets"] check_fanout_labels [OF fanout] same policy
    by (auto simp: check_join_def result_simps)
qed

text \<open>
  C31. A fan-out of a compiled graph can always be joined: once a parallel node has been
  started with one branch per labelled edge, then at any moment of the run, whatever
  transitions were accepted, evaluating the join the node is configured with succeeds; no
  check of the bindings, the member sets or the policies can fail, and the only possible
  error is a completed branch whose result lacks the projection the join asks for.
\<close>

theorem compiled_join_evaluates:
  assumes "compile gops source inputs limits = Ok g"
    and x: "x \<in> set (exec_nodes g)" "exec_kind x = NodeKind.ParallelBranch"
      "exec_configuration x = Some (NodeConfiguration.ParallelBranch c)"
    and y: "y \<in> set (exec_nodes g)" "exec_id y = join_target c"
      "exec_configuration y = Some (NodeConfiguration.JoinResults j)"
    and labels: "map exec_label (filter (\<lambda>e. exec_from e = exec_index x) (exec_edges g)) =
      map (\<lambda>spec. Some (member_reference spec)) specs"
    and new: "ParallelExecutionState_new ops work (NodeConfiguration.ParallelBranch c) specs variables = Ok s0"
    and run: "(applied ops)\<^sup>*\<^sup>* s0 s" and hex: "hex_text ops"
  shows "(\<exists>dec. evaluate_bound_parallel_join ops (NodeConfiguration.ParallelBranch c) (NodeConfiguration.JoinResults j)
      (member_bindings s) (join_members s) timeout = Ok dec) \<or>
    (\<exists>m what. evaluate_bound_parallel_join ops (NodeConfiguration.ParallelBranch c) (NodeConfiguration.JoinResults j)
      (member_bindings s) (join_members s) timeout = Err (MissingProjectedResult m what))"
proof -
  obtain bound where bind: "bind_parallel_join_members ops (member_bindings s) (join_members s) = Ok bound"
    and dom: "fmdom bound = fset_of_list (map member_reference specs)" and dist: "distinct (map member_reference specs)"
    and size: "specs \<noteq> []" "length specs \<le> MAX_MEMBERS"
    and ids: "\<forall>k \<in> member_reference ` set specs. \<forall>field. validate_identifier field k = Ok ()"
    and states: "\<forall>k st. fmlookup bound k = Some st \<longrightarrow> validate_member_state ops st = Ok ()"
    by (rule run_binds [OF new run hex])
  obtain d where cf: "compiled_from gops inputs limits d g" using compile_compiled_from [OF assms(1)] by blast
  obtain n where edges: "Some ` fset (join_required j |\<union>| join_optional j) =
        edge_label ` {e \<in> set (graph_edges d). edge_from e = exec_id x}"
    and n: "n = fcard (join_required j |\<union>| join_optional j)" "\<not> join_policy_mismatch c j n"
    and disjoint: "join_required j |\<inter>| join_optional j = {||}"
    and minimum: "0 < join_minimum_successes j" "join_minimum_successes j \<le> fcard (join_required j) + fcard (join_optional j)"
    by (rule compiled_join [OF cf x y])
  have "Some ` fset (join_required j |\<union>| join_optional j) = Some ` fset (fmdom bound)"
    using arg_cong [OF labels, of set] unfolding edges compiled_labels [OF cf x(1), symmetric] dom
    by (auto simp: fset_of_list.rep_eq)
  then have "fset (join_required j |\<union>| join_optional j) = fset (fmdom bound)" by (simp only: inj_image_eq_iff inj_Some)
  then have members: "join_required j |\<union>| join_optional j = fmdom bound" by (simp only: fset_inject)
  have "fcard (fmdom bound) = length specs"
    using distinct_card [OF dist] unfolding dom by (simp add: fcard.rep_eq fset_of_list.rep_eq)
  moreover have "fcard (join_required j |\<union>| join_optional j) = fcard (join_required j) + fcard (join_optional j)"
    using fcard_funion_disjoint [OF disjoint] .
  ultimately have feasible: "feasible_join j"
    using disjoint minimum size members by (simp add: feasible_join_def)
  have policy: "\<not> bound_policy_mismatch c j (fmdom bound)"
    using n members by (auto simp: bound_policy_mismatch_def join_policy_mismatch_def split: ParallelJoinPolicy.splits)
  have "evaluate_bound_parallel_join ops (NodeConfiguration.ParallelBranch c) (NodeConfiguration.JoinResults j)
      (member_bindings s) (join_members s) timeout = evaluate_join ops (NodeConfiguration.JoinResults j) bound timeout"
    using bind members policy by (simp add: evaluate_bound_parallel_join_def)
  then show ?thesis
    using evaluate_join_total [OF feasible members [symmetric]] ids states dom
    by (simp add: fset_of_list.rep_eq)
qed

end
