(* ===== verification/Parallel_Witness.thy ===== *)
theory Parallel_Witness
  imports Parallel_Compiled Graph_Witness
begin

text \<open>
  A concrete run of the fan-out of the graph of \<^verbatim>\<open>Graph_Witness\<close>: the first branch completes
  while the second is running, so the join waits for it.
\<close>

section \<open>The run\<close>

definition demo_parallel_ops :: "nat parallel_ops" where
  "demo_parallel_ops =
     \<lparr>branch_material = (\<lambda>work target index. Ok (str_bytes target)),
      dispatch_material = (\<lambda>work branch. Ok (str_bytes branch)),
      identity_hash = (\<lambda>bs. bs), identity_hex = (\<lambda>h. if h = str_bytes ''b'' then ''b0'' else ''c0''),
      result_to_vec = (\<lambda>v. Ok [])\<rparr>"

lemma demo_hex: "hex_text demo_parallel_ops"
proof -
  have "\<not> has_control ''b0''" "\<not> has_control ''c0''" by code_simp+
  then show ?thesis by (simp add: hex_text_def demo_parallel_ops_def)
qed

definition demo_work :: NodeWorkIdentity where
  "demo_work = \<lparr>work_run_id = ''run'', work_node_id = ''p'', work_branch_path = [], work_attempt = 1,
     work_loop_iteration = 1, work_step = 2\<rparr>"

definition demo_specs :: "ParallelBranchSpec list" where
  "demo_specs =
     [\<lparr>member_reference = ''l'', spec_target = ''b'', spec_write_variables = {||}, workspace_resources = {|''left''|}\<rparr>,
      \<lparr>member_reference = ''r'', spec_target = ''c'', spec_write_variables = {||}, workspace_resources = {|''right''|}\<rparr>]"

definition demo_start :: "nat ParallelExecutionState parallel" where
  "demo_start = ParallelExecutionState_new demo_parallel_ops demo_work (NodeConfiguration.ParallelBranch demo_parallel) demo_specs []"

definition demo_result :: "nat JoinMemberResult" where
  "demo_result = \<lparr>inline_value = Some JNull, node_result_reference = None, artifact_references = {||},
     declared_artifact_references = {||}\<rparr>"

definition demo_transitions :: "nat ParallelBranchTransition list" where
  "demo_transitions =
     (let b = ''branch:blake3:b0''; c = ''branch:blake3:c0''; d = ''dispatch:blake3:c0'' in
      [Dispatch b d, Dispatch c d, Start c d, Start b d, Complete b d 1 demo_result])"

definition demo_reached :: "nat ParallelExecutionState \<Rightarrow> bool" where
  "demo_reached s \<longleftrightarrow>
     map (\<lambda>r. state_name (branch_state r)) (ordered_branches s) = [''completed'', ''running''] \<and>
     (case cancellation_transitions ''stop'' s of Ok ts \<Rightarrow> length ts = 1 | Err _ \<Rightarrow> False)"

lemma demo_evaluated:
  "case demo_start of
     Ok s0 \<Rightarrow> (case apply_all demo_parallel_ops demo_transitions s0 of Ok s \<Rightarrow> demo_reached s | Err _ \<Rightarrow> False)
   | Err _ \<Rightarrow> False"
  by code_simp

lemma case_Ok: "(case x of Ok y \<Rightarrow> P y | Err _ \<Rightarrow> False) \<longleftrightarrow> (\<exists>y. x = Ok y \<and> P y)"
  by (cases x) auto

lemma apply_all_run: "apply_all ops ts s = Ok s' \<Longrightarrow> (applied ops ^^ length ts) s s'"
proof (induction ts arbitrary: s)
  case (Cons t ts)
  then obtain u where "apply_transition ops t s = Ok u" "(applied ops ^^ length ts) u s'" by (auto simp: rbind_eq_Ok)
  moreover from this have "applied ops s u" unfolding applied_def by blast
  ultimately have "(applied ops ^^ Suc (length ts)) s s'" using relpowp_Suc_I2 [of "applied ops"] by blast
  then show ?case by simp
qed simp

lemma demo_run:
  obtains s0 s ts where "demo_start = Ok s0" "(applied demo_parallel_ops ^^ 5) s0 s" "(applied demo_parallel_ops)\<^sup>*\<^sup>* s0 s"
    "map (\<lambda>r. state_name (branch_state r)) (ordered_branches s) = [''completed'', ''running'']"
    "cancellation_transitions ''stop'' s = Ok ts" "length ts = 1"
proof -
  obtain s0 s where s0: "demo_start = Ok s0" and s: "apply_all demo_parallel_ops demo_transitions s0 = Ok s" "demo_reached s"
    using demo_evaluated unfolding case_Ok by blast
  then obtain ts where "cancellation_transitions ''stop'' s = Ok ts" "length ts = 1"
    unfolding demo_reached_def case_Ok by blast
  moreover have run: "(applied demo_parallel_ops ^^ 5) s0 s"
  proof -
    have "length demo_transitions = 5" by (simp add: demo_transitions_def Let_def)
    then show ?thesis using apply_all_run [OF s(1)] by (simp only:)
  qed
  ultimately show ?thesis using that s0 s(2) relpowp_imp_rtranclp [OF run] by (auto simp: demo_reached_def)
qed

section \<open>Witnesses of the state machine\<close>

theorem parallel_within_capacity_witness:
  "\<exists>s0. demo_start = Ok s0 \<and>
     length (filter (\<lambda>r. is_active (branch_state r)) (fmvalues (branches s0))) \<le> 2 \<and>
     queued_after_dispatch (dispatch_decision s0) \<le> 1"
proof (rule demo_run)
  fix s0 assume "demo_start = Ok s0"
  then show ?thesis
    using parallel_within_capacity [of demo_parallel_ops demo_work demo_parallel demo_specs "[]" s0 s0]
    by (auto simp: demo_start_def demo_parallel_def effective_parallelism_def)
qed

theorem parallel_completions_numbered_witness:
  "\<exists>s0 s k. demo_start = Ok s0 \<and> (applied demo_parallel_ops)\<^sup>*\<^sup>* s0 s \<and> next_completion_sequence s = Ok (of_nat (k + 1))"
proof (rule demo_run)
  fix s0 s assume "demo_start = Ok s0" "(applied demo_parallel_ops)\<^sup>*\<^sup>* s0 s"
  then show ?thesis unfolding demo_start_def using parallel_completions_numbered by blast
qed

theorem parallel_run_bounded_witness:
  "\<exists>s0 s. demo_start = Ok s0 \<and> (applied demo_parallel_ops ^^ 5) s0 s \<and> 5 \<le> 3 * length demo_specs"
proof (rule demo_run)
  fix s0 s assume "demo_start = Ok s0" "(applied demo_parallel_ops ^^ 5) s0 s"
  then show ?thesis unfolding demo_start_def using parallel_run_bounded by blast
qed

theorem parallel_cancellation_witness:
  "\<exists>s0 s ts. demo_start = Ok s0 \<and> length ts = 1 \<and>
     apply_all demo_parallel_ops ts s = Ok (s\<lparr>branches := fmmap (cancel_record ''stop'') (branches s)\<rparr>)"
proof (rule demo_run)
  fix s0 s ts assume "demo_start = Ok s0" "(applied demo_parallel_ops)\<^sup>*\<^sup>* s0 s"
    "cancellation_transitions ''stop'' s = Ok ts" "length ts = 1"
  then show ?thesis unfolding demo_start_def using parallel_cancellation by blast
qed

section \<open>Witnesses of the join\<close>

definition demo_waiting :: "(string, nat JoinMemberState) fmap" where
  "demo_waiting = fmap_of_list [(''l'', Completed 1 demo_result)]"

definition demo_failing :: "(string, nat JoinMemberState) fmap" where
  "demo_failing = fmap_of_list [(''r'', Failed ''crash'')]"

definition demo_failed :: "(string, nat JoinMemberState) fmap" where
  "demo_failed = fmap_of_list [(''l'', Completed 1 demo_result), (''r'', Failed ''crash'')]"

definition demo_full :: "(string, nat JoinMemberState) fmap" where
  "demo_full = fmap_of_list [(''l'', Completed 2 demo_result), (''r'', Completed 1 demo_result)]"

definition demo_evaluate :: "(string, nat JoinMemberState) fmap \<Rightarrow> bool \<Rightarrow> nat JoinDecision parallel" where
  "demo_evaluate = evaluate_join demo_parallel_ops (NodeConfiguration.JoinResults demo_join)"

lemma demo_decisions:
  "case demo_evaluate demo_waiting False of Ok dec \<Rightarrow> dec = Waiting [''r''] 1 | Err _ \<Rightarrow> False"
  "case demo_evaluate demo_failing False of Ok dec \<Rightarrow> is_join_failed dec | Err _ \<Rightarrow> False"
  "case demo_evaluate demo_failed True of Ok dec \<Rightarrow> is_join_failed dec | Err _ \<Rightarrow> False"
  "case demo_evaluate demo_full False of Ok dec \<Rightarrow> is_ready dec | Err _ \<Rightarrow> False"
  by code_simp+

theorem join_decides_witness: "\<not> satisfied demo_join demo_waiting \<and> \<not> hopeless demo_join demo_waiting"
proof -
  have "demo_evaluate demo_waiting False = Ok (Waiting [''r''] 1)"
    using demo_decisions(1) unfolding case_Ok by blast
  from join_decides [OF this [unfolded demo_evaluate_def]] show ?thesis by (simp add: demo_join_def)
qed


theorem join_results_order_witness:
  "\<exists>d. evaluate_join demo_parallel_ops (NodeConfiguration.JoinResults demo_join) demo_full False = Ok (Ready d) \<and>
     sorted (map projected_member (ready_results d))"
proof -
  obtain d where "demo_evaluate demo_full False = Ok (Ready d)"
    using demo_decisions(4) by (cases "demo_evaluate demo_full False") (auto elim: is_ready.elims)
  from this [unfolded demo_evaluate_def] join_results_order [OF this [unfolded demo_evaluate_def]]
  show ?thesis by (auto simp: demo_join_def)
qed

section \<open>The compiled fan-out\<close>

definition demo_fanout :: "nat ExecutableGraph \<Rightarrow> bool" where
  "demo_fanout g \<longleftrightarrow>
     length (exec_nodes g) = 6 \<and> exec_kind (exec_nodes g ! 4) = NodeKind.ParallelBranch \<and>
     exec_configuration (exec_nodes g ! 4) = Some (NodeConfiguration.ParallelBranch demo_parallel) \<and>
     exec_id (exec_nodes g ! 3) = ''j'' \<and>
     exec_configuration (exec_nodes g ! 3) = Some (NodeConfiguration.JoinResults demo_join) \<and>
     map exec_label (filter (\<lambda>e. exec_from e = exec_index (exec_nodes g ! 4)) (exec_edges g)) = [Some ''l'', Some ''r'']"

lemma demo_fanout_compiles:
  "case compile demo_ops ''graph'' demo_inputs CompilerLimits_default of Ok g \<Rightarrow> demo_fanout g | Err _ \<Rightarrow> False"
  by code_simp

theorem compiled_join_evaluates_witness:
  "\<exists>s0 s. demo_start = Ok s0 \<and> (applied demo_parallel_ops ^^ 5) s0 s \<and>
     ((\<exists>dec. evaluate_bound_parallel_join demo_parallel_ops (NodeConfiguration.ParallelBranch demo_parallel)
        (NodeConfiguration.JoinResults demo_join) (member_bindings s) (join_members s) False = Ok dec) \<or>
      (\<exists>m what. evaluate_bound_parallel_join demo_parallel_ops (NodeConfiguration.ParallelBranch demo_parallel)
        (NodeConfiguration.JoinResults demo_join) (member_bindings s) (join_members s) False =
        Err (MissingProjectedResult m what)))"
proof (rule demo_run)
  fix s0 s assume run: "demo_start = Ok s0" "(applied demo_parallel_ops ^^ 5) s0 s" "(applied demo_parallel_ops)\<^sup>*\<^sup>* s0 s"
  obtain g where g: "compile demo_ops ''graph'' demo_inputs CompilerLimits_default = Ok g" "demo_fanout g"
    using demo_fanout_compiles unfolding case_Ok by blast
  have x: "exec_nodes g ! 4 \<in> set (exec_nodes g)" "exec_nodes g ! 3 \<in> set (exec_nodes g)"
    using g(2) by (simp_all add: demo_fanout_def)
  have "map exec_label (filter (\<lambda>e. exec_from e = exec_index (exec_nodes g ! 4)) (exec_edges g)) =
      map (\<lambda>spec. Some (member_reference spec)) demo_specs"
    using g(2) by (simp add: demo_fanout_def demo_specs_def)
  moreover have "exec_id (exec_nodes g ! 3) = join_target demo_parallel" using g(2) by (simp add: demo_fanout_def demo_parallel_def)
  moreover have "exec_kind (exec_nodes g ! 4) = NodeKind.ParallelBranch"
    "exec_configuration (exec_nodes g ! 4) = Some (NodeConfiguration.ParallelBranch demo_parallel)"
    "exec_configuration (exec_nodes g ! 3) = Some (NodeConfiguration.JoinResults demo_join)"
    using g(2) by (simp_all only: demo_fanout_def)
  ultimately show ?thesis
    using compiled_join_evaluates [OF g(1) x(1) _ _ x(2) _ _ _ run(1) [unfolded demo_start_def] run(3) demo_hex] run by blast
qed

end
