(* ===== verification/Variable_Values.thy ===== *)
theory Variable_Values
  imports Graph_Types
begin

text \<open>
  \<^verbatim>\<open>apps/runtime/logic/src/canonical_variables.rs\<close>, first part: the bounded values of graph
  variables. A \<^verbatim>\<open>BTreeMap\<close> inside a value is the list of its entries in ascending key order
  (\<open>canonical_maps\<close> says that a value is of this form); the derived order of values, by which
  a \<open>Union\<close> sorts, is an instance of \<open>linorder\<close>. \<^verbatim>\<open>serde_json\<close> and BLAKE3 are parameters.
\<close>

section \<open>Loops that thread a value\<close>

text \<open>\<^verbatim>\<open>Iterator::try_fold\<close>, and a \<^verbatim>\<open>for\<close> loop whose body updates a value and may return early.\<close>

fun try_fold :: "('s \<Rightarrow> 'a \<Rightarrow> ('s, 'e) result) \<Rightarrow> 'a list \<Rightarrow> 's \<Rightarrow> ('s, 'e) result" where
  "try_fold f [] s = Ok s"
| "try_fold f (x # xs) s = rbind (f s x) (\<lambda>s'. try_fold f xs s')"

lemma try_fold_cong [fundef_cong]:
  assumes "xs = xs'" "s = s'" "\<And>s x. x \<in> set xs' \<Longrightarrow> f s x = g s x"
  shows "try_fold f xs s = try_fold g xs' s'"
  unfolding assms(1,2) using assms(3)
proof (induction xs' arbitrary: s')
  case (Cons x xs)
  then show ?case by (cases "g s' x") simp_all
qed simp

lemma try_fold_append: "try_fold f (xs @ ys) s = rbind (try_fold f xs s) (try_fold f ys)"
proof (induction xs arbitrary: s)
  case (Cons x xs)
  then show ?case by (cases "f s x") simp_all
qed simp

section \<open>Data\<close>

datatype CanonicalApprovalResult = Approved | Denied | ApprovalCancelled | ApprovalExpired

datatype CanonicalVariableValue =
    CBoolean bool
  | CInteger u64
  | CDecimal string
  | CString string
  | CEnum string
  | CList "CanonicalVariableValue list"
  | CMap "(string \<times> CanonicalVariableValue) list"
  | CSessionId string
  | CChildId string
  | CTaskId string
  | CArtifactReference string
  | CSecretReference string
  | CToolResultReference string
  | CApprovalResult CanonicalApprovalResult
  | CNodeResultReference string
  | CTimestampMillis u64
  | CDurationMillis u64

datatype VariableEnvironmentError =
    InvalidLimits
  | VariableLimitExceeded
  | DuplicateDeclaration string
  | InvalidDeclaration string
  | DeclarationDepthExceeded
  | DeclarationKeyMismatch
  | UndeclaredVariable string
  | MissingValue string
  | UnauthorizedWriter string string
  | UnauthorizedReader string string
  | BranchScopeMismatch
  | InvalidBranchWrite
  | MissingMergePolicy
  | EmptyMerge
  | DuplicateBranch
  | MergeConflict
  | InvalidMergeValue
  | ImmutableReassignment
  | VersionMismatch
  | VersionOverflow
  | InvalidVersion
  | ValueTypeMismatch
  | InvalidDecimal
  | InvalidEnum
  | SecurityViolation
  | RuntimeRecordedValueRequired
  | InvalidReference
  | ValueDepthExceeded
  | ValueItemLimitExceeded
  | CollectionBoundExceeded
  | InvalidMapKey
  | DeclaredSizeExceeded string
  | EnvironmentSizeExceeded
  | ValueHashMismatch string
  | InitialAuditStateMismatch
  | Serialization
  | InternalInvariant
  | EventRunMismatch
  | EventMismatch
  | DeclarationHashMismatch
  | InvalidRemoval
  | FailureLimitExceeded
  | InvalidEventIdentity

type_synonym 'a variables = "('a, VariableEnvironmentError) result"

section \<open>The derived order of values\<close>

fun then_with :: "ordering \<Rightarrow> ordering \<Rightarrow> ordering" where
  "then_with OEqual o2 = o2"
| "then_with o1 _ = o1"

fun reversed :: "ordering \<Rightarrow> ordering" where
  "reversed OLess = OGreater"
| "reversed OEqual = OEqual"
| "reversed OGreater = OLess"

definition compare_keys :: "'a::linorder \<Rightarrow> 'a \<Rightarrow> ordering" where
  "compare_keys a b = (if a < b then OLess else if a = b then OEqual else OGreater)"

text \<open>
  \<^verbatim>\<open>#[derive(Ord)]\<close> compares the position of the constructor first and then its payload; lists
  and maps compare their elements in order, a proper prefix being smaller.
\<close>

fun approval_rank :: "CanonicalApprovalResult \<Rightarrow> int" where
  "approval_rank Approved = 0"
| "approval_rank Denied = 1"
| "approval_rank ApprovalCancelled = 2"
| "approval_rank ApprovalExpired = 3"

fun scalar_key :: "CanonicalVariableValue \<Rightarrow> nat \<times> int \<times> string" where
  "scalar_key (CBoolean b) = (0, if b then 1 else 0, [])"
| "scalar_key (CInteger a) = (1, sint a, [])"
| "scalar_key (CDecimal s) = (2, 0, s)"
| "scalar_key (CString s) = (3, 0, s)"
| "scalar_key (CEnum s) = (4, 0, s)"
| "scalar_key (CList _) = (5, 0, [])"
| "scalar_key (CMap _) = (6, 0, [])"
| "scalar_key (CSessionId s) = (7, 0, s)"
| "scalar_key (CChildId s) = (8, 0, s)"
| "scalar_key (CTaskId s) = (9, 0, s)"
| "scalar_key (CArtifactReference s) = (10, 0, s)"
| "scalar_key (CSecretReference s) = (11, 0, s)"
| "scalar_key (CToolResultReference s) = (12, 0, s)"
| "scalar_key (CApprovalResult r) = (13, approval_rank r, [])"
| "scalar_key (CNodeResultReference s) = (14, 0, s)"
| "scalar_key (CTimestampMillis a) = (15, sint a, [])"
| "scalar_key (CDurationMillis a) = (16, uint a, [])"

fun compare_lists :: "('a \<Rightarrow> 'a \<Rightarrow> ordering) \<Rightarrow> 'a list \<Rightarrow> 'a list \<Rightarrow> ordering" where
  "compare_lists c [] [] = OEqual"
| "compare_lists c [] (y # ys) = OLess"
| "compare_lists c (x # xs) [] = OGreater"
| "compare_lists c (x # xs) (y # ys) = then_with (c x y) (compare_lists c xs ys)"

lemma compare_lists_cong [fundef_cong]:
  assumes "xs = xs'" "ys = ys'" "\<And>x y. x \<in> set xs' \<Longrightarrow> y \<in> set ys' \<Longrightarrow> c x y = d x y"
  shows "compare_lists c xs ys = compare_lists d xs' ys'"
  using assms(3) unfolding assms(1,2) by (induction c xs' ys' rule: compare_lists.induct) auto

lemma size_entry_less: "e \<in> set es \<Longrightarrow> size (snd e) < size (CMap es)"
  by (induction es) auto

function compare_value :: "CanonicalVariableValue \<Rightarrow> CanonicalVariableValue \<Rightarrow> ordering" where
  "compare_value x y =
     (case (x, y) of
        (CList xs, CList ys) \<Rightarrow> compare_lists compare_value xs ys
      | (CMap es, CMap fs) \<Rightarrow>
          compare_lists (\<lambda>e f. then_with (compare_keys (fst e) (fst f)) (compare_value (snd e) (snd f))) es fs
      | _ \<Rightarrow> compare_keys (scalar_key x) (scalar_key y))"
  by pat_completeness auto
termination
  by (relation "measure (\<lambda>(x, y). size x)")
    (auto dest: size_entry_less simp: less_Suc_eq_le size_list_estimation')

declare compare_value.simps [simp del]

subsection \<open>It is a linear order\<close>

lemma compare_keys_iff [simp]:
  "compare_keys a b = OLess \<longleftrightarrow> a < b"
  "compare_keys a b = OEqual \<longleftrightarrow> a = b"
  "compare_keys a b = OGreater \<longleftrightarrow> b < a"
  by (auto simp: compare_keys_def)

lemma compare_keys_reversed: "reversed (compare_keys a b) = compare_keys b a"
  by (auto simp: compare_keys_def)

lemma then_with_iff [simp]:
  "then_with a b = OEqual \<longleftrightarrow> a = OEqual \<and> b = OEqual"
  "then_with a b = OLess \<longleftrightarrow> a = OLess \<or> (a = OEqual \<and> b = OLess)"
  "then_with a b = OGreater \<longleftrightarrow> a = OGreater \<or> (a = OEqual \<and> b = OGreater)"
  by (cases a; simp)+

lemma reversed_then_with: "reversed (then_with a b) = then_with (reversed a) (reversed b)"
  by (cases a) simp_all

lemma approval_rank_inject [simp]: "approval_rank a = approval_rank b \<longleftrightarrow> a = b"
  by (cases a; cases b) simp_all

definition is_scalar :: "CanonicalVariableValue \<Rightarrow> bool" where
  "is_scalar v \<longleftrightarrow> fst (scalar_key v) \<noteq> 5 \<and> fst (scalar_key v) \<noteq> 6"

lemma value_induct [case_names scalar list map]:
  assumes "\<And>v. is_scalar v \<Longrightarrow> P v"
    and "\<And>xs. (\<And>x. x \<in> set xs \<Longrightarrow> P x) \<Longrightarrow> P (CList xs)"
    and "\<And>es. (\<And>e. e \<in> set es \<Longrightarrow> P (snd e)) \<Longrightarrow> P (CMap es)"
  shows "P v"
proof (induction v)
  case (CMap es)
  show ?case by (rule assms(3)) (use CMap in \<open>force\<close>)
qed (auto intro: assms simp: is_scalar_def)

lemma word_readings_inject:
  "sint (a :: u64) = sint b \<longleftrightarrow> a = b" "uint (a :: u64) = uint b \<longleftrightarrow> a = b"
  by (metis signed_word_eqI, metis unsigned_word_eqI)

lemma scalar_key_inject: "is_scalar x \<or> is_scalar y \<Longrightarrow> scalar_key x = scalar_key y \<longleftrightarrow> x = y"
  by (cases x; cases y) (simp_all add: is_scalar_def word_readings_inject)

lemma not_scalar [simp]: "\<not> is_scalar (CList xs)" "\<not> is_scalar (CMap es)"
  by (simp_all add: is_scalar_def)

definition compare_entry :: "string \<times> CanonicalVariableValue \<Rightarrow> string \<times> CanonicalVariableValue \<Rightarrow> ordering" where
  "compare_entry e f = then_with (compare_keys (fst e) (fst f)) (compare_value (snd e) (snd f))"

lemma compare_value_collections [simp]:
  "compare_value (CList xs) (CList ys) = compare_lists compare_value xs ys"
  "compare_value (CMap es) (CMap fs) = compare_lists compare_entry es fs"
  by (simp_all add: compare_value.simps [of "CList _"] compare_value.simps [of "CMap _"] compare_entry_def [abs_def])

lemma compare_value_keys:
  "is_scalar x \<or> is_scalar y \<or> scalar_key x \<noteq> scalar_key y \<Longrightarrow>
   compare_value x y = compare_keys (scalar_key x) (scalar_key y)"
  by (subst compare_value.simps) (auto simp: is_scalar_def split: CanonicalVariableValue.splits)

lemma same_collection_cases:
  obtains "is_scalar x \<or> is_scalar y \<or> scalar_key x \<noteq> scalar_key y"
  | xs ys where "x = CList xs" "y = CList ys"
  | es fs where "x = CMap es" "y = CMap fs"
  by (cases x; cases y) (auto simp: is_scalar_def)

lemma compare_value_less:
  "compare_value x y = OLess \<longleftrightarrow> scalar_key x < scalar_key y \<or>
     (\<exists>xs ys. x = CList xs \<and> y = CList ys \<and> compare_lists compare_value xs ys = OLess) \<or>
     (\<exists>es fs. x = CMap es \<and> y = CMap fs \<and> compare_lists compare_entry es fs = OLess)"
  by (rule same_collection_cases [of x y]) (auto simp: compare_value_keys is_scalar_def)

lemma compare_lists_OEqual:
  "(\<And>x y. x \<in> set xs \<Longrightarrow> c x y = OEqual \<longleftrightarrow> x = y) \<Longrightarrow> compare_lists c xs ys = OEqual \<longleftrightarrow> xs = ys"
  by (induction c xs ys rule: compare_lists.induct) auto

lemma compare_lists_reversed:
  "(\<And>x y. x \<in> set xs \<Longrightarrow> d y x = reversed (c x y)) \<Longrightarrow> compare_lists d ys xs = reversed (compare_lists c xs ys)"
  by (induction c xs ys rule: compare_lists.induct) (auto simp: reversed_then_with)

lemma compare_lists_trans:
  assumes "\<And>x y. c x y = OEqual \<longleftrightarrow> x = y"
    and "\<And>x y z. x \<in> set xs \<Longrightarrow> c x y = OLess \<Longrightarrow> c y z = OLess \<Longrightarrow> c x z = OLess"
    and "compare_lists c xs ys = OLess" "compare_lists c ys zs = OLess"
  shows "compare_lists c xs zs = OLess"
  using assms(2-)
proof (induction xs arbitrary: ys zs)
  case Nil
  then show ?case by (cases ys; cases zs) auto
next
  case (Cons x xs)
  from Cons.prems(2) obtain y ys' where ys: "ys = y # ys'" by (cases ys) auto
  with Cons.prems(3) obtain z zs' where zs: "zs = z # zs'" by (cases zs) auto
  have "c x y = OLess \<or> x = y \<and> compare_lists c xs ys' = OLess"
    "c y z = OLess \<or> y = z \<and> compare_lists c ys' zs' = OLess"
    using Cons.prems(2,3) assms(1) by (auto simp: ys zs)
  then have "c x z = OLess \<or> x = z \<and> compare_lists c xs zs' = OLess"
  proof (elim disjE conjE)
    assume "c x y = OLess" "c y z = OLess"
    then show ?thesis using Cons.prems(1) [of x y z] by simp
  next
    assume "compare_lists c xs ys' = OLess" "compare_lists c ys' zs' = OLess" "x = y" "y = z"
    moreover have "compare_lists c xs zs' = OLess"
      by (rule Cons.IH [OF _ calculation(1,2)]) (rule Cons.prems(1), simp_all)
    ultimately show ?thesis by simp
  qed simp_all
  then show ?case using assms(1) by (auto simp: zs)
qed

lemma compare_value_OEqual: "compare_value x y = OEqual \<longleftrightarrow> x = y"
proof (induction x arbitrary: y rule: value_induct)
  case (scalar x)
  then show ?case by (simp add: compare_value_keys scalar_key_inject)
next
  case (list xs)
  show ?case
    by (rule same_collection_cases [of "CList xs" y])
       (auto simp: compare_value_keys compare_lists_OEqual list scalar_key_inject simp del: scalar_key.simps)
next
  case (map es)
  have "compare_entry e f = OEqual \<longleftrightarrow> e = f" if "e \<in> set es" for e f
    by (auto simp: compare_entry_def map [OF that] prod_eq_iff)
  then show ?case
    by (cases rule: same_collection_cases [of "CMap es" y])
       (auto simp: compare_value_keys compare_lists_OEqual scalar_key_inject simp del: scalar_key.simps)
qed

lemma compare_value_reversed: "compare_value y x = reversed (compare_value x y)"
proof (induction x arbitrary: y rule: value_induct)
  case (scalar x)
  then show ?case by (simp add: compare_value_keys compare_keys_reversed)
next
  case (list xs)
  show ?case
    by (rule same_collection_cases [of "CList xs" y])
       (auto simp: compare_value_keys compare_keys_reversed intro!: compare_lists_reversed list)
next
  case (map es)
  have "compare_entry f e = reversed (compare_entry e f)" if "e \<in> set es" for e f
    using map [OF that, of "snd f"] by (simp add: compare_entry_def reversed_then_with compare_keys_reversed)
  then show ?case
    by (cases rule: same_collection_cases [of "CMap es" y])
       (auto simp: compare_value_keys compare_keys_reversed intro!: compare_lists_reversed)
qed

lemma compare_value_trans:
  "compare_value x y = OLess \<Longrightarrow> compare_value y z = OLess \<Longrightarrow> compare_value x z = OLess"
proof (induction x arbitrary: y z rule: value_induct)
  case (scalar x)
  then have "scalar_key x < scalar_key y" by (auto simp: compare_value_less)
  moreover have "scalar_key y \<le> scalar_key z" using scalar.prems(2) by (auto simp: compare_value_less)
  ultimately have "scalar_key x < scalar_key z" by (rule less_le_trans)
  then show ?case by (simp add: compare_value_less)
next
  case (list xs)
  note trans = compare_lists_trans [OF compare_value_OEqual list.IH, of xs]
  from list.prems show ?case by (auto simp: compare_value_less intro: trans)
next
  case (map es)
  have eq: "compare_entry e f = OEqual \<longleftrightarrow> e = f" for e f
    by (auto simp: compare_entry_def compare_value_OEqual prod_eq_iff)
  have "compare_entry e g = OLess"
    if "e \<in> set es" "compare_entry e f = OLess" "compare_entry f g = OLess" for e f g
    using that(2,3) map.IH [OF that(1), of "snd f" "snd g"] by (auto simp: compare_entry_def compare_value_OEqual)
  note trans = compare_lists_trans [OF eq this]
  from map.prems show ?case by (auto simp: compare_value_less intro: trans)
qed

instantiation CanonicalVariableValue :: linorder
begin

definition less_CanonicalVariableValue where
  "x < y \<longleftrightarrow> compare_value x y = OLess"

definition less_eq_CanonicalVariableValue where
  "x \<le> y \<longleftrightarrow> compare_value x y \<noteq> OGreater"

instance
proof
  fix x y z :: CanonicalVariableValue
  have leq: "x \<le> y \<longleftrightarrow> x < y \<or> x = y" for x y :: CanonicalVariableValue
    by (cases "compare_value x y")
       (auto simp: less_eq_CanonicalVariableValue_def less_CanonicalVariableValue_def
         compare_value_OEqual [symmetric])
  have asym: "\<not> (x < y \<and> y < x)" for x y :: CanonicalVariableValue
    using compare_value_reversed [of x y] by (auto simp: less_CanonicalVariableValue_def)
  have trans: "x < y \<Longrightarrow> y < z \<Longrightarrow> x < z" for x y z :: CanonicalVariableValue
    unfolding less_CanonicalVariableValue_def by (rule compare_value_trans)
  show "x \<le> x" by (simp add: leq)
  show "(x < y) = (x \<le> y \<and> \<not> y \<le> x)" using asym [of x y] by (auto simp: leq)
  show "x \<le> y \<Longrightarrow> y \<le> z \<Longrightarrow> x \<le> z" using trans by (auto simp: leq)
  show "x \<le> y \<Longrightarrow> y \<le> x \<Longrightarrow> x = y" using asym [of x y] by (auto simp: leq)
  show "x \<le> y \<or> y \<le> x"
    using compare_value_reversed [of y x] compare_value_OEqual [of x y]
    by (cases "compare_value x y") (auto simp: leq less_CanonicalVariableValue_def)
qed

end

section \<open>Ordered maps inside a value\<close>

text \<open>\<^verbatim>\<open>BTreeMap::insert\<close> on the entries in ascending key order.\<close>

fun insert_entry :: "'k::linorder \<Rightarrow> 'v \<Rightarrow> ('k \<times> 'v) list \<Rightarrow> ('k \<times> 'v) list" where
  "insert_entry k v [] = [(k, v)]"
| "insert_entry k v ((l, w) # es) =
     (if k < l then (k, v) # (l, w) # es
      else if k = l then (k, v) # es
      else (l, w) # insert_entry k v es)"

lemma map_of_insert_entry:
  "sorted_wrt (<) (map fst es) \<Longrightarrow> map_of (insert_entry k v es) = (map_of es)(k \<mapsto> v)"
  by (induction es) (auto simp: fun_eq_iff)

lemma set_insert_entry: "set (map fst (insert_entry k v es)) = insert k (set (map fst es))"
  by (induction k v es rule: insert_entry.induct) (simp_all add: insert_commute)

lemma sorted_insert_entry: "sorted_wrt (<) (map fst es) \<Longrightarrow> sorted_wrt (<) (map fst (insert_entry k v es))"
proof (induction es)
  case (Cons e es)
  then show ?case using set_insert_entry [of k v es] by (cases e) force
qed simp

lemma entries_eqI:
  fixes es :: "('k::linorder \<times> 'v) list"
  assumes "sorted_wrt (<) (map fst es)" "sorted_wrt (<) (map fst fs)" "map_of es = map_of fs"
  shows "es = fs"
proof -
  note es = assms(1) [unfolded strict_sorted_iff] and fs = assms(2) [unfolded strict_sorted_iff]
  note distinct = conjunct2 [OF es] conjunct2 [OF fs]
  have "set (map fst es) = set (map fst fs)"
    using assms(3) by (metis dom_map_of_conv_image_fst set_map)
  then have keys: "map fst es = map fst fs"
    by (rule sorted_distinct_set_unique [OF conjunct1 [OF es] distinct(1) conjunct1 [OF fs] distinct(2)])
  have table: "map (\<lambda>k. (k, the (map_of es k))) (map fst es) = es"
    if "distinct (map fst es)" for es :: "('k \<times> 'v) list"
  proof -
    have "(fst e, the (map_of es (fst e))) = e" if "e \<in> set es" for e
      using map_of_is_SomeI [OF \<open>distinct (map fst es)\<close>, of "fst e" "snd e"] that by simp
    then show ?thesis by (simp add: map_idI)
  qed
  have "es = map (\<lambda>k. (k, the (map_of es k))) (map fst es)" by (rule table [OF distinct(1), symmetric])
  also have "\<dots> = fs" unfolding keys assms(3) by (rule table [OF distinct(2)])
  finally show ?thesis .
qed

function canonical_maps :: "CanonicalVariableValue \<Rightarrow> bool" where
  "canonical_maps v =
     (case v of
        CList xs \<Rightarrow> list_all canonical_maps xs
      | CMap es \<Rightarrow> sorted_wrt (<) (map fst es) \<and> list_all (\<lambda>e. canonical_maps (snd e)) es
      | _ \<Rightarrow> True)"
  by pat_completeness auto
termination
  by (relation "measure size") (auto dest: size_entry_less simp: less_Suc_eq_le size_list_estimation')

declare canonical_maps.simps [simp del]

lemma canonical_maps_simps [simp]:
  "canonical_maps (CList xs) \<longleftrightarrow> list_all canonical_maps xs"
  "canonical_maps (CMap es) \<longleftrightarrow> sorted_wrt (<) (map fst es) \<and> list_all (\<lambda>e. canonical_maps (snd e)) es"
  "is_scalar v \<Longrightarrow> canonical_maps v"
  by (simp_all add: canonical_maps.simps [of "CList _"] canonical_maps.simps [of "CMap _"])
     (cases v; simp add: canonical_maps.simps)

section \<open>Values as JSON\<close>

text \<open>How \<^verbatim>\<open>serde_json::Number\<close> is made from a machine integer.\<close>

record 'n number_ops =
  number_of_i64 :: "u64 \<Rightarrow> 'n"
  number_of_u64 :: "u64 \<Rightarrow> 'n"

fun approval_text :: "CanonicalApprovalResult \<Rightarrow> string" where
  "approval_text Approved = ''approved''"
| "approval_text Denied = ''denied''"
| "approval_text ApprovalCancelled = ''cancelled''"
| "approval_text ApprovalExpired = ''expired''"

function expression_value :: "'n number_ops \<Rightarrow> CanonicalVariableValue \<Rightarrow> 'n json" where
  "expression_value ops (CBoolean b) = JBool b"
| "expression_value ops (CInteger a) = JNumber (number_of_i64 ops a)"
| "expression_value ops (CTimestampMillis a) = JNumber (number_of_i64 ops a)"
| "expression_value ops (CDecimal s) = JString s"
| "expression_value ops (CString s) = JString s"
| "expression_value ops (CEnum s) = JString s"
| "expression_value ops (CSessionId s) = JString s"
| "expression_value ops (CChildId s) = JString s"
| "expression_value ops (CTaskId s) = JString s"
| "expression_value ops (CArtifactReference s) = JString s"
| "expression_value ops (CSecretReference s) = JString s"
| "expression_value ops (CToolResultReference s) = JString s"
| "expression_value ops (CNodeResultReference s) = JString s"
| "expression_value ops (CList xs) = JArray (map (expression_value ops) xs)"
| "expression_value ops (CMap es) = JObject (map (\<lambda>e. (fst e, expression_value ops (snd e))) es)"
| "expression_value ops (CApprovalResult r) = JString (approval_text r)"
| "expression_value ops (CDurationMillis a) = JNumber (number_of_u64 ops a)"
  by pat_completeness auto
termination
  by (relation "measure (\<lambda>(ops, v). size v)")
    (auto dest: size_entry_less simp: less_Suc_eq_le size_list_estimation')

section \<open>Artifact references\<close>

function collect_artifact_references :: "CanonicalVariableValue \<Rightarrow> string fset \<Rightarrow> string fset" where
  "collect_artifact_references v references =
     (case v of
        CArtifactReference reference \<Rightarrow> finsert reference references
      | CList xs \<Rightarrow> fold collect_artifact_references xs references
      | CMap es \<Rightarrow> fold (\<lambda>e. collect_artifact_references (snd e)) es references
      | _ \<Rightarrow> references)"
  by pat_completeness auto
termination
  by (relation "measure (\<lambda>(v, references). size v)")
    (auto dest: size_entry_less simp: less_Suc_eq_le size_list_estimation')

declare collect_artifact_references.simps [simp del]

definition artifact_references_of :: "CanonicalVariableValue \<Rightarrow> string fset" where
  "artifact_references_of v = collect_artifact_references v {||}"

end
