(* ===== verification/Variable_Decimal.thy ===== *)
theory Variable_Decimal
  imports Variable_Values Complex_Main
begin

text \<open>
  \<^verbatim>\<open>canonical_decimal\<close>: the one spelling of a base-ten number. The laws: it keeps the number, it
  is idempotent, and two spellings of one number become the same text.
\<close>

section \<open>The source's function\<close>

definition is_zero_digit :: "char \<Rightarrow> bool" where
  "is_zero_digit c \<longleftrightarrow> c = CHR ''0''"

definition trim_start_zeros :: "string \<Rightarrow> string" where
  "trim_start_zeros = dropWhile is_zero_digit"

definition trim_end_zeros :: "string \<Rightarrow> string" where
  "trim_end_zeros s = rev (dropWhile is_zero_digit (rev s))"

text \<open>The parts of \<^verbatim>\<open>unsigned.split('.')\<close>: the first, the second, and whether there is a third.\<close>

definition decimal_parts :: "string \<Rightarrow> string \<times> string option \<times> bool" where
  "decimal_parts digits =
     (case split_once (CHR ''.'') digits of
        None \<Rightarrow> (digits, None, False)
      | Some (integer, rest) \<Rightarrow>
          (case split_once (CHR ''.'') rest of
             None \<Rightarrow> (integer, Some rest, False)
           | Some (fraction, _) \<Rightarrow> (integer, Some fraction, True)))"

definition split_sign :: "string \<Rightarrow> bool \<times> string" where
  "split_sign input = (case strip_prefix ''-'' input of None \<Rightarrow> (False, input) | Some digits \<Rightarrow> (True, digits))"

definition integer_text :: "string \<Rightarrow> string" where
  "integer_text integer = (if trim_start_zeros integer = [] then ''0'' else trim_start_zeros integer)"

definition format_decimal :: "bool \<Rightarrow> string \<Rightarrow> string \<Rightarrow> string" where
  "format_decimal negative integer fraction =
     (let int_part = integer_text integer;
          frac_part = trim_end_zeros fraction;
          zero = (int_part = ''0'' \<and> frac_part = []);
          sign = (if negative \<and> \<not> zero then ''-'' else [])
      in if frac_part = [] then sign @ int_part else sign @ int_part @ ''.'' @ frac_part)"

definition canonical_decimal :: "string \<Rightarrow> string variables" where
  "canonical_decimal input =
     (if input = [] \<or> 128 < length input \<or> list_ex (\<lambda>c. c \<in> {CHR ''e'', CHR ''E'', CHR ''+''}) input
      then Err InvalidDecimal
      else let (negative, digits) = split_sign input;
               (integer, fraction, third) = decimal_parts digits
           in if third \<or> integer = [] \<or> \<not> list_all is_ascii_digit integer \<or>
                 (case fraction of None \<Rightarrow> False | Some f \<Rightarrow> f = [] \<or> \<not> list_all is_ascii_digit f)
              then Err InvalidDecimal
              else Ok (format_decimal negative integer (case fraction of None \<Rightarrow> [] | Some f \<Rightarrow> f)))"

section \<open>The number a decimal text denotes\<close>

definition digit_value :: "char \<Rightarrow> nat" where
  "digit_value c = char_code c - 48"

fun digits_value :: "string \<Rightarrow> nat" where
  "digits_value [] = 0"
| "digits_value (c # s) = digit_value c * 10 ^ length s + digits_value s"

definition unsigned_value :: "string \<Rightarrow> string \<Rightarrow> rat" where
  "unsigned_value integer fraction =
     of_nat (digits_value integer) + of_nat (digits_value fraction) / 10 ^ length fraction"

definition decimal_value :: "string \<Rightarrow> rat" where
  "decimal_value input =
     (let (negative, digits) = split_sign input;
          (integer, fraction, _) = decimal_parts digits;
          number = unsigned_value integer (case fraction of None \<Rightarrow> [] | Some f \<Rightarrow> f)
      in if negative then - number else number)"

section \<open>Digit strings\<close>

lemma digits_value_append: "digits_value (s @ t) = digits_value s * 10 ^ length t + digits_value t"
  by (induction s) (simp_all add: algebra_simps power_add)

lemma digit_value_less: "is_ascii_digit c \<Longrightarrow> digit_value c < 10"
  by (auto simp add: is_ascii_digit_def digit_value_def)

lemma digits_value_less: "list_all is_ascii_digit s \<Longrightarrow> digits_value s < 10 ^ length s"
proof (induction s)
  case (Cons c s)
  then have "digit_value c < 10" "digits_value s < 10 ^ length s" by (simp_all add: digit_value_less)
  then have "digit_value c * 10 ^ length s + digits_value s < (digit_value c + 1) * 10 ^ length s" by simp
  also have "\<dots> \<le> 10 * 10 ^ length s" using \<open>digit_value c < 10\<close> by (intro mult_right_mono) simp_all
  finally show ?case by simp
qed simp

lemma digit_value_inject:
  "is_ascii_digit c \<Longrightarrow> is_ascii_digit d \<Longrightarrow> digit_value c = digit_value d \<Longrightarrow> c = d"
  by (auto simp: is_ascii_digit_def digit_value_def dest: arg_cong [where f = "\<lambda>n. n + 48"])

lemma digits_value_inject:
  "length s = length t \<Longrightarrow> list_all is_ascii_digit s \<Longrightarrow> list_all is_ascii_digit t \<Longrightarrow>
   digits_value s = digits_value t \<Longrightarrow> s = t"
proof (induction s t rule: list_induct2)
  case (Cons c s d t)
  let ?b = "(10 :: nat) ^ length s"
  have less: "digits_value s < ?b" "digits_value t < ?b"
    using Cons.prems Cons.hyps digits_value_less [of s] digits_value_less [of t] by simp_all
  have eq: "digit_value c * ?b + digits_value s = digit_value d * ?b + digits_value t"
    using Cons.prems(3) Cons.hyps by simp
  have "(digit_value c * ?b + digits_value s) div ?b = digit_value c"
    "(digit_value d * ?b + digits_value t) div ?b = digit_value d" using less by simp_all
  then have d: "digit_value c = digit_value d" using eq by simp
  then have "digits_value s = digits_value t" using eq by simp
  then show ?case using Cons d digit_value_inject [of c d] by simp
qed simp

lemma digits_value_zeros [simp]: "digits_value (replicate n (CHR ''0'')) = 0"
  by (induction n) (simp_all add: digit_value_def char_code_def)

lemma zero_is_digit [simp]: "is_ascii_digit (CHR ''0'')"
  by (simp add: is_ascii_digit_def char_code_def)

lemma is_zero_digit_simps [simp]: "is_zero_digit (CHR ''0'')" "\<not> is_zero_digit c \<longleftrightarrow> c \<noteq> CHR ''0''"
  by (simp_all add: is_zero_digit_def)

subsection \<open>Trimming zeros\<close>

lemma takeWhile_zeros: "takeWhile is_zero_digit s = replicate (length (takeWhile is_zero_digit s)) (CHR ''0'')"
  by (rule replicate_eqI [symmetric, OF refl, THEN sym])
     (auto simp: is_zero_digit_def dest: set_takeWhileD)

lemma trim_start_split: "\<exists>n. s = replicate n (CHR ''0'') @ trim_start_zeros s"
  unfolding trim_start_zeros_def
  by (rule exI [of _ "length (takeWhile is_zero_digit s)"])
     (metis takeWhile_zeros takeWhile_dropWhile_id)

lemma trim_end_split: "\<exists>n. s = trim_end_zeros s @ replicate n (CHR ''0'')"
proof -
  obtain n where "rev s = replicate n (CHR ''0'') @ dropWhile is_zero_digit (rev s)"
    using trim_start_split [of "rev s"] by (auto simp: trim_start_zeros_def)
  then have "s = rev (replicate n (CHR ''0'') @ dropWhile is_zero_digit (rev s))" by (metis rev_rev_ident)
  then show ?thesis by (auto simp: trim_end_zeros_def intro: exI [of _ n])
qed

lemma trim_start_zeros_zeros [simp]: "trim_start_zeros (replicate n (CHR ''0'') @ s) = trim_start_zeros s"
  by (induction n) (simp_all add: trim_start_zeros_def)

lemma trim_end_zeros_zeros [simp]: "trim_end_zeros (s @ replicate n (CHR ''0'')) = trim_end_zeros s"
  using trim_start_zeros_zeros [of n "rev s"] by (simp add: trim_end_zeros_def trim_start_zeros_def)

lemma trim_zeros_idem [simp]:
  "trim_start_zeros (trim_start_zeros s) = trim_start_zeros s"
  "trim_end_zeros (trim_end_zeros s) = trim_end_zeros s"
  by (simp_all add: trim_start_zeros_def trim_end_zeros_def)

lemma trim_zeros_digits:
  "list_all is_ascii_digit s \<Longrightarrow> list_all is_ascii_digit (trim_start_zeros s)"
  "list_all is_ascii_digit s \<Longrightarrow> list_all is_ascii_digit (trim_end_zeros s)"
  unfolding trim_start_zeros_def trim_end_zeros_def list_all_iff by (auto dest: set_dropWhileD)

lemma trim_zeros_length: "length (trim_start_zeros s) \<le> length s" "length (trim_end_zeros s) \<le> length s"
  unfolding trim_start_zeros_def trim_end_zeros_def
  by (simp_all add: length_dropWhile_le) (metis length_dropWhile_le length_rev)

lemma digits_value_trim_start [simp]: "digits_value (trim_start_zeros s) = digits_value s"
  using trim_start_split [of s] digits_value_append by (metis add_0 digits_value_zeros mult_0)

text \<open>Digit strings of one value differ only in the zeros they are padded with.\<close>

lemma trim_start_inject:
  assumes "list_all is_ascii_digit s" "list_all is_ascii_digit t" "digits_value s = digits_value t"
  shows "trim_start_zeros s = trim_start_zeros t"
proof -
  let ?s = "replicate (length t) (CHR ''0'') @ s" and ?t = "replicate (length s) (CHR ''0'') @ t"
  have "?s = ?t"
    by (rule digits_value_inject) (use assms in \<open>auto simp: digits_value_append list_all_iff\<close>)
  then show ?thesis by (metis trim_start_zeros_zeros)
qed

lemma trim_end_inject:
  assumes "list_all is_ascii_digit s" "list_all is_ascii_digit t"
    and eq: "digits_value s * 10 ^ length t = digits_value t * 10 ^ length s"
  shows "trim_end_zeros s = trim_end_zeros t"
proof -
  let ?s = "s @ replicate (length t) (CHR ''0'')" and ?t = "t @ replicate (length s) (CHR ''0'')"
  have "?s = ?t"
    by (rule digits_value_inject) (use assms in \<open>auto simp: digits_value_append list_all_iff\<close>)
  then show ?thesis by (metis trim_end_zeros_zeros)
qed

section \<open>Numbers\<close>

lemma fraction_bounds:
  "list_all is_ascii_digit f \<Longrightarrow> (0 :: rat) \<le> of_nat (digits_value f) / 10 ^ length f \<and>
   of_nat (digits_value f) / 10 ^ length f < (1 :: rat)"
proof -
  assume "list_all is_ascii_digit f"
  from digits_value_less [OF this] have "of_nat (digits_value f) < (of_nat (10 ^ length f) :: rat)"
    by (simp only: of_nat_less_iff)
  then show ?thesis by simp
qed

lemma unsigned_value_nonneg: "0 \<le> unsigned_value i f"
  by (simp add: unsigned_value_def)

lemma unsigned_value_parts:
  assumes "list_all is_ascii_digit f" "list_all is_ascii_digit g" "unsigned_value i f = unsigned_value j g"
  shows "digits_value i = digits_value j" "digits_value f * 10 ^ length g = digits_value g * 10 ^ length f"
proof -
  have "floor (unsigned_value i f) = int (digits_value i)" "floor (unsigned_value j g) = int (digits_value j)"
    unfolding unsigned_value_def using fraction_bounds [OF assms(1)] fraction_bounds [OF assms(2)]
    by (simp_all add: floor_eq_iff)
  then show i: "digits_value i = digits_value j" using assms(3) by simp
  then have "(of_nat (digits_value f) / 10 ^ length f :: rat) = of_nat (digits_value g) / 10 ^ length g"
    using assms(3) by (simp add: unsigned_value_def)
  then have "(of_nat (digits_value f * 10 ^ length g) :: rat) = of_nat (digits_value g * 10 ^ length f)"
    by (simp add: field_simps)
  then show "digits_value f * 10 ^ length g = digits_value g * 10 ^ length f"
    by (simp only: of_nat_eq_iff)
qed

lemma unsigned_value_trim:
  "unsigned_value (trim_start_zeros i) (trim_end_zeros f) = unsigned_value i f"
proof -
  obtain n where n: "f = trim_end_zeros f @ replicate n (CHR ''0'')" using trim_end_split by blast
  have "of_nat (digits_value f) / 10 ^ length f =
      (of_nat (digits_value (trim_end_zeros f)) / 10 ^ length (trim_end_zeros f) :: rat)"
    by (subst (1 2) n) (simp add: digits_value_append power_add)
  then show ?thesis by (simp add: unsigned_value_def)
qed

section \<open>The canonical text\<close>

definition valid_parts :: "string \<Rightarrow> string \<Rightarrow> bool" where
  "valid_parts i f \<longleftrightarrow> i \<noteq> [] \<and> list_all is_ascii_digit i \<and> list_all is_ascii_digit f"

definition decimal_text :: "bool \<Rightarrow> string \<Rightarrow> string \<Rightarrow> string" where
  "decimal_text negative i f = (if negative then ''-'' else []) @ i @ (if f = [] then [] else CHR ''.'' # f)"

lemma digit_not_mark:
  "is_ascii_digit c \<Longrightarrow> c \<notin> {CHR ''.'', CHR ''-'', CHR ''e'', CHR ''E'', CHR ''+''}"
  by (auto simp: is_ascii_digit_def char_code_def)

lemma split_once_digits:
  assumes "list_all is_ascii_digit i"
  shows "split_once (CHR ''.'') i = None" "split_once (CHR ''.'') (i @ CHR ''.'' # f) = Some (i, f)"
proof -
  have "\<And>c. c \<in> set i \<Longrightarrow> c \<noteq> CHR ''.''" using assms by (auto simp: list_all_iff dest: digit_not_mark)
  then show "split_once (CHR ''.'') i = None" "split_once (CHR ''.'') (i @ CHR ''.'' # f) = Some (i, f)"
    by (simp_all add: split_once_def dropWhile_append2 takeWhile_append2 dropWhile_eq_Nil_conv [THEN iffD2])
qed

lemma split_once_SomeD: "split_once c s = Some (a, b) \<Longrightarrow> s = a @ c # b"
  by (auto simp: split_once_def split: list.splits dest!: dropWhile_eq_Cons_conv [THEN iffD1])

lemma split_sign_text: "valid_parts i f \<Longrightarrow> split_sign (decimal_text negative i f) = (negative, decimal_text False i f)"
  by (cases i) (auto simp: split_sign_def strip_prefix_def valid_parts_def decimal_text_def dest: digit_not_mark)

lemma split_signD: "split_sign s = (negative, digits) \<Longrightarrow> s = (if negative then ''-'' else []) @ digits"
  by (auto simp: split_sign_def strip_prefix_Some split: option.splits)

lemma decimal_parts_text:
  "valid_parts i f \<Longrightarrow>
   decimal_parts (decimal_text False i f) = (i, if f = [] then None else Some f, False)"
  by (simp add: decimal_parts_def decimal_text_def valid_parts_def split_once_digits)

lemma decimal_partsD:
  "decimal_parts digits = (i, None, third) \<Longrightarrow> digits = i \<and> \<not> third"
  "decimal_parts digits = (i, Some f, False) \<Longrightarrow> digits = i @ CHR ''.'' # f"
  by (auto simp: decimal_parts_def dest!: split_once_SomeD split: option.splits)

lemma canonical_decimal_iff:
  "canonical_decimal s = Ok t \<longleftrightarrow>
     (\<exists>negative i f. valid_parts i f \<and> s = decimal_text negative i f \<and> length s \<le> 128 \<and>
        t = format_decimal negative i f)" (is "?l \<longleftrightarrow> ?r")
proof
  assume l: ?l
  obtain negative digits where sign: "split_sign s = (negative, digits)" by force
  obtain i fraction third where parts: "decimal_parts digits = (i, fraction, third)" by (metis prod_cases3)
  have t: "t = format_decimal negative i (case fraction of None \<Rightarrow> [] | Some f \<Rightarrow> f)" "length s \<le> 128"
      "valid_parts i (case fraction of None \<Rightarrow> [] | Some f \<Rightarrow> f)" "\<not> third" "fraction \<noteq> Some []"
    using l sign parts by (auto simp: canonical_decimal_def valid_parts_def split: if_splits option.splits)
  have "s = decimal_text negative i (case fraction of None \<Rightarrow> [] | Some f \<Rightarrow> f)"
    using split_signD [OF sign] decimal_partsD parts t(4,5) by (cases fraction) (auto simp: decimal_text_def)
  then show ?r using t by blast
next
  assume ?r
  then obtain negative i f where v: "valid_parts i f" and s: "s = decimal_text negative i f"
    and "length s \<le> 128" "t = format_decimal negative i f" by blast
  moreover have "s \<noteq> []" "\<not> list_ex (\<lambda>c. c \<in> {CHR ''e'', CHR ''E'', CHR ''+''}) s"
    using v by (auto simp: s valid_parts_def decimal_text_def list_all_iff list_ex_iff dest: digit_not_mark)
  ultimately show ?l
    by (auto simp: canonical_decimal_def split_sign_text decimal_parts_text) (auto simp: valid_parts_def)
qed

lemma decimal_value_text:
  "valid_parts i f \<Longrightarrow> decimal_value (decimal_text negative i f) =
     (if negative then - unsigned_value i f else unsigned_value i f)"
  by (simp add: decimal_value_def split_sign_text decimal_parts_text)

subsection \<open>The normal form\<close>

definition is_zero_text :: "string \<Rightarrow> string \<Rightarrow> bool" where
  "is_zero_text i f \<longleftrightarrow> integer_text i = ''0'' \<and> trim_end_zeros f = []"

lemma format_decimal_text:
  "format_decimal negative i f =
   decimal_text (negative \<and> \<not> is_zero_text i f) (integer_text i) (trim_end_zeros f)"
  by (simp add: format_decimal_def decimal_text_def is_zero_text_def Let_def)

lemma integer_text_value [simp]: "digits_value (integer_text i) = digits_value i"
  using digits_value_trim_start [of i]
  by (cases "trim_start_zeros i = []") (simp_all add: integer_text_def digit_value_def char_code_def)

lemma integer_text_idem [simp]: "integer_text (integer_text i) = integer_text i"
  by (simp add: integer_text_def) (simp add: trim_start_zeros_def is_zero_digit_def)

lemma valid_parts_normal: "valid_parts i f \<Longrightarrow> valid_parts (integer_text i) (trim_end_zeros f)"
  by (auto simp: valid_parts_def integer_text_def trim_zeros_digits)

lemma length_integer_text: "i \<noteq> [] \<Longrightarrow> length (integer_text i) \<le> length i"
  using trim_zeros_length(1) [of i] by (auto simp: integer_text_def Suc_le_eq)

lemma unsigned_value_normal: "unsigned_value (integer_text i) (trim_end_zeros f) = unsigned_value i f"
  using unsigned_value_trim [of i f] by (simp add: unsigned_value_def)

lemma integer_text_inject:
  "list_all is_ascii_digit i \<Longrightarrow> list_all is_ascii_digit j \<Longrightarrow> digits_value i = digits_value j \<Longrightarrow>
   integer_text i = integer_text j"
  by (simp add: integer_text_def trim_start_inject [of i j])

lemma unsigned_value_inject:
  assumes "valid_parts i f" "valid_parts j g" "unsigned_value i f = unsigned_value j g"
  shows "integer_text i = integer_text j \<and> trim_end_zeros f = trim_end_zeros g"
  using assms unsigned_value_parts [of f g i j] integer_text_inject [of i j] trim_end_inject [of f g]
  by (simp add: valid_parts_def)

lemma is_zero_text_iff: "valid_parts i f \<Longrightarrow> is_zero_text i f \<longleftrightarrow> unsigned_value i f = 0"
proof
  assume v: "valid_parts i f" and "unsigned_value i f = 0"
  then show "is_zero_text i f"
    using unsigned_value_inject [of i f "''0''" "[]"]
    by (simp add: is_zero_text_def valid_parts_def unsigned_value_def digit_value_def char_code_def
        integer_text_def trim_start_zeros_def trim_end_zeros_def)
next
  assume "is_zero_text i f"
  then have "unsigned_value i f = unsigned_value ''0'' []" by (metis is_zero_text_def unsigned_value_normal)
  then show "unsigned_value i f = 0" by (simp add: unsigned_value_def digit_value_def char_code_def)
qed

lemma canonical_decimal_value: "canonical_decimal s = Ok t \<Longrightarrow> decimal_value t = decimal_value s"
  by (auto simp: canonical_decimal_iff format_decimal_text decimal_value_text valid_parts_normal
      unsigned_value_normal is_zero_text_iff)

lemma canonical_decimal_idem: "canonical_decimal s = Ok t \<Longrightarrow> canonical_decimal t = Ok t"
proof -
  assume "canonical_decimal s = Ok t"
  then obtain n i f where v: "valid_parts i f" and s: "s = decimal_text n i f" "length s \<le> 128"
    and t: "t = format_decimal n i f" by (auto simp: canonical_decimal_iff)
  have "length t \<le> length s"
    using v length_integer_text [of i] trim_zeros_length(2) [of f]
    by (auto simp: s t format_decimal_text decimal_text_def valid_parts_def)
  moreover have "t = format_decimal (n \<and> \<not> is_zero_text i f) (integer_text i) (trim_end_zeros f)"
    by (simp add: t format_decimal_text is_zero_text_def)
  ultimately show ?thesis
    using s valid_parts_normal [OF v] unfolding canonical_decimal_iff
    by (intro exI [of _ "n \<and> \<not> is_zero_text i f"] exI [of _ "integer_text i"] exI [of _ "trim_end_zeros f"])
       (simp add: t format_decimal_text)
qed

lemma canonical_decimal_unique:
  assumes "canonical_decimal a = Ok s" "canonical_decimal b = Ok t" "decimal_value a = decimal_value b"
  shows "s = t"
proof -
  obtain n i f where a: "valid_parts i f" "a = decimal_text n i f" "s = format_decimal n i f"
    using assms(1) by (auto simp: canonical_decimal_iff)
  obtain m j g where b: "valid_parts j g" "b = decimal_text m j g" "t = format_decimal m j g"
    using assms(2) by (auto simp: canonical_decimal_iff)
  have eq: "(if n then - unsigned_value i f else unsigned_value i f) =
      (if m then - unsigned_value j g else unsigned_value j g)"
    using assms(3) a b by (simp add: decimal_value_text)
  then have num: "unsigned_value i f = unsigned_value j g" and sign: "n = m \<or> unsigned_value i f = 0"
    using unsigned_value_nonneg [of i f] unsigned_value_nonneg [of j g] by (auto split: if_splits)
  then show ?thesis
    using unsigned_value_inject [OF a(1) b(1)] is_zero_text_iff [OF a(1)]
    by (auto simp: a(3) b(3) format_decimal_text is_zero_text_def)
qed

text \<open>
  C32. Two texts that \<open>canonical_decimal\<close> accepts become the same text exactly when they denote
  the same number; the result denotes that number, is not longer than the bound on decimals,
  and is its own canonical form.
\<close>

theorem decimal_normal_form:
  assumes "canonical_decimal a = Ok s" "canonical_decimal b = Ok t"
  shows "(s = t \<longleftrightarrow> decimal_value a = decimal_value b) \<and> decimal_value s = decimal_value a \<and>
    canonical_decimal s = Ok s \<and> length s \<le> 128"
  using canonical_decimal_unique [OF assms] canonical_decimal_value [OF assms(1)]
    canonical_decimal_value [OF assms(2)] canonical_decimal_idem [OF assms(1)]
  by (auto simp: canonical_decimal_iff)

lemma canonical_decimalI:
  "valid_parts i f \<Longrightarrow> s = decimal_text negative i f \<Longrightarrow> length s \<le> 128 \<Longrightarrow>
   format_decimal negative i f = t \<Longrightarrow> canonical_decimal s = Ok t"
  by (auto simp: canonical_decimal_iff)

lemma decimal_examples:
  "canonical_decimal ''-0012.500'' = Ok ''-12.5''" "canonical_decimal ''-12.5'' = Ok ''-12.5''"
proof -
  have "valid_parts ''0012'' ''500''" "valid_parts ''12'' ''5''"
    by (simp_all add: valid_parts_def is_ascii_digit_def char_code_def)
  moreover have "format_decimal True ''0012'' ''500'' = ''-12.5''" "format_decimal True ''12'' ''5'' = ''-12.5''"
    by (simp_all add: format_decimal_def integer_text_def trim_start_zeros_def trim_end_zeros_def is_zero_digit_def)
  moreover have "''-0012.500'' = decimal_text True ''0012'' ''500''" "''-12.5'' = decimal_text True ''12'' ''5''"
    by (simp_all add: decimal_text_def)
  moreover have "length ''-0012.500'' \<le> 128" "length ''-12.5'' \<le> 128" by simp_all
  ultimately show "canonical_decimal ''-0012.500'' = Ok ''-12.5''" "canonical_decimal ''-12.5'' = Ok ''-12.5''"
    by (metis canonical_decimalI)+
qed

theorem decimal_normal_form_witness:
  "decimal_value ''-0012.500'' = decimal_value ''-12.5''"
  using conjunct1 [OF decimal_normal_form [OF decimal_examples]] by blast

end
