(* ===== verification/Variable_Checks.thy ===== *)
theory Variable_Checks
  imports Variable_Decimal
begin

text \<open>
  \<^verbatim>\<open>apps/runtime/logic/src/canonical_variables.rs\<close>, second part: writers, the validation of
  declarations and of values against their declared type, and the merge of branch values.
  A counter that the source passes as \<^verbatim>\<open>&mut usize\<close> is an argument and the result.
\<close>

section \<open>Data\<close>

record VariableEnvironmentLimits =
  limit_variables :: nat
  limit_value_depth :: nat
  limit_value_items :: nat
  limit_map_key_bytes :: nat
  limit_reference_bytes :: nat
  limit_decimal_bytes :: nat
  limit_environment_bytes :: nat

definition default_environment_limits :: VariableEnvironmentLimits where
  "default_environment_limits = \<lparr>limit_variables = 1024, limit_value_depth = 32, limit_value_items = 8192,
     limit_map_key_bytes = 256, limit_reference_bytes = 4 * 1024, limit_decimal_bytes = 128,
     limit_environment_bytes = 1024 * 1024\<rparr>"

record BranchWriteContext =
  write_branch_id :: string
  write_stable_order :: nat
  serialized_shared_write :: bool

datatype VariableWriter =
    WriterRuntime
  | RuntimeRecorded string "BranchWriteContext option"
  | WriterNode string "BranchWriteContext option"

definition RUNTIME_PRODUCER :: string where "RUNTIME_PRODUCER = ''runtime''"

fun writer_node_id :: "VariableWriter \<Rightarrow> string" where
  "writer_node_id WriterRuntime = RUNTIME_PRODUCER"
| "writer_node_id (RuntimeRecorded i _) = i"
| "writer_node_id (WriterNode i _) = i"

fun writer_branch :: "VariableWriter \<Rightarrow> BranchWriteContext option" where
  "writer_branch WriterRuntime = None"
| "writer_branch (RuntimeRecorded _ branch) = branch"
| "writer_branch (WriterNode _ branch) = branch"

record BranchVariableValue =
  contribution_branch_id :: string
  contribution_order :: nat
  contribution_value :: CanonicalVariableValue

section \<open>Declarations\<close>

definition validate_limits :: "VariableEnvironmentLimits \<Rightarrow> unit variables" where
  "validate_limits limits =
     fail_if (limit_variables limits = 0 \<or> limit_value_depth limits = 0 \<or> limit_value_items limits = 0 \<or>
       limit_map_key_bytes limits = 0 \<or> limit_reference_bytes limits = 0 \<or>
       limit_decimal_bytes limits = 0 \<or> limit_environment_bytes limits = 0) InvalidLimits"

fun validate_declared_type :: "VariableValueType \<Rightarrow> VariableEnvironmentLimits \<Rightarrow> nat \<Rightarrow> unit variables" where
  "validate_declared_type t limits depth =
     rbind (fail_if (limit_value_depth limits < depth) DeclarationDepthExceeded) (\<lambda>_.
     case t of
       VEnum values \<Rightarrow>
         rbind (fail_if (values = {||}) (InvalidDeclaration ''empty enum'')) (\<lambda>_.
         fail_if (fBex values (\<lambda>v. v = [] \<or> has_control v)) (InvalidDeclaration ''invalid enum''))
     | VList item_type max_items \<Rightarrow>
         rbind (fail_if (max_items = 0 \<or> limit_value_items limits < max_items)
           (InvalidDeclaration ''invalid list bound'')) (\<lambda>_.
         validate_declared_type item_type limits (depth + 1))
     | VMap entry_type max_entries \<Rightarrow>
         rbind (fail_if (max_entries = 0 \<or> limit_value_items limits < max_entries)
           (InvalidDeclaration ''invalid map bound'')) (\<lambda>_.
         validate_declared_type entry_type limits (depth + 1))
     | _ \<Rightarrow> Ok ())"

declare validate_declared_type.simps [simp del]

definition merge_compatible :: "VariableMergePolicy option \<Rightarrow> VariableValueType \<Rightarrow> bool" where
  "merge_compatible policy t =
     (case policy of
        None \<Rightarrow> True
      | Some FirstBranch \<Rightarrow> True
      | Some Append \<Rightarrow> (case t of VList _ _ \<Rightarrow> True | _ \<Rightarrow> False)
      | Some Union \<Rightarrow> (case t of VList _ _ \<Rightarrow> True | _ \<Rightarrow> False)
      | Some DeepMerge \<Rightarrow> (case t of VMap _ _ \<Rightarrow> True | _ \<Rightarrow> False))"

definition validate_live_declaration ::
  "VariableDeclaration \<Rightarrow> VariableEnvironmentLimits \<Rightarrow> unit variables" where
  "validate_live_declaration declaration limits =
     rbind (fail_if (variable_name declaration = [] \<or> 256 < length (variable_name declaration) \<or>
         has_control (variable_name declaration) \<or> producer declaration = [] \<or>
         max_size_bytes declaration = 0 \<or> limit_environment_bytes limits < max_size_bytes declaration)
       (InvalidDeclaration (variable_name declaration))) (\<lambda>_.
     rbind (validate_declared_type (value_type declaration) limits 1) (\<lambda>_.
     rbind (fail_if ((value_type declaration = VSecretReference) \<noteq>
         (security_classification declaration = SecretReference)) SecurityViolation) (\<lambda>_.
     fail_if (\<not> merge_compatible (merge_policy declaration) (value_type declaration) \<or>
         (merge_policy declaration \<noteq> None \<and> mutability declaration \<noteq> Mutable))
       (InvalidDeclaration (variable_name declaration)))))"

section \<open>Writers\<close>

definition authorize_writer :: "VariableDeclaration \<Rightarrow> VariableWriter \<Rightarrow> unit variables" where
  "authorize_writer declaration writer =
     fail_if (producer declaration \<noteq> writer_node_id writer)
       (UnauthorizedWriter (variable_name declaration) (writer_node_id writer))"

definition authorize_replayed_writer :: "VariableDeclaration \<Rightarrow> VariableWriter \<Rightarrow> unit variables" where
  "authorize_replayed_writer declaration writer =
     fail_if (\<not> (producer declaration = writer_node_id writer \<or>
         (merge_policy declaration \<noteq> None \<and> (case writer of WriterNode _ None \<Rightarrow> True | _ \<Rightarrow> False))))
       (UnauthorizedWriter (variable_name declaration) (writer_node_id writer))"

definition validate_direct_write_scope ::
  "VariableDeclaration \<Rightarrow> VariableWriter \<Rightarrow> string option variables" where
  "validate_direct_write_scope declaration writer =
     (case (variable_scope declaration, writer_branch writer) of
        (ScopeBranch, Some branch) \<Rightarrow>
          if write_branch_id branch \<noteq> [] then Ok (Some (write_branch_id branch)) else Err BranchScopeMismatch
      | (ScopeBranch, None) \<Rightarrow> Err BranchScopeMismatch
      | (ScopeNode, _) \<Rightarrow> Ok None
      | (_, Some branch) \<Rightarrow>
          if merge_policy declaration \<noteq> None \<or> \<not> serialized_shared_write branch
          then Err InvalidBranchWrite else Ok None
      | (_, None) \<Rightarrow> Ok None)"

definition validate_direct_write_scope_replayed ::
  "VariableDeclaration \<Rightarrow> VariableWriter \<Rightarrow> string option \<Rightarrow> string option variables" where
  "validate_direct_write_scope_replayed declaration writer retained_branch_id =
     rbind (validate_direct_write_scope declaration writer) (\<lambda>branch.
     rbind (fail_if (variable_scope declaration \<noteq> ScopeBranch \<and> retained_branch_id \<noteq> None)
       BranchScopeMismatch) (\<lambda>_. Ok branch))"

section \<open>Values against their declared type\<close>

definition add_items :: "nat \<Rightarrow> nat \<Rightarrow> VariableEnvironmentLimits \<Rightarrow> nat variables" where
  "add_items count added limits =
     (if usize_max < count + added then Err ValueItemLimitExceeded
      else if limit_value_items limits < count + added then Err ValueItemLimitExceeded
      else Ok (count + added))"

definition validate_reference :: "string \<Rightarrow> VariableEnvironmentLimits \<Rightarrow> unit variables" where
  "validate_reference s limits =
     fail_if (s = [] \<or> limit_reference_bytes limits < length s \<or> has_control s) InvalidReference"

definition validate_map_key :: "string \<Rightarrow> VariableEnvironmentLimits \<Rightarrow> unit variables" where
  "validate_map_key key limits =
     fail_if (key = [] \<or> limit_map_key_bytes limits < length key \<or> has_control key) InvalidMapKey"

fun is_secret_reference :: "CanonicalVariableValue \<Rightarrow> bool" where
  "is_secret_reference (CSecretReference _) = True"
| "is_secret_reference _ = False"

fun is_runtime_writer :: "VariableWriter \<Rightarrow> bool" where
  "is_runtime_writer (WriterNode _ _) = False"
| "is_runtime_writer _ = True"

text \<open>The rows of the source's table for a value that is neither a list nor a map.\<close>

definition validate_scalar ::
  "CanonicalVariableValue \<Rightarrow> VariableValueType \<Rightarrow> VariableWriter \<Rightarrow> VariableEnvironmentLimits \<Rightarrow> unit variables" where
  "validate_scalar v t writer limits =
     (case v of
        CBoolean _ \<Rightarrow> fail_if (t \<noteq> VBoolean) ValueTypeMismatch
      | CInteger _ \<Rightarrow> fail_if (t \<noteq> VInteger) ValueTypeMismatch
      | CString _ \<Rightarrow> fail_if (t \<noteq> VString) ValueTypeMismatch
      | CApprovalResult _ \<Rightarrow> fail_if (t \<noteq> VApprovalResult) ValueTypeMismatch
      | CDecimal s \<Rightarrow>
          rbind (fail_if (t \<noteq> VDecimal) ValueTypeMismatch) (\<lambda>_.
          rbind (fail_if (limit_decimal_bytes limits < length s) InvalidDecimal) (\<lambda>_.
          rbind (canonical_decimal s) (\<lambda>canonical. fail_if (canonical \<noteq> s) InvalidDecimal)))
      | CEnum tag \<Rightarrow>
          (case t of VEnum values \<Rightarrow> fail_if (tag |\<notin>| values) InvalidEnum | _ \<Rightarrow> Err ValueTypeMismatch)
      | CSessionId s \<Rightarrow> rbind (fail_if (t \<noteq> VSessionId) ValueTypeMismatch) (\<lambda>_. validate_reference s limits)
      | CChildId s \<Rightarrow> rbind (fail_if (t \<noteq> VChildId) ValueTypeMismatch) (\<lambda>_. validate_reference s limits)
      | CTaskId s \<Rightarrow> rbind (fail_if (t \<noteq> VTaskId) ValueTypeMismatch) (\<lambda>_. validate_reference s limits)
      | CArtifactReference s \<Rightarrow>
          rbind (fail_if (t \<noteq> VArtifactReference) ValueTypeMismatch) (\<lambda>_. validate_reference s limits)
      | CSecretReference s \<Rightarrow>
          rbind (fail_if (t \<noteq> VSecretReference) ValueTypeMismatch) (\<lambda>_. validate_reference s limits)
      | CToolResultReference s \<Rightarrow>
          rbind (fail_if (t \<noteq> VToolResultReference) ValueTypeMismatch) (\<lambda>_. validate_reference s limits)
      | CNodeResultReference s \<Rightarrow>
          rbind (fail_if (t \<noteq> VNodeResultReference) ValueTypeMismatch) (\<lambda>_. validate_reference s limits)
      | CTimestampMillis _ \<Rightarrow>
          rbind (fail_if (t \<noteq> VTimestamp) ValueTypeMismatch) (\<lambda>_.
          fail_if (\<not> is_runtime_writer writer) RuntimeRecordedValueRequired)
      | CDurationMillis _ \<Rightarrow>
          rbind (fail_if (t \<noteq> VDuration) ValueTypeMismatch) (\<lambda>_.
          fail_if (\<not> is_runtime_writer writer) RuntimeRecordedValueRequired)
      | _ \<Rightarrow> Err ValueTypeMismatch)"

function validate_value_type ::
  "CanonicalVariableValue \<Rightarrow> VariableValueType \<Rightarrow> SecurityClassification \<Rightarrow> VariableWriter \<Rightarrow>
   VariableEnvironmentLimits \<Rightarrow> nat \<Rightarrow> nat \<Rightarrow> nat variables" where
  "validate_value_type v t classification writer limits depth item_count =
     rbind (fail_if (limit_value_depth limits < depth) ValueDepthExceeded) (\<lambda>_.
     rbind (fail_if (classification = SecretReference \<and> \<not> is_secret_reference v) SecurityViolation) (\<lambda>_.
     rbind (fail_if (classification \<noteq> SecretReference \<and> is_secret_reference v) SecurityViolation) (\<lambda>_.
     case v of
       CList values \<Rightarrow>
         (case t of
            VList item_type max_items \<Rightarrow>
              rbind (fail_if (max_items < length values) CollectionBoundExceeded) (\<lambda>_.
              rbind (add_items item_count (length values) limits) (\<lambda>n.
              try_fold (\<lambda>n x. validate_value_type x item_type classification writer limits (depth + 1) n) values n))
          | _ \<Rightarrow> Err ValueTypeMismatch)
     | CMap items \<Rightarrow>
         (case t of
            VMap entry_type max_entries \<Rightarrow>
              rbind (fail_if (max_entries < length items) CollectionBoundExceeded) (\<lambda>_.
              rbind (add_items item_count (length items) limits) (\<lambda>n.
              try_fold (\<lambda>n entry.
                rbind (validate_map_key (fst entry) limits) (\<lambda>_.
                validate_value_type (snd entry) entry_type classification writer limits (depth + 1) n)) items n))
          | _ \<Rightarrow> Err ValueTypeMismatch)
     | _ \<Rightarrow> rbind (validate_scalar v t writer limits) (\<lambda>_. Ok item_count))))"
  by pat_completeness auto
termination
  by (relation "measure (\<lambda>(v, _). size v)")
    (auto dest: size_entry_less simp: less_Suc_eq_le size_list_estimation')

declare validate_value_type.simps [simp del]

section \<open>Merging the values of branches\<close>

function deep_merge ::
  "(string \<times> CanonicalVariableValue) list \<Rightarrow> (string \<times> CanonicalVariableValue) list \<Rightarrow>
   (string \<times> CanonicalVariableValue) list variables" where
  "deep_merge target [] = Ok target"
| "deep_merge target ((key, v) # source) =
     rbind (case map_of target key of
              None \<Rightarrow> Ok (insert_entry key v target)
            | Some existing \<Rightarrow>
                (case (existing, v) of
                   (CMap target_map, CMap source_map) \<Rightarrow>
                     rbind (deep_merge target_map source_map) (\<lambda>merged. Ok (insert_entry key (CMap merged) target))
                 | _ \<Rightarrow> if existing = v then Ok target else Err MergeConflict))
       (\<lambda>target. deep_merge target source)"
  by pat_completeness auto
termination
  by (relation "measure (\<lambda>(target, source). size (CMap source))") auto

definition append_branch :: "CanonicalVariableValue list \<Rightarrow> BranchVariableValue \<Rightarrow> CanonicalVariableValue list variables" where
  "append_branch merged branch =
     (case contribution_value branch of CList values \<Rightarrow> Ok (merged @ values) | _ \<Rightarrow> Err InvalidMergeValue)"

definition union_branch :: "CanonicalVariableValue fset \<Rightarrow> BranchVariableValue \<Rightarrow> CanonicalVariableValue fset variables" where
  "union_branch merged branch =
     (case contribution_value branch of
        CList values \<Rightarrow> Ok (merged |\<union>| fset_of_list values) | _ \<Rightarrow> Err InvalidMergeValue)"

definition deep_merge_branch ::
  "(string \<times> CanonicalVariableValue) list \<Rightarrow> BranchVariableValue \<Rightarrow>
   (string \<times> CanonicalVariableValue) list variables" where
  "deep_merge_branch merged branch =
     (case contribution_value branch of CMap values \<Rightarrow> deep_merge merged values | _ \<Rightarrow> Err InvalidMergeValue)"

definition merge_values :: "VariableMergePolicy \<Rightarrow> BranchVariableValue list \<Rightarrow> CanonicalVariableValue variables" where
  "merge_values policy branches =
     (case policy of
        Append \<Rightarrow> rbind (try_fold append_branch branches []) (\<lambda>merged. Ok (CList merged))
      | Union \<Rightarrow> rbind (try_fold union_branch branches {||}) (\<lambda>merged. Ok (CList (sorted_list_of_fset merged)))
      | DeepMerge \<Rightarrow> rbind (try_fold deep_merge_branch branches []) (\<lambda>merged. Ok (CMap merged))
      | FirstBranch \<Rightarrow> (case branches of [] \<Rightarrow> Err EmptyMerge | branch # _ \<Rightarrow> Ok (contribution_value branch)))"

definition sort_branches :: "BranchVariableValue list \<Rightarrow> BranchVariableValue list" where
  "sort_branches = sort_key (\<lambda>b. (contribution_order b, contribution_branch_id b))"

text \<open>\<^verbatim>\<open>branches.iter().any(|b| b.branch_id.is_empty() || !ids.insert(..))\<close>.\<close>

definition has_duplicate_branch :: "BranchVariableValue list \<Rightarrow> bool" where
  "has_duplicate_branch branches \<longleftrightarrow>
     [] \<in> set (map contribution_branch_id branches) \<or> \<not> distinct (map contribution_branch_id branches)"

end
