(* ===== verification/Variable_Environment.thy ===== *)
theory Variable_Environment
  imports Variable_Checks
begin

text \<open>
  \<^verbatim>\<open>apps/runtime/logic/src/canonical_variables.rs\<close>, third part: the live environment of one
  graph run. A method on \<^verbatim>\<open>&mut self\<close> that returns a \<^verbatim>\<open>Result\<close> is a function to the result and
  the environment afterwards, so that what a failed call leaves behind is part of the model;
  \<open>try_in\<close> is the \<^verbatim>\<open>?\<close> operator in such a method.
\<close>

section \<open>State\<close>

record CanonicalVariableEntry =
  entry_value :: CanonicalVariableValue
  entry_version :: u64
  entry_value_hash :: ContentHash
  entry_writer :: VariableWriter
  entry_branch_id :: "string option"

record CanonicalVariableEnvironment =
  env_declarations :: "(string, VariableDeclaration) fmap"
  env_entries :: "(string, CanonicalVariableEntry) fmap"
  env_limits :: VariableEnvironmentLimits

record VariableReader =
  reader_node_id :: string
  reader_branch_id :: "string option"

text \<open>External code: canonical serialization of a value, and BLAKE3.\<close>

record variable_ops =
  value_to_vec :: "CanonicalVariableValue \<Rightarrow> bytes option"
  variable_blake3 :: "bytes \<Rightarrow> bytes"

definition try_in :: "'s \<Rightarrow> ('a, 'e) result \<Rightarrow> ('a \<Rightarrow> ('b, 'e) result \<times> 's) \<Rightarrow> ('b, 'e) result \<times> 's" where
  "try_in s r k = (case r of Ok x \<Rightarrow> k x | Err e \<Rightarrow> (Err e, s))"

lemma try_in_simps [simp]: "try_in s (Ok x) k = k x" "try_in s (Err e) k = (Err e, s)"
  by (simp_all add: try_in_def)

lemma try_in_eq_Ok [result_simps]: "try_in s r k = (Ok y, s') \<longleftrightarrow> (\<exists>x. r = Ok x \<and> k x = (Ok y, s'))"
  by (cases r) auto

lemma try_in_error_keeps:
  "(\<And>x. r = Ok x \<Longrightarrow> fst (k x) = Err e \<Longrightarrow> snd (k x) = s) \<Longrightarrow> fst (try_in s r k) = Err e \<Longrightarrow> snd (try_in s r k) = s"
  by (cases r) auto

section \<open>Operations\<close>

definition canonical_value_bytes :: "variable_ops \<Rightarrow> CanonicalVariableValue \<Rightarrow> bytes variables" where
  "canonical_value_bytes ops v = ok_or Serialization (value_to_vec ops v)"

definition value_hash :: "variable_ops \<Rightarrow> CanonicalVariableValue \<Rightarrow> ContentHash variables" where
  "value_hash ops v =
     rbind (canonical_value_bytes ops v) (\<lambda>bs. Ok (ContentHash_digest (variable_blake3 ops) bs))"

definition add_declaration ::
  "VariableEnvironmentLimits \<Rightarrow> (string, VariableDeclaration) fmap \<Rightarrow> VariableDeclaration \<Rightarrow>
   (string, VariableDeclaration) fmap variables" where
  "add_declaration limits by_name declaration =
     rbind (validate_live_declaration declaration limits) (\<lambda>_.
     rbind (fail_if (variable_name declaration |\<in>| fmdom by_name)
       (DuplicateDeclaration (variable_name declaration))) (\<lambda>_.
     Ok (fmupd (variable_name declaration) declaration by_name)))"

definition environment_new ::
  "VariableDeclaration list \<Rightarrow> VariableEnvironmentLimits \<Rightarrow> CanonicalVariableEnvironment variables" where
  "environment_new declarations limits =
     rbind (validate_limits limits) (\<lambda>_.
     rbind (try_fold (add_declaration limits) declarations fmempty) (\<lambda>by_name.
     rbind (fail_if (limit_variables limits < fcard (fmdom by_name)) VariableLimitExceeded) (\<lambda>_.
     Ok \<lparr>env_declarations = by_name, env_entries = fmempty, env_limits = limits\<rparr>)))"

definition declaration_of ::
  "CanonicalVariableEnvironment \<Rightarrow> string \<Rightarrow> VariableDeclaration variables" where
  "declaration_of env name = ok_or (UndeclaredVariable name) (fmlookup (env_declarations env) name)"

definition validate_value ::
  "variable_ops \<Rightarrow> CanonicalVariableEnvironment \<Rightarrow> VariableDeclaration \<Rightarrow> VariableWriter \<Rightarrow>
   CanonicalVariableValue \<Rightarrow> unit variables" where
  "validate_value ops env declaration writer v =
     rbind (validate_value_type v (value_type declaration) (security_classification declaration) writer
       (env_limits env) 1 0) (\<lambda>_.
     rbind (canonical_value_bytes ops v) (\<lambda>bs.
     fail_if (max_size_bytes declaration < length bs) (DeclaredSizeExceeded (variable_name declaration))))"

definition add_size :: "variable_ops \<Rightarrow> nat \<Rightarrow> CanonicalVariableEntry \<Rightarrow> nat variables" where
  "add_size ops size_so_far entry =
     rbind (canonical_value_bytes ops (entry_value entry)) (\<lambda>bs.
     rbind (fail_if (usize_max < size_so_far + length bs) EnvironmentSizeExceeded) (\<lambda>_.
     Ok (size_so_far + length bs)))"

definition validate_environment_size :: "variable_ops \<Rightarrow> CanonicalVariableEnvironment \<Rightarrow> unit variables" where
  "validate_environment_size ops env =
     rbind (try_fold (add_size ops) (map snd (sorted_list_of_fmap (env_entries env))) 0) (\<lambda>size_of_all.
     fail_if (limit_environment_bytes (env_limits env) < size_of_all) EnvironmentSizeExceeded)"

definition next_version ::
  "CanonicalVariableEntry option \<Rightarrow> VariableMutability \<Rightarrow> u64 option \<Rightarrow> u64 variables" where
  "next_version existing declared_mutability expected_version =
     (case existing of
        None \<Rightarrow> if expected_version = None then Ok 1 else Err VersionMismatch
      | Some entry \<Rightarrow>
          if declared_mutability = Immutable then Err ImmutableReassignment
          else if expected_version = Some (entry_version entry)
          then ok_or VersionOverflow (checked_add_u64 (entry_version entry) 1)
          else Err VersionMismatch)"

text \<open>The second half of \<^verbatim>\<open>install\<close>: insert, check the size of all values, and roll back.\<close>

definition insert_entry_checked ::
  "variable_ops \<Rightarrow> CanonicalVariableEnvironment \<Rightarrow> string \<Rightarrow> CanonicalVariableEntry \<Rightarrow>
   CanonicalVariableEntry variables \<times> CanonicalVariableEnvironment" where
  "insert_entry_checked ops env name entry =
     (let prior = fmlookup (env_entries env) name;
          inserted = env\<lparr>env_entries := fmupd name entry (env_entries env)\<rparr>
      in case validate_environment_size ops inserted of
           Err e \<Rightarrow>
             (Err e, inserted\<lparr>env_entries := (case prior of
                Some entry \<Rightarrow> fmupd name entry (env_entries inserted)
              | None \<Rightarrow> fmdrop name (env_entries inserted))\<rparr>)
         | Ok _ \<Rightarrow> (ok_or InternalInvariant (fmlookup (env_entries inserted) name), inserted))"

definition install ::
  "variable_ops \<Rightarrow> CanonicalVariableEnvironment \<Rightarrow> string \<Rightarrow> VariableMutability \<Rightarrow> VariableWriter \<Rightarrow>
   string option \<Rightarrow> u64 option \<Rightarrow> CanonicalVariableValue \<Rightarrow>
   CanonicalVariableEntry variables \<times> CanonicalVariableEnvironment" where
  "install ops env name declared_mutability writer branch_id expected_version v =
     try_in env (next_version (fmlookup (env_entries env) name) declared_mutability expected_version) (\<lambda>version.
     try_in env (value_hash ops v) (\<lambda>hash.
     insert_entry_checked ops env name \<lparr>entry_value = v, entry_version = version, entry_value_hash = hash,
       entry_writer = writer, entry_branch_id = branch_id\<rparr>))"

definition assign ::
  "variable_ops \<Rightarrow> CanonicalVariableEnvironment \<Rightarrow> string \<Rightarrow> VariableWriter \<Rightarrow> u64 option \<Rightarrow>
   CanonicalVariableValue \<Rightarrow> CanonicalVariableEntry variables \<times> CanonicalVariableEnvironment" where
  "assign ops env name writer expected_version v =
     try_in env (declaration_of env name) (\<lambda>declaration.
     try_in env (authorize_writer declaration writer) (\<lambda>_.
     try_in env (validate_direct_write_scope declaration writer) (\<lambda>branch_id.
     try_in env (validate_value ops env declaration writer v) (\<lambda>_.
     install ops env name (mutability declaration) writer branch_id expected_version v))))"

definition merge_branches ::
  "variable_ops \<Rightarrow> CanonicalVariableEnvironment \<Rightarrow> string \<Rightarrow> VariableWriter \<Rightarrow> u64 option \<Rightarrow>
   BranchVariableValue list \<Rightarrow> CanonicalVariableEntry variables \<times> CanonicalVariableEnvironment" where
  "merge_branches ops env name writer expected_version branches =
     try_in env (declaration_of env name) (\<lambda>declaration.
     try_in env (fail_if (writer_branch writer \<noteq> None) InvalidBranchWrite) (\<lambda>_.
     try_in env (fail_if (variable_scope declaration = ScopeBranch) InvalidBranchWrite) (\<lambda>_.
     try_in env (ok_or MissingMergePolicy (merge_policy declaration)) (\<lambda>policy.
     try_in env (fail_if (branches = []) EmptyMerge) (\<lambda>_.
     let branches = sort_branches branches in
     try_in env (fail_if (has_duplicate_branch branches) DuplicateBranch) (\<lambda>_.
     try_in env (check_all (\<lambda>b. validate_value ops env declaration writer (contribution_value b)) branches) (\<lambda>_.
     try_in env (merge_values policy branches) (\<lambda>v.
     try_in env (validate_value ops env declaration writer v) (\<lambda>_.
     install ops env name (mutability declaration) writer None expected_version v)))))))))"

definition read_variable ::
  "CanonicalVariableEnvironment \<Rightarrow> string \<Rightarrow> VariableReader \<Rightarrow> CanonicalVariableEntry variables" where
  "read_variable env name reader =
     rbind (declaration_of env name) (\<lambda>declaration.
     rbind (fail_if (reader_node_id reader |\<notin>| consumers declaration)
       (UnauthorizedReader name (reader_node_id reader))) (\<lambda>_.
     rbind (ok_or (MissingValue name) (fmlookup (env_entries env) name)) (\<lambda>entry.
     rbind (fail_if (variable_scope declaration = ScopeBranch \<and> entry_branch_id entry \<noteq> reader_branch_id reader)
       BranchScopeMismatch) (\<lambda>_. Ok entry))))"

definition validate_parallel_contribution ::
  "variable_ops \<Rightarrow> CanonicalVariableEnvironment \<Rightarrow> string \<Rightarrow> CanonicalVariableValue \<Rightarrow> unit variables" where
  "validate_parallel_contribution ops env name v =
     rbind (declaration_of env name) (\<lambda>declaration.
     rbind (fail_if (variable_scope declaration \<notin> {ScopeRun, ScopeSession} \<or> merge_policy declaration = None)
       InvalidBranchWrite) (\<lambda>_.
     validate_value ops env declaration (WriterNode (producer declaration) None) v))"

section \<open>Replayed state\<close>

definition validate_replayed_entry ::
  "variable_ops \<Rightarrow> CanonicalVariableEnvironment \<Rightarrow> string \<times> CanonicalVariableEntry \<Rightarrow> unit variables" where
  "validate_replayed_entry ops env = (\<lambda>(name, entry).
     rbind (declaration_of env name) (\<lambda>declaration.
     rbind (fail_if (entry_version entry = 0) InvalidVersion) (\<lambda>_.
     rbind (authorize_replayed_writer declaration (entry_writer entry)) (\<lambda>_.
     rbind (validate_direct_write_scope_replayed declaration (entry_writer entry) (entry_branch_id entry)) (\<lambda>branch.
     rbind (fail_if (branch \<noteq> entry_branch_id entry) BranchScopeMismatch) (\<lambda>_.
     rbind (validate_value ops env declaration (entry_writer entry) (entry_value entry)) (\<lambda>_.
     rbind (value_hash ops (entry_value entry)) (\<lambda>hash.
     fail_if (hash \<noteq> entry_value_hash entry) (ValueHashMismatch name)))))))))"

definition validate_replayed_declaration ::
  "VariableEnvironmentLimits \<Rightarrow> string \<times> VariableDeclaration \<Rightarrow> unit variables" where
  "validate_replayed_declaration limits = (\<lambda>(name, declaration).
     rbind (fail_if (name \<noteq> variable_name declaration) DeclarationKeyMismatch) (\<lambda>_.
     validate_live_declaration declaration limits))"

definition validate_replayed :: "variable_ops \<Rightarrow> CanonicalVariableEnvironment \<Rightarrow> unit variables" where
  "validate_replayed ops env =
     rbind (validate_limits (env_limits env)) (\<lambda>_.
     rbind (fail_if (limit_variables (env_limits env) < fcard (fmdom (env_declarations env)))
       VariableLimitExceeded) (\<lambda>_.
     rbind (check_all (validate_replayed_declaration (env_limits env))
       (sorted_list_of_fmap (env_declarations env))) (\<lambda>_.
     rbind (check_all (validate_replayed_entry ops env) (sorted_list_of_fmap (env_entries env))) (\<lambda>_.
     validate_environment_size ops env))))"

end
