(* ===== verification/Variable_State.thy ===== *)
theory Variable_State
  imports Variable_Environment "HOL-Library.Multiset"
begin

text \<open>
  What the environment promises: a call that fails leaves the environment as it was, a call
  that succeeds changes one entry and moves its version by one, and every environment that
  the operations produce passes the check that replay makes of it.
\<close>

section \<open>Installing a value\<close>

lemma fmupd_same: "fmlookup m k = Some v \<Longrightarrow> fmupd k v m = m"
  by (rule fmap_ext) auto

lemma fmdrop_fmupd_new: "fmlookup m k = None \<Longrightarrow> fmdrop k (fmupd k w m) = m"
  by (rule fmap_ext) auto

lemma insert_entry_checked_Err:
  "fst (insert_entry_checked ops env name entry) = Err e \<Longrightarrow> snd (insert_entry_checked ops env name entry) = env"
  by (auto simp: insert_entry_checked_def Let_def fmupd_same fmdrop_fmupd_new split: result.splits option.splits)

lemma insert_entry_checked_Ok:
  "insert_entry_checked ops env name entry = (Ok entry', env') \<longleftrightarrow>
     entry' = entry \<and> env' = env\<lparr>env_entries := fmupd name entry (env_entries env)\<rparr> \<and>
     validate_environment_size ops env' = Ok ()"
  by (cases "validate_environment_size ops (env\<lparr>env_entries := fmupd name entry (env_entries env)\<rparr>)")
     (auto simp: insert_entry_checked_def Let_def)

lemma next_version_Ok:
  "next_version existing m expected = Ok version \<longleftrightarrow>
     expected = map_option entry_version existing \<and>
     (case existing of
        None \<Rightarrow> version = 1
      | Some entry \<Rightarrow> m = Mutable \<and> checked_add_u64 (entry_version entry) 1 = Some version)"
  by (cases m) (auto simp: next_version_def result_simps split: option.splits)

lemma next_version_unat:
  "next_version existing m expected = Ok version \<Longrightarrow>
   unat version = (case existing of None \<Rightarrow> 1 | Some entry \<Rightarrow> Suc (unat (entry_version entry)))"
  by (auto simp: next_version_Ok dest: checked_add_u64_Some split: option.splits)

lemma install_Err: "fst (install ops env name m writer b expected v) = Err e \<Longrightarrow>
  snd (install ops env name m writer b expected v) = env"
  unfolding install_def by (intro try_in_error_keeps) (auto dest: insert_entry_checked_Err)

lemma install_Ok:
  assumes "install ops env name m writer b expected v = (Ok entry, env')"
  shows "env' = env\<lparr>env_entries := fmupd name entry (env_entries env)\<rparr>"
    and "entry_value entry = v" "entry_writer entry = writer" "entry_branch_id entry = b"
    and "value_hash ops v = Ok (entry_value_hash entry)"
    and "next_version (fmlookup (env_entries env) name) m expected = Ok (entry_version entry)"
    and "validate_environment_size ops env' = Ok ()"
  using assms by (auto simp: install_def insert_entry_checked_Ok result_simps)

definition installs ::
  "variable_ops \<Rightarrow> CanonicalVariableEnvironment \<Rightarrow> string \<Rightarrow> VariableWriter \<Rightarrow> u64 option \<Rightarrow>
   CanonicalVariableValue \<Rightarrow> CanonicalVariableEntry \<Rightarrow> CanonicalVariableEnvironment \<Rightarrow> bool" where
  "installs ops env name writer expected v entry env' \<longleftrightarrow>
     env' = env\<lparr>env_entries := fmupd name entry (env_entries env)\<rparr> \<and>
     entry_value entry = v \<and> entry_writer entry = writer \<and>
     expected = map_option entry_version (fmlookup (env_entries env) name) \<and>
     unat (entry_version entry) =
       (case fmlookup (env_entries env) name of None \<Rightarrow> 1 | Some prior \<Rightarrow> Suc (unat (entry_version prior))) \<and>
     (fmlookup (env_entries env) name \<noteq> None \<longrightarrow>
       (\<exists>d. fmlookup (env_declarations env) name = Some d \<and> mutability d = Mutable))"

lemma install_installs:
  assumes "install ops env name (mutability d) writer b expected v = (Ok entry, env')"
    and "fmlookup (env_declarations env) name = Some d"
  shows "installs ops env name writer expected v entry env'"
  unfolding installs_def
  using install_Ok [OF assms(1)] next_version_unat [OF install_Ok(6) [OF assms(1)]] assms(2)
  by (auto simp: next_version_Ok split: option.splits)

lemma assign_Ok:
  assumes "assign ops env name writer expected v = (Ok entry, env')"
  obtains d b where "fmlookup (env_declarations env) name = Some d" "producer d = writer_node_id writer"
    "validate_direct_write_scope d writer = Ok b" "validate_value ops env d writer v = Ok ()"
    "install ops env name (mutability d) writer b expected v = (Ok entry, env')"
  using assms by (auto simp: assign_def declaration_of_def authorize_writer_def result_simps)

lemma merge_branches_Ok:
  assumes "merge_branches ops env name writer expected branches = (Ok entry, env')"
  obtains d policy v where "fmlookup (env_declarations env) name = Some d" "writer_branch writer = None"
    "variable_scope d \<noteq> ScopeBranch" "merge_policy d = Some policy"
    "merge_values policy (sort_branches branches) = Ok v" "validate_value ops env d writer v = Ok ()"
    "install ops env name (mutability d) writer None expected v = (Ok entry, env')"
  using assms by (auto simp: merge_branches_def declaration_of_def result_simps Let_def)

lemma assign_Err: "fst (assign ops env name writer expected v) = Err e \<Longrightarrow>
  snd (assign ops env name writer expected v) = env"
  unfolding assign_def by (intro try_in_error_keeps) (auto dest: install_Err)

lemma merge_branches_Err: "fst (merge_branches ops env name writer expected branches) = Err e \<Longrightarrow>
  snd (merge_branches ops env name writer expected branches) = env"
  unfolding merge_branches_def Let_def by (intro try_in_error_keeps) (auto dest: install_Err)

text \<open>
  C33. A write is a compare-and-set on the version: it succeeds only when the expected version is
  the current one, and then it replaces exactly that entry by the value and the writer given
  and moves the version by one, without wrapping around; a variable that has a value is
  rewritten only if it is declared mutable. An assignment that fails leaves the environment as
  it was, although the size of the environment is checked only after the entry is inserted.
\<close>

theorem assign_compare_and_set:
  "case assign ops env name writer expected v of
     (Ok entry, env') \<Rightarrow> installs ops env name writer expected v entry env' \<and>
       (\<exists>d. fmlookup (env_declarations env) name = Some d \<and> producer d = writer_node_id writer)
   | (Err _, env') \<Rightarrow> env' = env"
proof (cases "assign ops env name writer expected v")
  case (Pair r env')
  show ?thesis
  proof (cases r)
    case (Ok entry)
    then show ?thesis
      using Pair by (auto elim!: assign_Ok intro: install_installs)
  next
    case (Err e)
    then show ?thesis using Pair assign_Err [of ops env name writer expected v e] by simp
  qed
qed

section \<open>Merging\<close>

lemma sort_branches_mset:
  assumes "mset bs = mset cs" "distinct (map contribution_branch_id bs)"
  shows "sort_branches bs = sort_branches cs"
proof -
  let ?f = "\<lambda>b. (contribution_order b, contribution_branch_id b)"
  have "set bs = set cs" using assms(1) by (metis set_mset_mset)
  have "map ?f (sort_branches bs) = sort (map ?f bs)"
    by (rule properties_for_sort [symmetric]) (simp_all add: sort_branches_def mset_map [symmetric] del: mset_map, simp add: mset_map)
  moreover have "map ?f (sort_branches cs) = sort (map ?f cs)"
    by (rule properties_for_sort [symmetric]) (simp_all add: sort_branches_def mset_map [symmetric] del: mset_map, simp add: mset_map)
  moreover have "sort (map ?f bs) = sort (map ?f cs)"
    using assms(1) by (intro properties_for_sort) simp_all
  ultimately have eq: "map ?f (sort_branches bs) = map ?f (sort_branches cs)" by simp
  have "inj_on ?f (set bs)" using assms(2) by (auto simp: distinct_map inj_on_def)
  then show ?thesis
    using eq \<open>set bs = set cs\<close> by (intro map_inj_on [OF eq]) (simp add: sort_branches_def)
qed

lemma has_duplicate_branch_mset:
  assumes "mset bs = mset cs"
  shows "has_duplicate_branch bs = has_duplicate_branch cs"
proof -
  have "mset (map contribution_branch_id bs) = mset (map contribution_branch_id cs)" using assms by simp
  then show ?thesis unfolding has_duplicate_branch_def
    by (metis mset_eq_imp_distinct_iff mset_eq_setD)
qed

lemma has_duplicate_branch_sort [simp]: "has_duplicate_branch (sort_branches bs) = has_duplicate_branch bs"
  by (rule has_duplicate_branch_mset) (simp add: sort_branches_def)

text \<open>
  C34. The order in which the branches of a parallel section deliver their values does not
  matter: every permutation of the contributions gives the same result, value or error, and the
  same environment.
\<close>

theorem merge_branches_order:
  assumes "mset branches = mset delivered"
  shows "merge_branches ops env name writer expected branches =
    merge_branches ops env name writer expected delivered"
proof -
  have empty: "branches = [] \<longleftrightarrow> delivered = []" using assms by (metis mset_zero_iff)
  show ?thesis
  proof (cases "has_duplicate_branch branches")
    case True
    then have "has_duplicate_branch delivered" using has_duplicate_branch_mset [OF assms] by simp
    with True show ?thesis by (simp add: merge_branches_def empty Let_def)
  next
    case False
    then have "sort_branches branches = sort_branches delivered"
      by (intro sort_branches_mset assms) (simp add: has_duplicate_branch_def)
    then show ?thesis by (simp add: merge_branches_def empty)
  qed
qed

section \<open>Reachable environments pass the replay check\<close>

lemma validate_replayed_Ok:
  "validate_replayed ops env = Ok () \<longleftrightarrow>
     validate_limits (env_limits env) = Ok () \<and>
     fcard (fmdom (env_declarations env)) \<le> limit_variables (env_limits env) \<and>
     (\<forall>name d. fmlookup (env_declarations env) name = Some d \<longrightarrow>
        validate_replayed_declaration (env_limits env) (name, d) = Ok ()) \<and>
     (\<forall>name entry. fmlookup (env_entries env) name = Some entry \<longrightarrow>
        validate_replayed_entry ops env (name, entry) = Ok ()) \<and>
     validate_environment_size ops env = Ok ()"
  by (auto simp: validate_replayed_def result_simps sorted_list_of_fmap_iff not_less)

lemma validate_value_entries [simp]: "validate_value ops (env\<lparr>env_entries := es\<rparr>) = validate_value ops env"
  by (intro ext) (simp add: validate_value_def)

lemma validate_replayed_entry_entries [simp]:
  "validate_replayed_entry ops (env\<lparr>env_entries := es\<rparr>) = validate_replayed_entry ops env"
  by (simp add: validate_replayed_entry_def declaration_of_def)

lemma next_version_positive: "next_version existing m expected = Ok version \<Longrightarrow> version \<noteq> 0"
  by (drule next_version_unat) (auto split: option.splits)

lemma installed_entry_valid:
  assumes "fmlookup (env_declarations env) name = Some d"
    and "install ops env name (mutability d) writer b expected v = (Ok entry, env')"
    and "authorize_replayed_writer d writer = Ok ()"
    and "validate_direct_write_scope d writer = Ok b" "validate_value ops env d writer v = Ok ()"
  shows "validate_replayed_entry ops env (name, entry) = Ok ()"
proof -
  have "variable_scope d = ScopeBranch \<or> b = None"
    using assms(4) by (auto simp: validate_direct_write_scope_def split: VariableScope.splits option.splits if_splits)
  then show ?thesis
    using assms(1,3-) install_Ok [OF assms(2)] next_version_positive [OF install_Ok(6) [OF assms(2)]]
    by (auto simp: validate_replayed_entry_def declaration_of_def validate_direct_write_scope_replayed_def result_simps)
qed

lemma install_keeps_valid:
  assumes "validate_replayed ops env = Ok ()"
    and "fmlookup (env_declarations env) name = Some d"
    and "install ops env name (mutability d) writer b expected v = (Ok entry, env')"
    and "authorize_replayed_writer d writer = Ok ()"
    and "validate_direct_write_scope d writer = Ok b" "validate_value ops env d writer v = Ok ()"
  shows "validate_replayed ops env' = Ok ()"
  using assms(1) installed_entry_valid [OF assms(2-)] install_Ok(1,7) [OF assms(3)]
  by (auto simp: validate_replayed_Ok)

lemma assign_keeps_valid:
  assumes "validate_replayed ops env = Ok ()"
  shows "validate_replayed ops (snd (assign ops env name writer expected v)) = Ok ()"
proof (cases "fst (assign ops env name writer expected v)")
  case (Ok entry)
  then obtain env' where a: "assign ops env name writer expected v = (Ok entry, env')" by (metis prod.collapse)
  from a show ?thesis
  proof (rule assign_Ok)
    fix d b
    assume *: "fmlookup (env_declarations env) name = Some d" "producer d = writer_node_id writer"
      "validate_direct_write_scope d writer = Ok b" "validate_value ops env d writer v = Ok ()"
      "install ops env name (mutability d) writer b expected v = (Ok entry, env')"
    show ?thesis
      using install_keeps_valid [OF assms *(1,5) _ *(3,4)] *(2)
      by (simp add: a authorize_replayed_writer_def)
  qed
next
  case (Err e)
  then show ?thesis using assms by (simp add: assign_Err)
qed

text \<open>The writers of a merge that replay accepts: the producer, or a node outside branches.\<close>

definition coordinates ::
  "CanonicalVariableEnvironment \<Rightarrow> string \<Rightarrow> VariableWriter \<Rightarrow> bool" where
  "coordinates env name writer \<longleftrightarrow>
     (case writer of WriterNode _ _ \<Rightarrow> True | _ \<Rightarrow>
        (case fmlookup (env_declarations env) name of
           Some d \<Rightarrow> producer d = writer_node_id writer | None \<Rightarrow> True))"

lemma merge_keeps_valid:
  assumes "validate_replayed ops env = Ok ()" "coordinates env name writer"
  shows "validate_replayed ops (snd (merge_branches ops env name writer expected branches)) = Ok ()"
proof (cases "fst (merge_branches ops env name writer expected branches)")
  case (Ok entry)
  then obtain env' where a: "merge_branches ops env name writer expected branches = (Ok entry, env')"
    by (metis prod.collapse)
  from a show ?thesis
  proof (rule merge_branches_Ok)
    fix d policy v
    assume *: "fmlookup (env_declarations env) name = Some d" "writer_branch writer = None"
      "variable_scope d \<noteq> ScopeBranch" "merge_policy d = Some policy"
      "merge_values policy (sort_branches branches) = Ok v" "validate_value ops env d writer v = Ok ()"
      "install ops env name (mutability d) writer None expected v = (Ok entry, env')"
    have "authorize_replayed_writer d writer = Ok ()"
      using assms(2) *(1,2,4)
      by (auto simp: coordinates_def authorize_replayed_writer_def split: VariableWriter.splits)
    moreover have "validate_direct_write_scope d writer = Ok None"
      using *(2,3) by (auto simp: validate_direct_write_scope_def split: VariableScope.splits)
    ultimately show ?thesis
      using install_keeps_valid [OF assms(1) *(1,7)] *(6) by (simp add: a)
  qed
next
  case (Err e)
  then show ?thesis using assms by (simp add: merge_branches_Err)
qed

lemma try_fold_invariant:
  assumes "try_fold f xs s = Ok s'" "I s" "\<And>s x s'. x \<in> set xs \<Longrightarrow> I s \<Longrightarrow> f s x = Ok s' \<Longrightarrow> I s'"
  shows "I s'"
  using assms by (induction xs arbitrary: s) (auto simp: result_simps)

lemma sorted_list_of_fmap_fmempty: "sorted_list_of_fmap fmempty = []"
  by (simp add: sorted_list_of_fmap_def sorted_list_of_fset.rep_eq)

lemma environment_new_valid:
  assumes "environment_new declarations limits = Ok env"
  shows "validate_replayed ops env = Ok ()"
proof -
  from assms obtain by_name where limits: "validate_limits limits = Ok ()"
    and fold: "try_fold (add_declaration limits) declarations fmempty = Ok by_name"
    and size: "fcard (fmdom by_name) \<le> limit_variables limits"
    and env: "env = \<lparr>env_declarations = by_name, env_entries = fmempty, env_limits = limits\<rparr>"
    by (auto simp: environment_new_def result_simps not_less)
  from fold have "\<forall>name d. fmlookup by_name name = Some d \<longrightarrow>
      validate_replayed_declaration limits (name, d) = Ok ()"
    by (rule try_fold_invariant)
       (auto simp: add_declaration_def validate_replayed_declaration_def result_simps split: if_splits)
  then show ?thesis
    using limits size
    by (auto simp: validate_replayed_Ok env validate_environment_size_def sorted_list_of_fmap_fmempty)
qed

inductive reachable_env :: "variable_ops \<Rightarrow> CanonicalVariableEnvironment \<Rightarrow> bool" for ops where
  created: "environment_new declarations limits = Ok env \<Longrightarrow> reachable_env ops env"
| assigned: "reachable_env ops env \<Longrightarrow> reachable_env ops (snd (assign ops env name writer expected v))"
| merged: "reachable_env ops env \<Longrightarrow> coordinates env name writer \<Longrightarrow>
    reachable_env ops (snd (merge_branches ops env name writer expected branches))"

lemma reachable_valid: "reachable_env ops env \<Longrightarrow> validate_replayed ops env = Ok ()"
  by (induction rule: reachable_env.induct) (auto intro: environment_new_valid assign_keeps_valid merge_keeps_valid)

end
