(* ===== verification/Variable_Events.thy ===== *)
theory Variable_Events
  imports Variable_State
begin

text \<open>
  \<^verbatim>\<open>apps/runtime/logic/src/canonical_variables.rs\<close>, fourth part: the events of graph variables
  and the reducer that replays them. An event is applied only if the reducer, asked to prepare
  the same attempt from its own state, prepares that very event. \<^verbatim>\<open>apply\<close> works on a clone and
  commits it last; so \<open>apply_verified\<close> returns the clone and only \<open>apply_event\<close> keeps a state.
\<close>

section \<open>Events\<close>

record CanonicalVariableEventBinding =
  binding_run_id :: string
  binding_node_id :: string
  binding_variable :: string
  binding_prior_version :: "u64 option"
  binding_new_version :: "u64 option"
  binding_value_hash :: "ContentHash option"
  binding_artifact_references :: "string fset"

record VariableDeclaredEvent =
  declared_binding :: CanonicalVariableEventBinding
  declared_declaration :: VariableDeclaration
  declared_hash :: ContentHash

record VariableAssignedEvent =
  assigned_binding :: CanonicalVariableEventBinding
  assigned_writer :: VariableWriter
  assigned_value :: CanonicalVariableValue

record VariableMergedEvent =
  merged_binding :: CanonicalVariableEventBinding
  merged_writer :: VariableWriter
  merged_policy :: VariableMergePolicy
  merged_branches :: "BranchVariableValue list"
  merged_value :: CanonicalVariableValue

record VariableRemovedEvent =
  removed_binding :: CanonicalVariableEventBinding
  removed_writer :: VariableWriter

datatype VariableValidationFailureCode =
    CodeInvalidDeclaration | CodeUnknownVariable | CodeAccessDenied | CodeInvalidValue
  | CodeSecurityViolation | CodeVersionConflict | CodeResourceLimit | CodeMergeConflict
  | CodeRemovalNotAllowed | CodeInternal

datatype VariableValidationAttempt =
    AttemptDeclare VariableDeclaration
  | AttemptAssign string VariableWriter "u64 option" CanonicalVariableValue
  | AttemptMerge string VariableWriter "u64 option" "BranchVariableValue list"
  | AttemptRemove string VariableWriter u64

fun attempt_variable :: "VariableValidationAttempt \<Rightarrow> string" where
  "attempt_variable (AttemptDeclare declaration) = variable_name declaration"
| "attempt_variable (AttemptAssign variable _ _ _) = variable"
| "attempt_variable (AttemptMerge variable _ _ _) = variable"
| "attempt_variable (AttemptRemove variable _ _) = variable"

record VariableValidationFailedEvent =
  failed_binding :: CanonicalVariableEventBinding
  failed_attempt :: VariableValidationAttempt
  failed_code :: VariableValidationFailureCode

datatype CanonicalVariableEvent =
    Declared VariableDeclaredEvent
  | Assigned VariableAssignedEvent
  | Merged VariableMergedEvent
  | Removed VariableRemovedEvent
  | ValidationFailed VariableValidationFailedEvent

fun event_type :: "CanonicalVariableEvent \<Rightarrow> string" where
  "event_type (Declared _) = ''graph.variable_declared''"
| "event_type (Assigned _) = ''graph.variable_assigned''"
| "event_type (Merged _) = ''graph.variable_merged''"
| "event_type (Removed _) = ''graph.variable_removed''"
| "event_type (ValidationFailed _) = ''graph.variable_validation_failed''"

fun event_binding :: "CanonicalVariableEvent \<Rightarrow> CanonicalVariableEventBinding" where
  "event_binding (Declared event) = declared_binding event"
| "event_binding (Assigned event) = assigned_binding event"
| "event_binding (Merged event) = merged_binding event"
| "event_binding (Removed event) = removed_binding event"
| "event_binding (ValidationFailed event) = failed_binding event"

record RemovedVariableRecord =
  removal_version :: u64
  removed_value_hash :: ContentHash
  removal_writer :: VariableWriter

datatype VariableEventApplyOutcome = Mutated | FailureRetained VariableValidationFailureCode

datatype InitialAssignmentAuditState = AuditPending | AuditObserved

section \<open>The reducer\<close>

record CanonicalVariableEventReducer =
  run_id :: string
  environment :: CanonicalVariableEnvironment
  declaration_hashes :: "(string, ContentHash) fmap"
  observed_declarations :: "string fset"
  initial_audit_schema_version :: nat
  seeded_hashes :: "(string, ContentHash) fmap"
  observed_hashes :: "(string, ContentHash) fmap"
  audit_state_hash :: "ContentHash option"
  removed :: "(string, RemovedVariableRecord) fmap"
  validation_failures :: "VariableValidationFailedEvent list"

definition MAX_CANONICAL_VARIABLE_FAILURES :: nat where "MAX_CANONICAL_VARIABLE_FAILURES = 1024"

text \<open>External code: the canonical serializations that are hashed.\<close>

record event_ops =
  value_ops :: variable_ops
  declaration_to_vec :: "VariableDeclaration \<Rightarrow> bytes option"
  attempt_to_vec :: "VariableValidationAttempt \<Rightarrow> bytes option"
  audit_to_vec :: "(string, ContentHash) fmap \<Rightarrow> (string, ContentHash) fmap \<Rightarrow> bytes option"

definition digest :: "event_ops \<Rightarrow> bytes \<Rightarrow> ContentHash" where
  "digest ops = ContentHash_digest (variable_blake3 (value_ops ops))"

definition declaration_hash :: "event_ops \<Rightarrow> VariableDeclaration \<Rightarrow> ContentHash variables" where
  "declaration_hash ops declaration =
     rbind (ok_or Serialization (declaration_to_vec ops declaration)) (\<lambda>bs. Ok (digest ops bs))"

definition initial_assignment_audit_state_hash ::
  "event_ops \<Rightarrow> (string, ContentHash) fmap \<Rightarrow> (string, ContentHash) fmap \<Rightarrow> ContentHash variables" where
  "initial_assignment_audit_state_hash ops seeded observed =
     rbind (ok_or Serialization (audit_to_vec ops seeded observed)) (\<lambda>bs. Ok (digest ops bs))"

definition validate_event_identity :: "string \<Rightarrow> string \<Rightarrow> unit variables" where
  "validate_event_identity run node_text =
     fail_if (run = [] \<or> 256 < length run \<or> has_control run \<or>
       node_text = [] \<or> 256 < length node_text \<or> has_control node_text) InvalidEventIdentity"

fun attempt_artifact_references :: "VariableValidationAttempt \<Rightarrow> string fset" where
  "attempt_artifact_references (AttemptDeclare _) = {||}"
| "attempt_artifact_references (AttemptRemove _ _ _) = {||}"
| "attempt_artifact_references (AttemptAssign _ _ _ v) = artifact_references_of v"
| "attempt_artifact_references (AttemptMerge _ _ _ branches) =
     fold (\<lambda>b references. references |\<union>| artifact_references_of (contribution_value b)) branches {||}"

fun failure_code :: "VariableEnvironmentError \<Rightarrow> VariableValidationFailureCode" where
  "failure_code (DuplicateDeclaration _) = CodeInvalidDeclaration"
| "failure_code (InvalidDeclaration _) = CodeInvalidDeclaration"
| "failure_code DeclarationDepthExceeded = CodeInvalidDeclaration"
| "failure_code DeclarationKeyMismatch = CodeInvalidDeclaration"
| "failure_code DeclarationHashMismatch = CodeInvalidDeclaration"
| "failure_code (UndeclaredVariable _) = CodeUnknownVariable"
| "failure_code (MissingValue _) = CodeUnknownVariable"
| "failure_code (UnauthorizedWriter _ _) = CodeAccessDenied"
| "failure_code (UnauthorizedReader _ _) = CodeAccessDenied"
| "failure_code BranchScopeMismatch = CodeAccessDenied"
| "failure_code InvalidBranchWrite = CodeAccessDenied"
| "failure_code InvalidEventIdentity = CodeAccessDenied"
| "failure_code EventRunMismatch = CodeAccessDenied"
| "failure_code ValueTypeMismatch = CodeInvalidValue"
| "failure_code InvalidDecimal = CodeInvalidValue"
| "failure_code InvalidEnum = CodeInvalidValue"
| "failure_code RuntimeRecordedValueRequired = CodeInvalidValue"
| "failure_code InvalidReference = CodeInvalidValue"
| "failure_code InvalidMapKey = CodeInvalidValue"
| "failure_code SecurityViolation = CodeSecurityViolation"
| "failure_code ImmutableReassignment = CodeVersionConflict"
| "failure_code VersionMismatch = CodeVersionConflict"
| "failure_code VersionOverflow = CodeVersionConflict"
| "failure_code InvalidVersion = CodeVersionConflict"
| "failure_code InvalidLimits = CodeResourceLimit"
| "failure_code VariableLimitExceeded = CodeResourceLimit"
| "failure_code ValueDepthExceeded = CodeResourceLimit"
| "failure_code ValueItemLimitExceeded = CodeResourceLimit"
| "failure_code CollectionBoundExceeded = CodeResourceLimit"
| "failure_code (DeclaredSizeExceeded _) = CodeResourceLimit"
| "failure_code EnvironmentSizeExceeded = CodeResourceLimit"
| "failure_code FailureLimitExceeded = CodeResourceLimit"
| "failure_code MissingMergePolicy = CodeMergeConflict"
| "failure_code EmptyMerge = CodeMergeConflict"
| "failure_code DuplicateBranch = CodeMergeConflict"
| "failure_code MergeConflict = CodeMergeConflict"
| "failure_code InvalidMergeValue = CodeMergeConflict"
| "failure_code InvalidRemoval = CodeRemovalNotAllowed"
| "failure_code (ValueHashMismatch _) = CodeInternal"
| "failure_code InitialAuditStateMismatch = CodeInternal"
| "failure_code Serialization = CodeInternal"
| "failure_code InternalInvariant = CodeInternal"
| "failure_code EventMismatch = CodeInternal"

subsection \<open>Construction\<close>

definition reducer_new :: "event_ops \<Rightarrow> string \<Rightarrow> VariableEnvironmentLimits \<Rightarrow> CanonicalVariableEventReducer variables" where
  "reducer_new ops run limits =
     rbind (validate_event_identity run RUNTIME_PRODUCER) (\<lambda>_.
     rbind (environment_new [] limits) (\<lambda>env.
     rbind (initial_assignment_audit_state_hash ops fmempty fmempty) (\<lambda>hash.
     Ok \<lparr>run_id = run, environment = env, declaration_hashes = fmempty, observed_declarations = {||},
         initial_audit_schema_version = 1, seeded_hashes = fmempty, observed_hashes = fmempty,
         audit_state_hash = Some hash, removed = fmempty, validation_failures = []\<rparr>)))"

definition refresh_audit_state_hash ::
  "event_ops \<Rightarrow> CanonicalVariableEventReducer \<Rightarrow> CanonicalVariableEventReducer variables" where
  "refresh_audit_state_hash ops r =
     rbind (initial_assignment_audit_state_hash ops (seeded_hashes r) (observed_hashes r)) (\<lambda>hash.
     Ok (r\<lparr>audit_state_hash := Some hash\<rparr>))"

definition seed_declaration ::
  "event_ops \<Rightarrow> VariableEnvironmentLimits \<Rightarrow> CanonicalVariableEventReducer \<Rightarrow> VariableDeclaration \<Rightarrow>
   CanonicalVariableEventReducer variables" where
  "seed_declaration ops limits r declaration =
     (let declarations = env_declarations (environment r) in
      rbind (fail_if (limit_variables limits \<le> fcard (fmdom declarations)) VariableLimitExceeded) (\<lambda>_.
      rbind (validate_live_declaration declaration limits) (\<lambda>_.
      rbind (fail_if (variable_name declaration |\<in>| fmdom declarations)
        (DuplicateDeclaration (variable_name declaration))) (\<lambda>_.
      rbind (declaration_hash ops declaration) (\<lambda>hash.
      Ok (r\<lparr>environment := (environment r)\<lparr>env_declarations := fmupd (variable_name declaration) declaration declarations\<rparr>,
            declaration_hashes := fmupd (variable_name declaration) hash (declaration_hashes r)\<rparr>))))))"

definition seed_value ::
  "event_ops \<Rightarrow> CanonicalVariableEventReducer \<Rightarrow> string \<times> CanonicalVariableValue \<Rightarrow>
   CanonicalVariableEventReducer variables" where
  "seed_value ops r = (\<lambda>(name, v).
     case assign (value_ops ops) (environment r) name WriterRuntime None v of
       (Ok entry, env) \<Rightarrow>
         Ok (r\<lparr>environment := env, seeded_hashes := fmupd name (entry_value_hash entry) (seeded_hashes r)\<rparr>)
     | (Err e, _) \<Rightarrow> Err e)"

subsection \<open>Replayed snapshots\<close>

definition validate_failure_static ::
  "event_ops \<Rightarrow> string \<Rightarrow> VariableValidationFailedEvent \<Rightarrow> unit variables" where
  "validate_failure_static ops run failure =
     (let binding = failed_binding failure in
      rbind (validate_event_identity (binding_run_id binding) (binding_node_id binding)) (\<lambda>_.
      rbind (fail_if (binding_run_id binding \<noteq> run \<or>
          binding_variable binding \<noteq> attempt_variable (failed_attempt failure) \<or>
          binding_prior_version binding \<noteq> binding_new_version binding \<or>
          binding_artifact_references binding \<noteq> attempt_artifact_references (failed_attempt failure)) EventMismatch) (\<lambda>_.
      rbind (ok_or Serialization (attempt_to_vec ops (failed_attempt failure))) (\<lambda>bs.
      fail_if (binding_value_hash binding \<noteq> Some (digest ops bs)) EventMismatch))))"

definition check_seed ::
  "CanonicalVariableEventReducer \<Rightarrow> string \<times> ContentHash \<Rightarrow> unit variables" where
  "check_seed r = (\<lambda>(name, hash).
     rbind (declaration_of (environment r) name) (\<lambda>declaration.
     rbind (fail_if (producer declaration \<noteq> RUNTIME_PRODUCER) InitialAuditStateMismatch) (\<lambda>_.
     if name |\<in>| fmdom (observed_hashes r) then Ok ()
     else rbind (ok_or InitialAuditStateMismatch (fmlookup (env_entries (environment r)) name)) (\<lambda>entry.
          fail_if (entry_version entry \<noteq> 1 \<or> entry_writer entry \<noteq> WriterRuntime \<or>
            entry_value_hash entry \<noteq> hash) InitialAuditStateMismatch))))"

definition validate_initial_assignment_audit_state ::
  "event_ops \<Rightarrow> CanonicalVariableEventReducer \<Rightarrow> unit variables" where
  "validate_initial_assignment_audit_state ops r =
     (if initial_audit_schema_version r = 0
      then fail_if (seeded_hashes r \<noteq> fmempty \<or> observed_hashes r \<noteq> fmempty \<or> audit_state_hash r \<noteq> None)
        InitialAuditStateMismatch
      else
        rbind (fail_if (initial_audit_schema_version r \<noteq> 1) InitialAuditStateMismatch) (\<lambda>_.
        rbind (initial_assignment_audit_state_hash ops (seeded_hashes r) (observed_hashes r)) (\<lambda>hash.
        rbind (fail_if (audit_state_hash r \<noteq> Some hash \<or>
            \<not> list_all (\<lambda>(name, h). fmlookup (seeded_hashes r) name = Some h) (sorted_list_of_fmap (observed_hashes r)))
          InitialAuditStateMismatch) (\<lambda>_.
        rbind (check_all (check_seed r) (sorted_list_of_fmap (seeded_hashes r))) (\<lambda>_.
        fail_if (list_ex (\<lambda>(name, entry). entry_writer entry = WriterRuntime \<and> name |\<notin>| fmdom (seeded_hashes r))
            (sorted_list_of_fmap (env_entries (environment r)))) InitialAuditStateMismatch)))))"

definition validate_removed ::
  "CanonicalVariableEventReducer \<Rightarrow> string \<times> RemovedVariableRecord \<Rightarrow> unit variables" where
  "validate_removed r = (\<lambda>(name, tombstone).
     rbind (declaration_of (environment r) name) (\<lambda>declaration.
     rbind (fail_if (name |\<in>| fmdom (env_entries (environment r)) \<or>
         variable_scope declaration \<notin> {ScopeNode, ScopeBranch} \<or> removal_version tombstone = 0) InvalidRemoval) (\<lambda>_.
     rbind (authorize_replayed_writer declaration (removal_writer tombstone)) (\<lambda>_.
     if variable_scope declaration = ScopeBranch
     then rbind (validate_direct_write_scope declaration (removal_writer tombstone)) (\<lambda>_. Ok ())
     else Ok ()))))"

definition check_declaration_hash ::
  "event_ops \<Rightarrow> CanonicalVariableEventReducer \<Rightarrow> string \<times> VariableDeclaration \<Rightarrow> unit variables" where
  "check_declaration_hash ops r = (\<lambda>(name, declaration).
     rbind (declaration_hash ops declaration) (\<lambda>hash.
     fail_if (fmlookup (declaration_hashes r) name \<noteq> Some hash) DeclarationHashMismatch))"

definition reducer_validate_replayed :: "event_ops \<Rightarrow> CanonicalVariableEventReducer \<Rightarrow> unit variables" where
  "reducer_validate_replayed ops r =
     rbind (validate_event_identity (run_id r) RUNTIME_PRODUCER) (\<lambda>_.
     rbind (validate_replayed (value_ops ops) (environment r)) (\<lambda>_.
     rbind (fail_if (fcard (fmdom (declaration_hashes r)) \<noteq> fcard (fmdom (env_declarations (environment r))))
       DeclarationHashMismatch) (\<lambda>_.
     rbind (fail_if (\<not> observed_declarations r |\<subseteq>| fmdom (env_declarations (environment r)))
       DeclarationKeyMismatch) (\<lambda>_.
     rbind (check_all (check_declaration_hash ops r) (sorted_list_of_fmap (env_declarations (environment r)))) (\<lambda>_.
     rbind (validate_initial_assignment_audit_state ops r) (\<lambda>_.
     rbind (check_all (validate_removed r) (sorted_list_of_fmap (removed r))) (\<lambda>_.
     rbind (fail_if (MAX_CANONICAL_VARIABLE_FAILURES < length (validation_failures r)) FailureLimitExceeded) (\<lambda>_.
     check_all (validate_failure_static ops (run_id r)) (validation_failures r)))))))))"

definition reducer_initialize ::
  "event_ops \<Rightarrow> string \<Rightarrow> VariableEnvironmentLimits \<Rightarrow> VariableDeclaration list \<Rightarrow>
   (string \<times> CanonicalVariableValue) list \<Rightarrow> CanonicalVariableEventReducer variables" where
  "reducer_initialize ops run limits declarations initial_values =
     rbind (reducer_new ops run limits) (\<lambda>r.
     rbind (try_fold (seed_declaration ops limits) declarations r) (\<lambda>r.
     rbind (try_fold (seed_value ops) initial_values r) (\<lambda>r.
     rbind (refresh_audit_state_hash ops r) (\<lambda>r.
     rbind (reducer_validate_replayed ops r) (\<lambda>_. Ok r)))))"

end
