(* ===== verification/Variable_Reduce.thy ===== *)
theory Variable_Reduce
  imports Variable_Events
begin

text \<open>
  \<^verbatim>\<open>apps/runtime/logic/src/canonical_variables.rs\<close>, fifth part: preparing an event for an attempt
  and applying an event.
\<close>

section \<open>Preparing\<close>

definition make_binding ::
  "CanonicalVariableEventReducer \<Rightarrow> string \<Rightarrow> string \<Rightarrow> u64 option \<Rightarrow> u64 option \<Rightarrow> ContentHash option \<Rightarrow>
   string fset \<Rightarrow> CanonicalVariableEventBinding" where
  "make_binding r node_text variable prior new hash references =
     \<lparr>binding_run_id = run_id r, binding_node_id = node_text, binding_variable = variable,
      binding_prior_version = prior, binding_new_version = new, binding_value_hash = hash,
      binding_artifact_references = references\<rparr>"

definition current_version :: "CanonicalVariableEventReducer \<Rightarrow> string \<Rightarrow> u64 option" where
  "current_version r variable =
     (case fmlookup (env_entries (environment r)) variable of
        Some entry \<Rightarrow> Some (entry_version entry)
      | None \<Rightarrow> map_option removal_version (fmlookup (removed r) variable))"

definition ensure_not_removed :: "CanonicalVariableEventReducer \<Rightarrow> string \<Rightarrow> unit variables" where
  "ensure_not_removed r variable = fail_if (variable |\<in>| fmdom (removed r)) InvalidRemoval"

definition initial_assignment_audit_state ::
  "event_ops \<Rightarrow> CanonicalVariableEventReducer \<Rightarrow> string \<Rightarrow> CanonicalVariableValue \<Rightarrow>
   InitialAssignmentAuditState option variables" where
  "initial_assignment_audit_state ops r name v =
     rbind (value_hash (value_ops ops) v) (\<lambda>hash.
     if fmlookup (seeded_hashes r) name \<noteq> Some hash then Ok None
     else Ok (Some (if fmlookup (observed_hashes r) name = Some hash then AuditObserved else AuditPending)))"

definition prepare_declare ::
  "event_ops \<Rightarrow> CanonicalVariableEventReducer \<Rightarrow> string \<Rightarrow> VariableDeclaration \<Rightarrow> CanonicalVariableEvent variables" where
  "prepare_declare ops r node_text declaration =
     (let name = variable_name declaration; env = environment r in
      rbind (fail_if (node_text \<noteq> RUNTIME_PRODUCER) (UnauthorizedWriter name node_text)) (\<lambda>_.
      rbind (case fmlookup (env_declarations env) name of
               Some existing \<Rightarrow>
                 fail_if (existing \<noteq> declaration \<or> name |\<in>| observed_declarations r) (DuplicateDeclaration name)
             | None \<Rightarrow>
                 rbind (fail_if (limit_variables (env_limits env) \<le> fcard (fmdom (env_declarations env)))
                   VariableLimitExceeded) (\<lambda>_.
                 validate_live_declaration declaration (env_limits env))) (\<lambda>_.
      rbind (declaration_hash ops declaration) (\<lambda>hash.
      Ok (Declared \<lparr>declared_binding = make_binding r node_text name None None None {||},
            declared_declaration = declaration, declared_hash = hash\<rparr>)))))"

definition prepare_seed_audit ::
  "CanonicalVariableEventReducer \<Rightarrow> string \<Rightarrow> string \<Rightarrow> VariableWriter \<Rightarrow> CanonicalVariableValue \<Rightarrow>
   CanonicalVariableEvent variables" where
  "prepare_seed_audit r node_text variable writer v =
     rbind (ok_or (MissingValue variable) (fmlookup (env_entries (environment r)) variable)) (\<lambda>entry.
     rbind (fail_if (entry_version entry \<noteq> 1 \<or> entry_writer entry \<noteq> WriterRuntime \<or> entry_value entry \<noteq> v)
       EventMismatch) (\<lambda>_.
     Ok (Assigned \<lparr>assigned_binding = make_binding r node_text variable None (Some 1)
             (Some (entry_value_hash entry)) (artifact_references_of v),
           assigned_writer = writer, assigned_value = v\<rparr>)))"

definition prepare_assign ::
  "event_ops \<Rightarrow> CanonicalVariableEventReducer \<Rightarrow> string \<Rightarrow> string \<Rightarrow> VariableWriter \<Rightarrow> u64 option \<Rightarrow>
   CanonicalVariableValue \<Rightarrow> CanonicalVariableEvent variables" where
  "prepare_assign ops r node_text variable writer expected_version v =
     rbind (fst (assign (value_ops ops) (environment r) variable writer expected_version v)) (\<lambda>entry.
     Ok (Assigned \<lparr>assigned_binding = make_binding r node_text variable
             (map_option entry_version (fmlookup (env_entries (environment r)) variable))
             (Some (entry_version entry)) (Some (entry_value_hash entry)) (artifact_references_of v),
           assigned_writer = writer, assigned_value = v\<rparr>))"

definition prepare_merge ::
  "event_ops \<Rightarrow> CanonicalVariableEventReducer \<Rightarrow> string \<Rightarrow> string \<Rightarrow> VariableWriter \<Rightarrow> u64 option \<Rightarrow>
   BranchVariableValue list \<Rightarrow> CanonicalVariableEvent variables" where
  "prepare_merge ops r node_text variable writer expected_version branches =
     rbind (declaration_of (environment r) variable) (\<lambda>declaration.
     rbind (ok_or MissingMergePolicy (merge_policy declaration)) (\<lambda>policy.
     let canonical_branches = sort_branches branches in
     rbind (fst (merge_branches (value_ops ops) (environment r) variable writer expected_version canonical_branches)) (\<lambda>entry.
     Ok (Merged \<lparr>merged_binding = make_binding r node_text variable
             (map_option entry_version (fmlookup (env_entries (environment r)) variable))
             (Some (entry_version entry)) (Some (entry_value_hash entry)) (artifact_references_of (entry_value entry)),
           merged_writer = writer, merged_policy = policy, merged_branches = canonical_branches,
           merged_value = entry_value entry\<rparr>))))"

definition prepare_removal ::
  "CanonicalVariableEventReducer \<Rightarrow> string \<Rightarrow> string \<Rightarrow> VariableWriter \<Rightarrow> u64 \<Rightarrow> CanonicalVariableEvent variables" where
  "prepare_removal r node_text variable writer expected_version =
     rbind (ensure_not_removed r variable) (\<lambda>_.
     rbind (declaration_of (environment r) variable) (\<lambda>declaration.
     rbind (fail_if (variable_scope declaration \<notin> {ScopeNode, ScopeBranch}) InvalidRemoval) (\<lambda>_.
     rbind (authorize_writer declaration writer) (\<lambda>_.
     rbind (ok_or (MissingValue variable) (fmlookup (env_entries (environment r)) variable)) (\<lambda>entry.
     rbind (fail_if (entry_version entry \<noteq> expected_version) VersionMismatch) (\<lambda>_.
     rbind (validate_direct_write_scope_replayed declaration writer (entry_branch_id entry)) (\<lambda>retained_branch.
     rbind (fail_if (retained_branch \<noteq> entry_branch_id entry) BranchScopeMismatch) (\<lambda>_.
     rbind (ok_or VersionOverflow (checked_add_u64 (entry_version entry) 1)) (\<lambda>next_one.
     Ok (Removed \<lparr>removed_binding = make_binding r node_text variable (Some (entry_version entry)) (Some next_one)
             (Some (entry_value_hash entry)) (artifact_references_of (entry_value entry)),
           removed_writer = writer\<rparr>))))))))))"

definition prepare_success ::
  "event_ops \<Rightarrow> CanonicalVariableEventReducer \<Rightarrow> string \<Rightarrow> VariableValidationAttempt \<Rightarrow>
   CanonicalVariableEvent variables" where
  "prepare_success ops r node_text attempt =
     (case attempt of
        AttemptDeclare declaration \<Rightarrow> prepare_declare ops r node_text declaration
      | AttemptAssign variable writer expected_version v \<Rightarrow>
          rbind (ensure_not_removed r variable) (\<lambda>_.
          rbind (if node_text = RUNTIME_PRODUCER \<and> writer = WriterRuntime \<and> expected_version = None
                 then rbind (initial_assignment_audit_state ops r variable v) (\<lambda>s. Ok (s = Some AuditPending))
                 else Ok False) (\<lambda>audit.
          if audit then prepare_seed_audit r node_text variable writer v
          else prepare_assign ops r node_text variable writer expected_version v))
      | AttemptMerge variable writer expected_version branches \<Rightarrow>
          rbind (ensure_not_removed r variable) (\<lambda>_.
          prepare_merge ops r node_text variable writer expected_version branches)
      | AttemptRemove variable writer expected_version \<Rightarrow>
          prepare_removal r node_text variable writer expected_version)"

definition prepare_failure ::
  "event_ops \<Rightarrow> CanonicalVariableEventReducer \<Rightarrow> string \<Rightarrow> VariableValidationAttempt \<Rightarrow>
   VariableEnvironmentError \<Rightarrow> VariableValidationFailedEvent variables" where
  "prepare_failure ops r node_text attempt error =
     (let variable = attempt_variable attempt; current = current_version r variable in
      rbind (ok_or Serialization (attempt_to_vec ops attempt)) (\<lambda>bs.
      Ok \<lparr>failed_binding = make_binding r node_text variable current current (Some (digest ops bs))
            (attempt_artifact_references attempt),
          failed_attempt = attempt, failed_code = failure_code error\<rparr>))"

definition prepare_event ::
  "event_ops \<Rightarrow> CanonicalVariableEventReducer \<Rightarrow> string \<Rightarrow> VariableValidationAttempt \<Rightarrow>
   CanonicalVariableEvent variables" where
  "prepare_event ops r node_text attempt =
     rbind (validate_event_identity (run_id r) node_text) (\<lambda>_.
     case prepare_success ops r node_text attempt of
       Ok event \<Rightarrow> Ok event
     | Err e \<Rightarrow> rbind (prepare_failure ops r node_text attempt e) (\<lambda>failure. Ok (ValidationFailed failure)))"

section \<open>Applying\<close>

fun attempt_from_event :: "CanonicalVariableEvent \<Rightarrow> VariableValidationAttempt" where
  "attempt_from_event (Declared event) = AttemptDeclare (declared_declaration event)"
| "attempt_from_event (Assigned event) =
     AttemptAssign (binding_variable (assigned_binding event)) (assigned_writer event)
       (binding_prior_version (assigned_binding event)) (assigned_value event)"
| "attempt_from_event (Merged event) =
     AttemptMerge (binding_variable (merged_binding event)) (merged_writer event)
       (binding_prior_version (merged_binding event)) (merged_branches event)"
| "attempt_from_event (Removed event) =
     AttemptRemove (binding_variable (removed_binding event)) (removed_writer event)
       (case binding_prior_version (removed_binding event) of Some version \<Rightarrow> version | None \<Rightarrow> 0)"
| "attempt_from_event (ValidationFailed event) = failed_attempt event"

definition or_insert :: "'k \<Rightarrow> 'v \<Rightarrow> ('k, 'v) fmap \<Rightarrow> ('k, 'v) fmap" where
  "or_insert k v m = (if k |\<in>| fmdom m then m else fmupd k v m)"

definition apply_declared ::
  "CanonicalVariableEventReducer \<Rightarrow> VariableDeclaredEvent \<Rightarrow> CanonicalVariableEventReducer" where
  "apply_declared r event =
     (let declaration = declared_declaration event; name = variable_name declaration; env = environment r in
      r\<lparr>environment := env\<lparr>env_declarations := or_insert name declaration (env_declarations env)\<rparr>,
        declaration_hashes := or_insert name (declared_hash event) (declaration_hashes r),
        observed_declarations := finsert name (observed_declarations r)\<rparr>)"

definition is_seed_audit :: "CanonicalVariableEventReducer \<Rightarrow> VariableAssignedEvent \<Rightarrow> bool" where
  "is_seed_audit r event \<longleftrightarrow>
     (let binding = assigned_binding event in
      assigned_writer event = WriterRuntime \<and> binding_prior_version binding = None \<and>
      binding_new_version binding = Some 1 \<and>
      fmlookup (seeded_hashes r) (binding_variable binding) = binding_value_hash binding \<and>
      binding_variable binding |\<notin>| fmdom (observed_hashes r))"

definition apply_assigned ::
  "event_ops \<Rightarrow> CanonicalVariableEventReducer \<Rightarrow> VariableAssignedEvent \<Rightarrow> CanonicalVariableEventReducer variables" where
  "apply_assigned ops r event =
     (let binding = assigned_binding event; variable = binding_variable binding in
      if is_seed_audit r event
      then rbind (ok_or EventMismatch (fmlookup (seeded_hashes r) variable)) (\<lambda>observed_hash.
           refresh_audit_state_hash ops (r\<lparr>observed_hashes := fmupd variable observed_hash (observed_hashes r)\<rparr>))
      else
        (case assign (value_ops ops) (environment r) variable (assigned_writer event)
                (binding_prior_version binding) (assigned_value event) of
           (Err e, _) \<Rightarrow> Err e
         | (Ok entry, env) \<Rightarrow>
             let assigned = r\<lparr>environment := env\<rparr> in
             if assigned_writer event = WriterRuntime \<and> binding_prior_version binding = None
             then refresh_audit_state_hash ops (assigned\<lparr>
               seeded_hashes := fmupd variable (entry_value_hash entry) (seeded_hashes assigned),
               observed_hashes := fmupd variable (entry_value_hash entry) (observed_hashes assigned)\<rparr>)
             else Ok assigned))"

definition apply_merged ::
  "event_ops \<Rightarrow> CanonicalVariableEventReducer \<Rightarrow> VariableMergedEvent \<Rightarrow> CanonicalVariableEventReducer variables" where
  "apply_merged ops r event =
     (case merge_branches (value_ops ops) (environment r) (binding_variable (merged_binding event))
             (merged_writer event) (binding_prior_version (merged_binding event)) (merged_branches event) of
        (Err e, _) \<Rightarrow> Err e
      | (Ok _, env) \<Rightarrow> Ok (r\<lparr>environment := env\<rparr>))"

definition apply_removed ::
  "CanonicalVariableEventReducer \<Rightarrow> VariableRemovedEvent \<Rightarrow> CanonicalVariableEventReducer variables" where
  "apply_removed r event =
     (let variable = binding_variable (removed_binding event); env = environment r in
      rbind (ok_or (MissingValue variable) (fmlookup (env_entries env) variable)) (\<lambda>entry.
      rbind (ok_or EventMismatch (binding_new_version (removed_binding event))) (\<lambda>version.
      Ok (r\<lparr>environment := env\<lparr>env_entries := fmdrop variable (env_entries env)\<rparr>,
            removed := fmupd variable \<lparr>removal_version = version, removed_value_hash = entry_value_hash entry,
              removal_writer = removed_writer event\<rparr> (removed r)\<rparr>))))"

definition apply_verified ::
  "event_ops \<Rightarrow> CanonicalVariableEventReducer \<Rightarrow> CanonicalVariableEvent \<Rightarrow>
   (VariableEventApplyOutcome \<times> CanonicalVariableEventReducer) variables" where
  "apply_verified ops r event =
     (case event of
        Declared declared \<Rightarrow> Ok (Mutated, apply_declared r declared)
      | Assigned assigned \<Rightarrow> rbind (apply_assigned ops r assigned) (\<lambda>next_r. Ok (Mutated, next_r))
      | Merged merged \<Rightarrow> rbind (apply_merged ops r merged) (\<lambda>next_r. Ok (Mutated, next_r))
      | Removed removal \<Rightarrow> rbind (apply_removed r removal) (\<lambda>next_r. Ok (Mutated, next_r))
      | ValidationFailed failure \<Rightarrow>
          rbind (fail_if (MAX_CANONICAL_VARIABLE_FAILURES \<le> length (validation_failures r)) FailureLimitExceeded) (\<lambda>_.
          Ok (FailureRetained (failed_code failure),
              r\<lparr>validation_failures := validation_failures r @ [failure]\<rparr>)))"

definition apply_event ::
  "event_ops \<Rightarrow> CanonicalVariableEventReducer \<Rightarrow> CanonicalVariableEvent \<Rightarrow>
   VariableEventApplyOutcome variables \<times> CanonicalVariableEventReducer" where
  "apply_event ops r event =
     (let binding = event_binding event in
      try_in r (validate_event_identity (binding_run_id binding) (binding_node_id binding)) (\<lambda>_.
      try_in r (fail_if (binding_run_id binding \<noteq> run_id r) EventRunMismatch) (\<lambda>_.
      try_in r (prepare_event ops r (binding_node_id binding) (attempt_from_event event)) (\<lambda>expected_event.
      try_in r (fail_if (expected_event \<noteq> event) EventMismatch) (\<lambda>_.
      try_in r (apply_verified ops r event) (\<lambda>(outcome, next_r). (Ok outcome, next_r)))))))"

end
