(* ===== verification/Variable_Types.thy ===== *)
theory Variable_Types
  imports Variable_State
begin

text \<open>
  The recursive check of a value against its declared type, with its running counter and its
  depth, is equivalent to a declarative typing relation and two bounds. From it: what every
  reachable environment holds, and what a read can return.
\<close>

section \<open>The typing relation\<close>

inductive conforms ::
  "SecurityClassification \<Rightarrow> VariableWriter \<Rightarrow> VariableEnvironmentLimits \<Rightarrow> CanonicalVariableValue \<Rightarrow>
   VariableValueType \<Rightarrow> bool" for classification writer limits where
  conforms_scalar: "is_scalar v \<Longrightarrow> is_secret_reference v = (classification = SecretReference) \<Longrightarrow>
    validate_scalar v t writer limits = Ok () \<Longrightarrow> conforms classification writer limits v t"
| conforms_list: "classification \<noteq> SecretReference \<Longrightarrow> length xs \<le> max_items \<Longrightarrow>
    (\<And>x. x \<in> set xs \<Longrightarrow> conforms classification writer limits x item_type) \<Longrightarrow>
    conforms classification writer limits (CList xs) (VList item_type max_items)"
| conforms_map: "classification \<noteq> SecretReference \<Longrightarrow> length es \<le> max_entries \<Longrightarrow>
    (\<And>e. e \<in> set es \<Longrightarrow> validate_map_key (fst e) limits = Ok () \<and>
       conforms classification writer limits (snd e) entry_type) \<Longrightarrow>
    conforms classification writer limits (CMap es) (VMap entry_type max_entries)"

inductive_cases conforms_listE: "conforms classification writer limits (CList xs) t"
inductive_cases conforms_mapE: "conforms classification writer limits (CMap es) t"

lemma conforms_list_iff:
  "conforms classification writer limits (CList xs) t \<longleftrightarrow>
     classification \<noteq> SecretReference \<and>
     (\<exists>item_type max_items. t = VList item_type max_items \<and> length xs \<le> max_items \<and>
        (\<forall>x \<in> set xs. conforms classification writer limits x item_type))"
  by (auto elim!: conforms_listE intro: conforms_list)

lemma conforms_map_iff:
  "conforms classification writer limits (CMap es) t \<longleftrightarrow>
     classification \<noteq> SecretReference \<and>
     (\<exists>entry_type max_entries. t = VMap entry_type max_entries \<and> length es \<le> max_entries \<and>
        (\<forall>e \<in> set es. validate_map_key (fst e) limits = Ok ()) \<and>
        (\<forall>e \<in> set es. conforms classification writer limits (snd e) entry_type))"
  by (auto elim!: conforms_mapE intro!: conforms_map)

lemma conforms_scalar_iff:
  "is_scalar v \<Longrightarrow> conforms classification writer limits v t \<longleftrightarrow>
     is_secret_reference v = (classification = SecretReference) \<and> validate_scalar v t writer limits = Ok ()"
  by (subst conforms.simps) auto

text \<open>The elements and entries of a value at every depth, and its depth.\<close>

function total_items :: "CanonicalVariableValue \<Rightarrow> nat" where
  "total_items v =
     (case v of
        CList xs \<Rightarrow> length xs + sum_list (map total_items xs)
      | CMap es \<Rightarrow> length es + sum_list (map (\<lambda>e. total_items (snd e)) es)
      | _ \<Rightarrow> 0)"
  by pat_completeness auto
termination
  by (relation "measure size") (auto dest: size_entry_less simp: less_Suc_eq_le size_list_estimation')

declare total_items.simps [simp del]

function value_depth :: "CanonicalVariableValue \<Rightarrow> nat" where
  "value_depth v =
     (case v of
        CList xs \<Rightarrow> Suc (foldr max (map value_depth xs) 0)
      | CMap es \<Rightarrow> Suc (foldr max (map (\<lambda>e. value_depth (snd e)) es) 0)
      | _ \<Rightarrow> 1)"
  by pat_completeness auto
termination
  by (relation "measure size") (auto dest: size_entry_less simp: less_Suc_eq_le size_list_estimation')

declare value_depth.simps [simp del]

lemma total_items_simps [simp]:
  "total_items (CList xs) = length xs + sum_list (map total_items xs)"
  "total_items (CMap es) = length es + sum_list (map (\<lambda>e. total_items (snd e)) es)"
  "is_scalar v \<Longrightarrow> total_items v = 0"
  by (simp add: total_items.simps [of "CList _"], simp add: total_items.simps [of "CMap _"])
     (cases v; simp add: total_items.simps)

lemma value_depth_simps [simp]:
  "value_depth (CList xs) = Suc (foldr max (map value_depth xs) 0)"
  "value_depth (CMap es) = Suc (foldr max (map (\<lambda>e. value_depth (snd e)) es) 0)"
  "is_scalar v \<Longrightarrow> value_depth v = 1"
  by (simp add: value_depth.simps [of "CList _"], simp add: value_depth.simps [of "CMap _"])
     (cases v; simp add: value_depth.simps)

lemma add_foldr_max_le:
  "a + foldr max (map f xs) 0 \<le> (b :: nat) \<longleftrightarrow> a \<le> b \<and> (\<forall>x \<in> set xs. a + f x \<le> b)"
  by (induction xs) auto

section \<open>The check is the relation with its bounds\<close>

definition item_cap :: "VariableEnvironmentLimits \<Rightarrow> nat" where
  "item_cap limits = min (limit_value_items limits) usize_max"

lemma add_items_Ok: "add_items n k limits = Ok m \<longleftrightarrow> m = n + k \<and> m \<le> item_cap limits"
  by (auto simp: add_items_def item_cap_def)

lemma try_fold_counts:
  assumes "\<And>x n m. x \<in> set xs \<Longrightarrow> n \<le> cap \<Longrightarrow> f n x = Ok m \<longleftrightarrow> P x \<and> m = n + k x \<and> m \<le> cap"
    and "n \<le> (cap :: nat)"
  shows "try_fold f xs n = Ok m \<longleftrightarrow> (\<forall>x \<in> set xs. P x) \<and> m = n + sum_list (map k xs) \<and> m \<le> cap"
  using assms
proof (induction xs arbitrary: n)
  case (Cons x xs)
  have "try_fold f (x # xs) n = Ok m \<longleftrightarrow> (\<exists>n'. f n x = Ok n' \<and> try_fold f xs n' = Ok m)"
    by (simp add: rbind_eq_Ok)
  also have "\<dots> \<longleftrightarrow> (\<exists>n'. (P x \<and> n' = n + k x \<and> n' \<le> cap) \<and> try_fold f xs n' = Ok m)"
    using Cons.prems by simp
  also have "\<dots> \<longleftrightarrow> (P x \<and> n + k x \<le> cap \<and> (\<forall>x \<in> set xs. P x) \<and>
      m = n + k x + sum_list (map k xs) \<and> m \<le> cap)"
    using Cons.IH [of "n + k x"] Cons.prems(1) by auto
  also have "\<dots> \<longleftrightarrow> (\<forall>x \<in> set (x # xs). P x) \<and> m = n + sum_list (map k (x # xs)) \<and> m \<le> cap" by auto
  finally show ?case .
qed auto

lemma validate_value_type_scalar:
  "is_scalar v \<Longrightarrow> validate_value_type v t classification writer limits depth n = Ok m \<longleftrightarrow>
     depth \<le> limit_value_depth limits \<and> is_secret_reference v = (classification = SecretReference) \<and>
     validate_scalar v t writer limits = Ok () \<and> m = n"
  by (subst validate_value_type.simps)
     (cases v; auto simp: result_simps is_scalar_def not_less)

lemma validate_value_type_list:
  "validate_value_type (CList xs) t classification writer limits depth n = Ok m \<longleftrightarrow>
     depth \<le> limit_value_depth limits \<and> classification \<noteq> SecretReference \<and>
     (\<exists>item_type max_items. t = VList item_type max_items \<and> length xs \<le> max_items \<and>
        n + length xs \<le> item_cap limits \<and>
        try_fold (\<lambda>n x. validate_value_type x item_type classification writer limits (depth + 1) n) xs
          (n + length xs) = Ok m)"
  by (subst validate_value_type.simps)
     (auto simp: result_simps add_items_Ok not_less split: VariableValueType.splits)

lemma validate_value_type_map:
  "validate_value_type (CMap es) t classification writer limits depth n = Ok m \<longleftrightarrow>
     depth \<le> limit_value_depth limits \<and> classification \<noteq> SecretReference \<and>
     (\<exists>entry_type max_entries. t = VMap entry_type max_entries \<and> length es \<le> max_entries \<and>
        n + length es \<le> item_cap limits \<and>
        try_fold (\<lambda>n e. rbind (validate_map_key (fst e) limits) (\<lambda>_.
            validate_value_type (snd e) entry_type classification writer limits (depth + 1) n)) es
          (n + length es) = Ok m)"
  by (subst validate_value_type.simps)
     (auto simp: result_simps add_items_Ok not_less split: VariableValueType.splits)

lemma validate_value_type_iff:
  "n \<le> item_cap limits \<Longrightarrow>
   validate_value_type v t classification writer limits depth n = Ok m \<longleftrightarrow>
     (conforms classification writer limits v t \<and> depth + value_depth v \<le> Suc (limit_value_depth limits)) \<and>
     m = n + total_items v \<and> m \<le> item_cap limits"
proof (induction v arbitrary: t depth n m rule: value_induct)
  case (scalar v)
  then show ?case by (auto simp: validate_value_type_scalar conforms_scalar_iff)
next
  case (list xs)
  have "try_fold (\<lambda>n x. validate_value_type x item_type classification writer limits (depth + 1) n) xs n' = Ok m \<longleftrightarrow>
      (\<forall>x \<in> set xs. conforms classification writer limits x item_type \<and>
         depth + 1 + value_depth x \<le> Suc (limit_value_depth limits)) \<and>
      m = n' + sum_list (map total_items xs) \<and> m \<le> item_cap limits"
    if "n' \<le> item_cap limits" for item_type n'
    by (rule try_fold_counts [OF list.IH that])
  from this [of "n + length xs"] show ?case
    by (auto simp: validate_value_type_list conforms_list_iff add_foldr_max_le ball_conj_distrib)
next
  case (map es)
  have "try_fold (\<lambda>n e. rbind (validate_map_key (fst e) limits) (\<lambda>_.
        validate_value_type (snd e) entry_type classification writer limits (depth + 1) n)) es n' = Ok m \<longleftrightarrow>
      (\<forall>e \<in> set es. validate_map_key (fst e) limits = Ok () \<and>
         conforms classification writer limits (snd e) entry_type \<and>
         depth + 1 + value_depth (snd e) \<le> Suc (limit_value_depth limits)) \<and>
      m = n' + sum_list (map (\<lambda>e. total_items (snd e)) es) \<and> m \<le> item_cap limits"
    if "n' \<le> item_cap limits" for entry_type n'
    by (rule try_fold_counts [OF _ that]) (simp add: rbind_eq_Ok map.IH conj_assoc)
  from this [of "n + length es"] show ?case
    by (auto simp: validate_value_type_map conforms_map_iff add_foldr_max_le ball_conj_distrib)
qed

section \<open>Secrets\<close>

function contains_secret :: "CanonicalVariableValue \<Rightarrow> bool" where
  "contains_secret v =
     (case v of
        CList xs \<Rightarrow> list_ex contains_secret xs
      | CMap es \<Rightarrow> list_ex (\<lambda>e. contains_secret (snd e)) es
      | _ \<Rightarrow> is_secret_reference v)"
  by pat_completeness auto
termination
  by (relation "measure size") (auto dest: size_entry_less simp: less_Suc_eq_le size_list_estimation')

declare contains_secret.simps [simp del]

lemma contains_secret_simps [simp]:
  "contains_secret (CList xs) \<longleftrightarrow> list_ex contains_secret xs"
  "contains_secret (CMap es) \<longleftrightarrow> list_ex (\<lambda>e. contains_secret (snd e)) es"
  "is_scalar v \<Longrightarrow> contains_secret v = is_secret_reference v"
  by (simp add: contains_secret.simps [of "CList _"], simp add: contains_secret.simps [of "CMap _"])
     (cases v; simp add: contains_secret.simps)

lemma conforms_secret:
  "conforms classification writer limits v t \<Longrightarrow>
   contains_secret v \<longleftrightarrow> classification = SecretReference"
  by (induction rule: conforms.induct) (auto simp: list_ex_iff)

lemma conforms_secret_reference:
  "conforms SecretReference writer limits v t \<Longrightarrow> is_secret_reference v"
  by (erule conforms.cases) auto

section \<open>What a reachable environment holds\<close>

definition well_kept :: "variable_ops \<Rightarrow> CanonicalVariableEnvironment \<Rightarrow> string \<Rightarrow> CanonicalVariableEntry \<Rightarrow> bool" where
  "well_kept ops env name entry \<longleftrightarrow>
     (\<exists>d. fmlookup (env_declarations env) name = Some d \<and> entry_version entry \<noteq> 0 \<and>
        value_hash ops (entry_value entry) = Ok (entry_value_hash entry) \<and>
        conforms (security_classification d) (entry_writer entry) (env_limits env) (entry_value entry) (value_type d) \<and>
        total_items (entry_value entry) \<le> limit_value_items (env_limits env) \<and>
        value_depth (entry_value entry) \<le> limit_value_depth (env_limits env) \<and>
        entry_branch_id entry =
          (if variable_scope d = ScopeBranch then map_option write_branch_id (writer_branch (entry_writer entry)) else None) \<and>
        (variable_scope d = ScopeBranch \<longrightarrow> writer_branch (entry_writer entry) \<noteq> None))"

lemma validate_value_conforms:
  assumes "validate_value ops env d writer v = Ok ()"
  shows "conforms (security_classification d) writer (env_limits env) v (value_type d)"
    "total_items v \<le> limit_value_items (env_limits env)" "value_depth v \<le> limit_value_depth (env_limits env)"
  using assms by (auto simp: validate_value_def result_simps validate_value_type_iff item_cap_def)

lemma write_scope_branch:
  "validate_direct_write_scope d writer = Ok b \<Longrightarrow>
   b = (if variable_scope d = ScopeBranch then map_option write_branch_id (writer_branch writer) else None) \<and>
   (variable_scope d = ScopeBranch \<longrightarrow> writer_branch writer \<noteq> None)"
  by (auto simp: validate_direct_write_scope_def split: VariableScope.splits option.splits if_splits)

lemma replayed_entry_well_kept:
  "validate_replayed_entry ops env (name, entry) = Ok () \<Longrightarrow> well_kept ops env name entry"
proof -
  assume "validate_replayed_entry ops env (name, entry) = Ok ()"
  then obtain d where d: "fmlookup (env_declarations env) name = Some d"
      "entry_version entry \<noteq> 0" "value_hash ops (entry_value entry) = Ok (entry_value_hash entry)"
    and scope: "validate_direct_write_scope d (entry_writer entry) = Ok (entry_branch_id entry)"
    and v: "validate_value ops env d (entry_writer entry) (entry_value entry) = Ok ()"
    by (auto simp: validate_replayed_entry_def declaration_of_def validate_direct_write_scope_replayed_def
        result_simps)
  show ?thesis
    unfolding well_kept_def
    by (intro exI [of _ d] conjI d validate_value_conforms [OF v]
        conjunct1 [OF write_scope_branch [OF scope]] conjunct2 [OF write_scope_branch [OF scope]])
qed


text \<open>
  C36. A read is confined. Whoever reads a value is a declared consumer of it; a branch-scoped
  value was written inside the very branch that the reader runs in; and a value holds a secret
  reference, at any depth, exactly when its variable is classified as one, in which case it is
  nothing but that reference.
\<close>

theorem read_confined:
  assumes "reachable_env ops env" "read_variable env name reader = Ok entry"
  shows "\<exists>d. fmlookup (env_declarations env) name = Some d \<and>
    fmlookup (env_entries env) name = Some entry \<and> reader_node_id reader |\<in>| consumers d \<and>
    (variable_scope d \<noteq> ScopeBranch \<or>
      (\<exists>b. writer_branch (entry_writer entry) = Some b \<and> reader_branch_id reader = Some (write_branch_id b))) \<and>
    (contains_secret (entry_value entry) \<longleftrightarrow> security_classification d = SecretReference) \<and>
    (is_secret_reference (entry_value entry) \<longleftrightarrow> security_classification d = SecretReference)"
proof -
  obtain d where d: "fmlookup (env_declarations env) name = Some d" "reader_node_id reader |\<in>| consumers d"
      "fmlookup (env_entries env) name = Some entry"
      "variable_scope d \<noteq> ScopeBranch \<or> entry_branch_id entry = reader_branch_id reader"
    using assms(2) by (auto simp: read_variable_def declaration_of_def result_simps)
  have "well_kept ops env name entry"
    using reachable_valid [OF assms(1)] d(3) replayed_entry_well_kept by (auto simp: validate_replayed_Ok)
  then have kept: "conforms (security_classification d) (entry_writer entry) (env_limits env) (entry_value entry) (value_type d)"
      "variable_scope d \<noteq> ScopeBranch \<or> (\<exists>b. writer_branch (entry_writer entry) = Some b \<and>
         entry_branch_id entry = Some (write_branch_id b))"
    using d(1) by (auto simp: well_kept_def)
  have "is_secret_reference (entry_value entry) \<Longrightarrow> contains_secret (entry_value entry)"
    by (cases "entry_value entry") (simp_all add: contains_secret.simps)
  then show ?thesis
    using d kept conforms_secret [OF kept(1)] conforms_secret_reference [of _ _ "entry_value entry"]
    by auto
qed

end
