(* ===== verification/Variable_Replay.thy ===== *)
theory Variable_Replay
  imports Variable_Reduce Variable_Types
begin

text \<open>
  What the reducer promises: it applies exactly the events that it prepares, an accepted event
  moves the version of one variable by one, a removed variable stays removed, and of every
  state it reaches the replay check can object to nothing but the audit of initial values.
\<close>

section \<open>A prepared event carries its attempt\<close>

lemma sort_branches_idem [simp]: "sort_branches (sort_branches bs) = sort_branches bs"
  by (simp add: sort_branches_def sort_key_id_if_sorted)

fun canonical_attempt :: "VariableValidationAttempt \<Rightarrow> VariableValidationAttempt" where
  "canonical_attempt (AttemptMerge variable writer expected branches) =
     AttemptMerge variable writer expected (sort_branches branches)"
| "canonical_attempt attempt = attempt"

lemma assign_expected:
  "fst (assign ops env name writer expected v) = Ok entry \<Longrightarrow>
   expected = map_option entry_version (fmlookup (env_entries env) name)"
  by (metis assign_Ok install_Ok(6) next_version_Ok prod.collapse)

lemma merge_expected:
  "fst (merge_branches ops env name writer expected bs) = Ok entry \<Longrightarrow>
   expected = map_option entry_version (fmlookup (env_entries env) name)"
  by (metis merge_branches_Ok install_Ok(6) next_version_Ok prod.collapse)

lemma prepare_success_canonical:
  "prepare_success ops r n (canonical_attempt attempt) = prepare_success ops r n attempt"
  by (cases attempt) (simp_all add: prepare_success_def prepare_merge_def)

lemma prepare_declare_Ok:
  "prepare_declare ops r n declaration = Ok event \<longleftrightarrow>
     (\<exists>hash. event = Declared \<lparr>declared_binding = make_binding r n (variable_name declaration) None None None {||},
            declared_declaration = declaration, declared_hash = hash\<rparr> \<and>
        n = RUNTIME_PRODUCER \<and> declaration_hash ops declaration = Ok hash \<and>
        (case fmlookup (env_declarations (environment r)) (variable_name declaration) of
           Some existing \<Rightarrow> existing = declaration \<and> variable_name declaration |\<notin>| observed_declarations r
         | None \<Rightarrow> fcard (fmdom (env_declarations (environment r))) < limit_variables (env_limits (environment r)) \<and>
             validate_live_declaration declaration (env_limits (environment r)) = Ok ()))"
  by (auto simp: prepare_declare_def Let_def result_simps not_le split: option.splits)

lemma prepare_assign_Ok:
  "prepare_assign ops r n variable writer expected v = Ok event \<longleftrightarrow>
     (\<exists>entry. fst (assign (value_ops ops) (environment r) variable writer expected v) = Ok entry \<and>
        event = Assigned \<lparr>assigned_binding = make_binding r n variable expected
             (Some (entry_version entry)) (Some (entry_value_hash entry)) (artifact_references_of v),
           assigned_writer = writer, assigned_value = v\<rparr>)"
  using assign_expected by (fastforce simp: prepare_assign_def result_simps)

lemma prepare_seed_audit_Ok:
  "prepare_seed_audit r n variable writer v = Ok event \<longleftrightarrow>
     (\<exists>entry. fmlookup (env_entries (environment r)) variable = Some entry \<and>
        entry_version entry = 1 \<and> entry_writer entry = WriterRuntime \<and> entry_value entry = v \<and>
        event = Assigned \<lparr>assigned_binding = make_binding r n variable None (Some 1)
             (Some (entry_value_hash entry)) (artifact_references_of v),
           assigned_writer = writer, assigned_value = v\<rparr>)"
  by (auto simp: prepare_seed_audit_def result_simps)

lemma prepare_merge_Ok:
  "prepare_merge ops r n variable writer expected branches = Ok event \<longleftrightarrow>
     (\<exists>entry policy d. fmlookup (env_declarations (environment r)) variable = Some d \<and> merge_policy d = Some policy \<and>
        fst (merge_branches (value_ops ops) (environment r) variable writer expected (sort_branches branches)) = Ok entry \<and>
        event = Merged \<lparr>merged_binding = make_binding r n variable expected
             (Some (entry_version entry)) (Some (entry_value_hash entry)) (artifact_references_of (entry_value entry)),
           merged_writer = writer, merged_policy = policy, merged_branches = sort_branches branches,
           merged_value = entry_value entry\<rparr>)"
  using merge_expected by (fastforce simp: prepare_merge_def declaration_of_def Let_def result_simps)

lemma prepare_removal_Ok:
  "prepare_removal r n variable writer expected = Ok event \<longleftrightarrow>
     (\<exists>d entry version. variable |\<notin>| fmdom (removed r) \<and>
        fmlookup (env_declarations (environment r)) variable = Some d \<and>
        variable_scope d \<in> {ScopeNode, ScopeBranch} \<and> authorize_writer d writer = Ok () \<and>
        fmlookup (env_entries (environment r)) variable = Some entry \<and> entry_version entry = expected \<and>
        validate_direct_write_scope_replayed d writer (entry_branch_id entry) = Ok (entry_branch_id entry) \<and>
        checked_add_u64 expected 1 = Some version \<and>
        event = Removed \<lparr>removed_binding = make_binding r n variable (Some expected) (Some version)
             (Some (entry_value_hash entry)) (artifact_references_of (entry_value entry)),
           removed_writer = writer\<rparr>)"
  by (auto simp: prepare_removal_def ensure_not_removed_def declaration_of_def result_simps)

lemma make_binding_simps [simp]:
  "binding_run_id (make_binding r n v p q h s) = run_id r"
  "binding_node_id (make_binding r n v p q h s) = n"
  "binding_variable (make_binding r n v p q h s) = v"
  "binding_prior_version (make_binding r n v p q h s) = p"
  "binding_new_version (make_binding r n v p q h s) = q"
  "binding_value_hash (make_binding r n v p q h s) = h"
  "binding_artifact_references (make_binding r n v p q h s) = s"
  by (simp_all add: make_binding_def)

lemma prepare_success_binding:
  assumes "prepare_success ops r n attempt = Ok event"
  shows "attempt_from_event event = canonical_attempt attempt"
    "binding_run_id (event_binding event) = run_id r" "binding_node_id (event_binding event) = n"
    "\<And>f. event \<noteq> ValidationFailed f"
  using assms
  by (cases attempt;
      auto simp: prepare_success_def prepare_declare_Ok prepare_assign_Ok prepare_seed_audit_Ok prepare_merge_Ok
        prepare_removal_Ok result_simps split: if_splits)+

lemma prepare_failure_Ok:
  "prepare_failure ops r n attempt e = Ok failure \<longleftrightarrow>
     (\<exists>bs. attempt_to_vec ops attempt = Some bs \<and>
        failure = \<lparr>failed_binding = make_binding r n (attempt_variable attempt)
            (current_version r (attempt_variable attempt)) (current_version r (attempt_variable attempt))
            (Some (digest ops bs)) (attempt_artifact_references attempt),
          failed_attempt = attempt, failed_code = failure_code e\<rparr>)"
  by (auto simp: prepare_failure_def Let_def result_simps)

lemma prepare_event_Ok:
  "prepare_event ops r n attempt = Ok event \<longleftrightarrow>
     validate_event_identity (run_id r) n = Ok () \<and>
     (prepare_success ops r n attempt = Ok event \<or>
      (\<exists>e failure. prepare_success ops r n attempt = Err e \<and>
         prepare_failure ops r n attempt e = Ok failure \<and> event = ValidationFailed failure))"
  by (auto simp: prepare_event_def result_simps split: result.splits)

lemma prepare_event_again:
  assumes "prepare_event ops r n attempt = Ok event"
  shows "binding_run_id (event_binding event) = run_id r" "binding_node_id (event_binding event) = n"
    "validate_event_identity (run_id r) n = Ok ()"
    "prepare_event ops r n (attempt_from_event event) = Ok event"
  using assms prepare_success_binding [of ops r n attempt event]
  by (auto simp: prepare_event_Ok prepare_success_canonical prepare_failure_Ok)

lemma apply_event_Ok:
  "apply_event ops r event = (Ok outcome, r') \<longleftrightarrow>
     (\<exists>attempt. prepare_event ops r (binding_node_id (event_binding event)) attempt = Ok event) \<and>
     apply_verified ops r event = Ok (outcome, r')"
proof -
  have "apply_event ops r event = (Ok outcome, r') \<longleftrightarrow>
      validate_event_identity (binding_run_id (event_binding event)) (binding_node_id (event_binding event)) = Ok () \<and>
      binding_run_id (event_binding event) = run_id r \<and>
      prepare_event ops r (binding_node_id (event_binding event)) (attempt_from_event event) = Ok event \<and>
      apply_verified ops r event = Ok (outcome, r')"
    by (auto simp: apply_event_def Let_def result_simps)
  then show ?thesis using prepare_event_again by metis
qed

lemma apply_event_Err: "apply_event ops r event = (Err e, r') \<Longrightarrow> r' = r"
  unfolding apply_event_def Let_def try_in_def by (auto split: result.splits)

end
