(* ===== verification/Variable_Consistent.thy ===== *)
theory Variable_Consistent
  imports Variable_Replay
begin

text \<open>The invariant of the reducer and its preservation by every event.\<close>

section \<open>The invariant\<close>

definition consistent :: "event_ops \<Rightarrow> CanonicalVariableEventReducer \<Rightarrow> bool" where
  "consistent ops r \<longleftrightarrow>
     validate_event_identity (run_id r) RUNTIME_PRODUCER = Ok () \<and>
     validate_replayed (value_ops ops) (environment r) = Ok () \<and>
     fmdom (declaration_hashes r) = fmdom (env_declarations (environment r)) \<and>
     observed_declarations r |\<subseteq>| fmdom (env_declarations (environment r)) \<and>
     (\<forall>name d. fmlookup (env_declarations (environment r)) name = Some d \<longrightarrow>
        check_declaration_hash ops r (name, d) = Ok ()) \<and>
     (\<forall>name t. fmlookup (removed r) name = Some t \<longrightarrow> validate_removed r (name, t) = Ok ()) \<and>
     (\<forall>name h. fmlookup (observed_hashes r) name = Some h \<longrightarrow> fmlookup (seeded_hashes r) name = Some h) \<and>
     (\<forall>name h. fmlookup (seeded_hashes r) name = Some h \<and> name |\<notin>| fmdom (observed_hashes r) \<longrightarrow>
        name |\<in>| fmdom (env_entries (environment r)) \<or> name |\<in>| fmdom (removed r)) \<and>
     length (validation_failures r) \<le> MAX_CANONICAL_VARIABLE_FAILURES \<and>
     (\<forall>f \<in> set (validation_failures r). validate_failure_static ops (run_id r) f = Ok ())"

lemma consistent_replay:
  "consistent ops r \<Longrightarrow> reducer_validate_replayed ops r = validate_initial_assignment_audit_state ops r"
proof -
  assume "consistent ops r"
  then have "check_all (check_declaration_hash ops r) (sorted_list_of_fmap (env_declarations (environment r))) = Ok ()"
    "check_all (validate_removed r) (sorted_list_of_fmap (removed r)) = Ok ()"
    "check_all (validate_failure_static ops (run_id r)) (validation_failures r) = Ok ()"
    by (auto simp: consistent_def check_all_eq_Ok sorted_list_of_fmap_iff)
  then show ?thesis
    using \<open>consistent ops r\<close>
    by (cases "validate_initial_assignment_audit_state ops r")
       (simp_all add: reducer_validate_replayed_def consistent_def not_less [symmetric])
qed

lemma audit_state_seeds:
  assumes "validate_initial_assignment_audit_state ops r = Ok ()"
  shows "fmlookup (observed_hashes r) name = Some h \<Longrightarrow> fmlookup (seeded_hashes r) name = Some h"
    "fmlookup (seeded_hashes r) name = Some h \<Longrightarrow> name |\<notin>| fmdom (observed_hashes r) \<Longrightarrow>
     name |\<in>| fmdom (env_entries (environment r))"
proof -
  have "observed_hashes r = fmempty \<and> seeded_hashes r = fmempty \<or>
      (list_all (\<lambda>(name, h). fmlookup (seeded_hashes r) name = Some h) (sorted_list_of_fmap (observed_hashes r)) \<and>
       check_all (check_seed r) (sorted_list_of_fmap (seeded_hashes r)) = Ok ())"
    using assms by (auto simp: validate_initial_assignment_audit_state_def result_simps simp del: check_all_eq_Ok split: if_splits)
  then have observed: "(name, h) \<in> set (sorted_list_of_fmap (observed_hashes r)) \<Longrightarrow>
        fmlookup (seeded_hashes r) name = Some h"
    and seeds: "(name, h) \<in> set (sorted_list_of_fmap (seeded_hashes r)) \<Longrightarrow> check_seed r (name, h) = Ok ()"
    by (auto simp: list_all_iff check_all_eq_Ok sorted_list_of_fmap_iff)
  show "fmlookup (observed_hashes r) name = Some h \<Longrightarrow> fmlookup (seeded_hashes r) name = Some h"
    using observed by (simp add: sorted_list_of_fmap_iff)
  show "fmlookup (seeded_hashes r) name = Some h \<Longrightarrow> name |\<notin>| fmdom (observed_hashes r) \<Longrightarrow>
     name |\<in>| fmdom (env_entries (environment r))"
    using seeds by (auto simp: sorted_list_of_fmap_iff check_seed_def result_simps intro: fmdomI)
qed

lemma replayed_consistent:
  assumes "reducer_validate_replayed ops r = Ok ()"
  shows "consistent ops r"
proof -
  have checks: "validate_event_identity (run_id r) RUNTIME_PRODUCER = Ok ()"
    "validate_replayed (value_ops ops) (environment r) = Ok ()"
    "fcard (fmdom (declaration_hashes r)) = fcard (fmdom (env_declarations (environment r)))"
    "observed_declarations r |\<subseteq>| fmdom (env_declarations (environment r))"
    "\<forall>name d. fmlookup (env_declarations (environment r)) name = Some d \<longrightarrow>
       check_declaration_hash ops r (name, d) = Ok ()"
    "validate_initial_assignment_audit_state ops r = Ok ()"
    "\<forall>name t. fmlookup (removed r) name = Some t \<longrightarrow> validate_removed r (name, t) = Ok ()"
    "length (validation_failures r) \<le> MAX_CANONICAL_VARIABLE_FAILURES"
    "\<forall>f \<in> set (validation_failures r). validate_failure_static ops (run_id r) f = Ok ()"
    using assms by (auto simp: reducer_validate_replayed_def result_simps sorted_list_of_fmap_iff not_less)
  have "fmdom (env_declarations (environment r)) |\<subseteq>| fmdom (declaration_hashes r)"
  proof
    fix name
    assume "name |\<in>| fmdom (env_declarations (environment r))"
    then obtain d where "fmlookup (env_declarations (environment r)) name = Some d" by (auto simp: fmlookup_dom_iff)
    then have "check_declaration_hash ops r (name, d) = Ok ()" using checks(5) by blast
    then show "name |\<in>| fmdom (declaration_hashes r)"
      by (auto simp: check_declaration_hash_def result_simps intro: fmdomI)
  qed
  then have "fmdom (declaration_hashes r) = fmdom (env_declarations (environment r))"
    using checks(3) by (metis fcard_seteq order_refl)
  then show ?thesis
    using checks audit_state_seeds [OF checks(6)] by (auto simp: consistent_def)
qed

lemma reducer_new_consistent: "reducer_new ops run limits = Ok r \<Longrightarrow> consistent ops r"
  by (auto simp: reducer_new_def result_simps consistent_def environment_new_valid)
     (auto simp: environment_new_def result_simps)

lemma reducer_initialize_consistent:
  "reducer_initialize ops run limits declarations initial_values = Ok r \<Longrightarrow> consistent ops r"
  by (auto simp: reducer_initialize_def result_simps intro: replayed_consistent)

section \<open>The size of an environment\<close>

definition entry_size :: "variable_ops \<Rightarrow> CanonicalVariableEntry \<Rightarrow> nat" where
  "entry_size ops entry = (case value_to_vec ops (entry_value entry) of Some bs \<Rightarrow> length bs | None \<Rightarrow> 0)"

lemma ball_entries:
  "(\<forall>v \<in> set (map snd (sorted_list_of_fmap m)). P v) \<longleftrightarrow> (\<forall>k v. fmlookup m k = Some v \<longrightarrow> P v)"
proof -
  have "set (map snd (sorted_list_of_fmap m)) = {v. \<exists>k. fmlookup m k = Some v}"
    by (auto simp: image_iff Bex_def sorted_list_of_fmap_iff)
  then show ?thesis by auto
qed

lemma environment_size_Ok:
  "validate_environment_size ops env = Ok () \<longleftrightarrow>
     (\<forall>name entry. fmlookup (env_entries env) name = Some entry \<longrightarrow> value_to_vec ops (entry_value entry) \<noteq> None) \<and>
     (\<Sum>name \<in> fset (fmdom (env_entries env)). entry_size ops (the (fmlookup (env_entries env) name)))
       \<le> min usize_max (limit_environment_bytes (env_limits env))"
proof -
  let ?entries = "sorted_list_of_fmap (env_entries env)"
  have step: "add_size ops n entry = Ok m \<longleftrightarrow>
      value_to_vec ops (entry_value entry) \<noteq> None \<and> m = n + entry_size ops entry \<and> m \<le> usize_max"
    if "n \<le> usize_max" for n entry m
    by (auto simp: add_size_def canonical_value_bytes_def entry_size_def result_simps not_less)
  have fold: "try_fold (add_size ops) (map snd ?entries) 0 = Ok m \<longleftrightarrow>
      (\<forall>entry \<in> set (map snd ?entries). value_to_vec ops (entry_value entry) \<noteq> None) \<and>
      m = 0 + sum_list (map (entry_size ops) (map snd ?entries)) \<and> m \<le> usize_max" for m
    by (rule try_fold_counts) (simp_all add: step)
  have "sum_list (map (entry_size ops) (map snd ?entries)) =
      (\<Sum>name \<in> fset (fmdom (env_entries env)). entry_size ops (the (fmlookup (env_entries env) name)))"
    by (simp add: sorted_list_of_fmap_def comp_def sorted_list_of_fset.rep_eq
        sum_list_distinct_conv_sum_set)
  moreover have "(\<forall>entry \<in> set (map snd ?entries). value_to_vec ops (entry_value entry) \<noteq> None) \<longleftrightarrow>
      (\<forall>name entry. fmlookup (env_entries env) name = Some entry \<longrightarrow> value_to_vec ops (entry_value entry) \<noteq> None)"
    by (rule ball_entries)
  ultimately show ?thesis
    by (auto simp only: validate_environment_size_def rbind_eq_Ok fold fail_if_eq_Ok not_less add_0 min.bounded_iff)
qed

lemma environment_size_drop:
  assumes "validate_environment_size ops env = Ok ()"
  shows "validate_environment_size ops (env\<lparr>env_entries := fmdrop name (env_entries env)\<rparr>) = Ok ()"
proof -
  let ?size = "\<lambda>m name. entry_size ops (the (fmlookup m name))"
  have "(\<Sum>n \<in> fset (fmdom (fmdrop name (env_entries env))). ?size (fmdrop name (env_entries env)) n) =
      (\<Sum>n \<in> fset (fmdom (env_entries env)) - {name}. ?size (env_entries env) n)"
    by (rule sum.cong) auto
  also have "\<dots> \<le> (\<Sum>n \<in> fset (fmdom (env_entries env)). ?size (env_entries env) n)"
    by (rule sum_mono2) auto
  finally show ?thesis
    using assms by (auto simp: environment_size_Ok split: if_splits)
qed

lemma validate_replayed_drop:
  "validate_replayed ops env = Ok () \<Longrightarrow>
   validate_replayed ops (env\<lparr>env_entries := fmdrop name (env_entries env)\<rparr>) = Ok ()"
  by (auto simp: validate_replayed_Ok environment_size_drop split: if_splits)

section \<open>Every event keeps the invariant\<close>

lemma prepared_Declared:
  assumes "prepare_event ops r n attempt = Ok (Declared e)"
  obtains d hash where
    "e = \<lparr>declared_binding = make_binding r n (variable_name d) None None None {||},
      declared_declaration = d, declared_hash = hash\<rparr>"
    "declaration_hash ops d = Ok hash"
    "case fmlookup (env_declarations (environment r)) (variable_name d) of
       Some existing \<Rightarrow> existing = d \<and> variable_name d |\<notin>| observed_declarations r
     | None \<Rightarrow> fcard (fmdom (env_declarations (environment r))) < limit_variables (env_limits (environment r)) \<and>
         validate_live_declaration d (env_limits (environment r)) = Ok ()"
  using assms
  by (cases attempt) (auto simp: prepare_event_Ok prepare_success_def prepare_declare_Ok prepare_assign_Ok
      prepare_seed_audit_Ok prepare_merge_Ok prepare_removal_Ok result_simps split: if_splits)

text \<open>An accepted assignment is the audit of a seed or a fresh assignment.\<close>

lemma prepared_Assigned:
  assumes "prepare_event ops r n attempt = Ok (Assigned e)"
  obtains (audit) variable v entry where
    "e = \<lparr>assigned_binding = make_binding r n variable None (Some 1) (Some (entry_value_hash entry))
       (artifact_references_of v), assigned_writer = WriterRuntime, assigned_value = v\<rparr>"
    "variable |\<notin>| fmdom (removed r)"
    "fmlookup (env_entries (environment r)) variable = Some entry"
    "entry_version entry = 1" "entry_writer entry = WriterRuntime" "entry_value entry = v"
    "initial_assignment_audit_state ops r variable v = Ok (Some AuditPending)"
  | (fresh) variable writer expected v entry where
    "e = \<lparr>assigned_binding = make_binding r n variable expected (Some (entry_version entry))
       (Some (entry_value_hash entry)) (artifact_references_of v), assigned_writer = writer, assigned_value = v\<rparr>"
    "variable |\<notin>| fmdom (removed r)"
    "fst (assign (value_ops ops) (environment r) variable writer expected v) = Ok entry"
  using assms
  by (cases attempt) (auto simp: prepare_event_Ok prepare_success_def prepare_declare_Ok prepare_assign_Ok
      prepare_seed_audit_Ok prepare_merge_Ok prepare_removal_Ok ensure_not_removed_def result_simps split: if_splits)

lemma prepared_Merged:
  assumes "prepare_event ops r n attempt = Ok (Merged e)"
  obtains variable writer expected branches entry policy where
    "e = \<lparr>merged_binding = make_binding r n variable expected (Some (entry_version entry))
       (Some (entry_value_hash entry)) (artifact_references_of (entry_value entry)), merged_writer = writer,
       merged_policy = policy, merged_branches = branches, merged_value = entry_value entry\<rparr>"
    "variable |\<notin>| fmdom (removed r)"
    "fst (merge_branches (value_ops ops) (environment r) variable writer expected branches) = Ok entry"
  using assms
  by (cases attempt) (auto simp: prepare_event_Ok prepare_success_def prepare_declare_Ok prepare_assign_Ok
      prepare_seed_audit_Ok prepare_merge_Ok prepare_removal_Ok ensure_not_removed_def result_simps split: if_splits)

lemma prepared_Removed:
  assumes "prepare_event ops r n attempt = Ok (Removed e)"
  obtains variable writer entry version d where
    "e = \<lparr>removed_binding = make_binding r n variable (Some (entry_version entry)) (Some version)
       (Some (entry_value_hash entry)) (artifact_references_of (entry_value entry)), removed_writer = writer\<rparr>"
    "variable |\<notin>| fmdom (removed r)" "fmlookup (env_declarations (environment r)) variable = Some d"
    "variable_scope d \<in> {ScopeNode, ScopeBranch}" "authorize_writer d writer = Ok ()"
    "fmlookup (env_entries (environment r)) variable = Some entry"
    "validate_direct_write_scope_replayed d writer (entry_branch_id entry) = Ok (entry_branch_id entry)"
    "checked_add_u64 (entry_version entry) 1 = Some version"
  using assms
  by (cases attempt) (auto simp: prepare_event_Ok prepare_success_def prepare_declare_Ok prepare_assign_Ok
      prepare_seed_audit_Ok prepare_merge_Ok prepare_removal_Ok result_simps split: if_splits)

lemma prepared_ValidationFailed:
  assumes "prepare_event ops r n attempt = Ok (ValidationFailed failure)"
  shows "validate_failure_static ops (run_id r) failure = Ok ()"
proof -
  have "validate_event_identity (run_id r) n = Ok ()"
    and "\<exists>e. prepare_failure ops r n attempt e = Ok failure"
    using assms prepare_success_binding(4) [of ops r n attempt "ValidationFailed failure"]
    by (auto simp: prepare_event_Ok)
  then show ?thesis
    by (auto simp: prepare_failure_Ok validate_failure_static_def Let_def result_simps)
qed

end
