(* ===== verification/Variable_Invariant.thy ===== *)
theory Variable_Invariant
  imports Variable_Consistent
begin

text \<open>
  Every accepted event keeps the invariant of the reducer; from it, what the reducer promises
  to replay, to versions and to removed variables.
\<close>

section \<open>Steps\<close>

lemma fmlookup_or_insert:
  "fmlookup (or_insert k v m) x = (if x = k \<and> k |\<notin>| fmdom m then Some v else fmlookup m x)"
  by (auto simp: or_insert_def)

lemma fmdom_or_insert [simp]: "fmdom (or_insert k v m) = finsert k (fmdom m)"
  by (auto simp: or_insert_def)

lemma validate_environment_size_declarations [simp]:
  "validate_environment_size ops (env\<lparr>env_declarations := ds\<rparr>) = validate_environment_size ops env"
  by (simp add: validate_environment_size_def)

lemma validate_value_declarations [simp]:
  "validate_value ops (env\<lparr>env_declarations := ds\<rparr>) = validate_value ops env"
  by (intro ext) (simp add: validate_value_def)

lemma validate_replayed_entry_extends:
  assumes "validate_replayed_entry ops env (name, entry) = Ok ()"
    and "\<And>n d. fmlookup (env_declarations env) n = Some d \<Longrightarrow> fmlookup ds n = Some d"
  shows "validate_replayed_entry ops (env\<lparr>env_declarations := ds\<rparr>) (name, entry) = Ok ()"
  using assms by (auto simp: validate_replayed_entry_def declaration_of_def result_simps)

lemma validate_removed_keeps:
  assumes "validate_removed r (name, t) = Ok ()"
    and "\<And>d. fmlookup (env_declarations (environment r)) name = Some d \<Longrightarrow>
      fmlookup (env_declarations (environment r')) name = Some d"
    and "name |\<in>| fmdom (env_entries (environment r')) \<Longrightarrow> name |\<in>| fmdom (env_entries (environment r))"
  shows "validate_removed r' (name, t) = Ok ()"
  using assms by (auto simp: validate_removed_def declaration_of_def result_simps split: if_splits)

lemma validate_removed_not_live:
  "validate_removed r (name, t) = Ok () \<Longrightarrow> name |\<notin>| fmdom (env_entries (environment r))"
  by (auto simp: validate_removed_def result_simps)

lemma declared_extends_valid:
  assumes "validate_replayed ops env = Ok ()"
    and "case fmlookup (env_declarations env) (variable_name d) of
       Some existing \<Rightarrow> existing = d
     | None \<Rightarrow> fcard (fmdom (env_declarations env)) < limit_variables (env_limits env) \<and>
         validate_live_declaration d (env_limits env) = Ok ()"
  shows "validate_replayed ops (env\<lparr>env_declarations := or_insert (variable_name d) d (env_declarations env)\<rparr>) = Ok ()"
proof -
  let ?ds = "or_insert (variable_name d) d (env_declarations env)"
  have card: "fcard (fmdom ?ds) \<le> limit_variables (env_limits env)"
    using assms by (auto simp: validate_replayed_Ok fcard_finsert_if fmlookup_dom_iff split: option.splits)
  have "validate_replayed_declaration (env_limits env) (name, d') = Ok ()" if "fmlookup ?ds name = Some d'" for name d'
    using assms that
    by (auto simp: validate_replayed_Ok fmlookup_or_insert fmlookup_dom_iff validate_replayed_declaration_def
        split: if_splits option.splits)
  moreover have "validate_replayed_entry ops (env\<lparr>env_declarations := ?ds\<rparr>) (name, entry) = Ok ()"
    if "fmlookup (env_entries env) name = Some entry" for name entry
    using assms(1) that
    by (intro validate_replayed_entry_extends) (auto simp: validate_replayed_Ok fmlookup_or_insert fmdomI)
  ultimately show ?thesis using assms(1) card by (auto simp: validate_replayed_Ok)
qed

lemma check_declaration_hash_or_insert:
  assumes "declaration_hash ops d = Ok hash" "fmdom (declaration_hashes r) = fmdom ds"
    and "\<And>name d. fmlookup ds name = Some d \<Longrightarrow> check_declaration_hash ops r (name, d) = Ok ()"
    and "fmlookup (or_insert (variable_name d) d ds) name = Some d'"
  shows "check_declaration_hash ops (r\<lparr>environment := env,
     declaration_hashes := or_insert (variable_name d) hash (declaration_hashes r), observed_declarations := obs\<rparr>) (name, d') = Ok ()"
  using assms by (auto simp: check_declaration_hash_def fmlookup_or_insert result_simps split: if_splits)

lemma declared_consistent:
  assumes "consistent ops r" "prepare_event ops r n attempt = Ok (Declared e)"
  shows "consistent ops (apply_declared r e)"
  using assms(2)
proof (rule prepared_Declared)
  fix d hash
  assume e: "e = \<lparr>declared_binding = make_binding r n (variable_name d) None None None {||},
      declared_declaration = d, declared_hash = hash\<rparr>"
    and hash: "declaration_hash ops d = Ok hash"
    and new: "case fmlookup (env_declarations (environment r)) (variable_name d) of
       Some existing \<Rightarrow> existing = d \<and> variable_name d |\<notin>| observed_declarations r
     | None \<Rightarrow> fcard (fmdom (env_declarations (environment r))) < limit_variables (env_limits (environment r)) \<and>
         validate_live_declaration d (env_limits (environment r)) = Ok ()"
  let ?env = "environment r" and ?r = "apply_declared r e"
  have env: "validate_replayed (value_ops ops) (environment ?r) = Ok ()"
    using assms(1) new declared_extends_valid [of "value_ops ops" ?env d]
    by (auto simp: consistent_def apply_declared_def e Let_def split: option.splits)
  have hashes: "check_declaration_hash ops ?r (name, d') = Ok ()"
    if "fmlookup (env_declarations (environment ?r)) name = Some d'" for name d'
    using that assms(1) check_declaration_hash_or_insert [OF hash, of r "env_declarations ?env" name d']
    by (auto simp: consistent_def apply_declared_def e Let_def)
  have tombs: "validate_removed ?r (name, t) = Ok ()" if "fmlookup (removed ?r) name = Some t" for name t
  proof (rule validate_removed_keeps)
    show "validate_removed r (name, t) = Ok ()"
      using that assms(1) by (simp add: consistent_def apply_declared_def Let_def)
  qed (auto simp: apply_declared_def e Let_def fmlookup_or_insert fmdomI)
  show ?thesis
    using env hashes tombs assms(1) by (auto simp: consistent_def apply_declared_def e Let_def)
qed

section \<open>Writes\<close>

lemma assign_state:
  "assign ops env name writer expected v = (Ok entry, env') \<Longrightarrow>
   env' = env\<lparr>env_entries := fmupd name entry (env_entries env)\<rparr>"
  by (metis assign_Ok install_Ok(1))

lemma merge_state:
  "merge_branches ops env name writer expected branches = (Ok entry, env') \<Longrightarrow>
   env' = env\<lparr>env_entries := fmupd name entry (env_entries env)\<rparr>"
  by (metis merge_branches_Ok install_Ok(1))

lemma written_consistent:
  assumes "consistent ops r"
    and "environment r' = (environment r)\<lparr>env_entries := fmupd variable entry (env_entries (environment r))\<rparr>"
    and "validate_replayed (value_ops ops) (environment r') = Ok ()" "variable |\<notin>| fmdom (removed r)"
    and same: "run_id r' = run_id r" "declaration_hashes r' = declaration_hashes r"
      "observed_declarations r' = observed_declarations r" "removed r' = removed r"
      "validation_failures r' = validation_failures r"
    and seeds: "seeded_hashes r' = seeded_hashes r \<and> observed_hashes r' = observed_hashes r \<or>
      (\<exists>h. seeded_hashes r' = fmupd variable h (seeded_hashes r) \<and>
           observed_hashes r' = fmupd variable h (observed_hashes r))"
  shows "consistent ops r'"
proof -
  have tombs: "validate_removed r' (name, t) = Ok ()" if "fmlookup (removed r') name = Some t" for name t
  proof (rule validate_removed_keeps)
    show "validate_removed r (name, t) = Ok ()" using that assms(1) same by (simp add: consistent_def)
    have "name \<noteq> variable" using that assms(4) same(4) by (auto simp: fmdomI)
    then show "name |\<in>| fmdom (env_entries (environment r')) \<Longrightarrow> name |\<in>| fmdom (env_entries (environment r))"
      by (simp add: assms(2))
  qed (simp add: assms(2))
  have hashes: "check_declaration_hash ops r' = check_declaration_hash ops r"
    by (simp add: check_declaration_hash_def same)
  have observed: "fmlookup (observed_hashes r') name = Some h \<Longrightarrow> fmlookup (seeded_hashes r') name = Some h" for name h
    using assms(1) seeds by (auto simp: consistent_def split: if_splits)
  have seeded: "name |\<in>| fmdom (env_entries (environment r')) \<or> name |\<in>| fmdom (removed r')"
    if "fmlookup (seeded_hashes r') name = Some h" "name |\<notin>| fmdom (observed_hashes r')" for name h
  proof (cases "name = variable")
    case True
    then show ?thesis by (simp add: assms(2))
  next
    case False
    then have "fmlookup (seeded_hashes r) name = Some h" "name |\<notin>| fmdom (observed_hashes r)"
      using seeds that by auto
    then have "name |\<in>| fmdom (env_entries (environment r)) \<or> name |\<in>| fmdom (removed r)"
      using assms(1) unfolding consistent_def by blast
    then show ?thesis by (simp add: assms(2) same)
  qed
  show ?thesis
    using assms(1,3) tombs observed seeded by (auto simp: consistent_def same hashes assms(2))
qed

lemma refresh_Ok:
  "refresh_audit_state_hash ops r = Ok r' \<longleftrightarrow>
     (\<exists>hash. initial_assignment_audit_state_hash ops (seeded_hashes r) (observed_hashes r) = Ok hash \<and>
        r' = r\<lparr>audit_state_hash := Some hash\<rparr>)"
  by (auto simp: refresh_audit_state_hash_def result_simps)

lemma consistent_audit_hash [simp]: "consistent ops (r\<lparr>audit_state_hash := h\<rparr>) = consistent ops r"
  by (simp add: consistent_def check_declaration_hash_def validate_removed_def)

lemma audited_consistent:
  assumes "consistent ops r" "fmlookup (seeded_hashes r) variable = Some h"
  shows "consistent ops (r\<lparr>observed_hashes := fmupd variable h (observed_hashes r)\<rparr>)"
  using assms by (auto simp: consistent_def check_declaration_hash_def validate_removed_def)

lemma assigned_consistent:
  assumes "consistent ops r" "prepare_event ops r n attempt = Ok (Assigned e)" "apply_assigned ops r e = Ok r'"
  shows "consistent ops r'"
proof (cases "is_seed_audit r e")
  case True
  then show ?thesis
    using assms(1,3) by (auto simp: apply_assigned_def Let_def result_simps refresh_Ok intro!: audited_consistent)
next
  case False
  let ?variable = "binding_variable (assigned_binding e)"
  obtain entry env where assigned: "assign (value_ops ops) (environment r) ?variable (assigned_writer e)
      (binding_prior_version (assigned_binding e)) (assigned_value e) = (Ok entry, env)"
    using False assms(3) by (auto simp: apply_assigned_def Let_def split: prod.splits result.splits)
  have live: "?variable |\<notin>| fmdom (removed r)"
    using assms(2) by (rule prepared_Assigned) simp_all
  have "validate_replayed (value_ops ops) (environment r) = Ok ()" using assms(1) by (simp add: consistent_def)
  from assign_keeps_valid [OF this, of ?variable "assigned_writer e" "binding_prior_version (assigned_binding e)" "assigned_value e"]
  have valid: "validate_replayed (value_ops ops) env = Ok ()" by (simp add: assigned)
  have "\<exists>h. r' = r\<lparr>environment := env\<rparr> \<or>
      r' = r\<lparr>environment := env, seeded_hashes := fmupd ?variable (entry_value_hash entry) (seeded_hashes r),
        observed_hashes := fmupd ?variable (entry_value_hash entry) (observed_hashes r), audit_state_hash := h\<rparr>"
    using False assms(3) assigned
    by (auto simp: apply_assigned_def Let_def refresh_Ok split: if_splits)
  then show ?thesis
    using valid by (auto intro!: written_consistent [OF assms(1) _ _ live] simp: assign_state [OF assigned])
qed

definition event_coordinated :: "CanonicalVariableEventReducer \<Rightarrow> CanonicalVariableEvent \<Rightarrow> bool" where
  "event_coordinated r event \<longleftrightarrow>
     (case event of
        Merged e \<Rightarrow> coordinates (environment r) (binding_variable (merged_binding e)) (merged_writer e)
      | _ \<Rightarrow> True)"

lemma merged_consistent:
  assumes "consistent ops r" "prepare_event ops r n attempt = Ok (Merged e)" "apply_merged ops r e = Ok r'"
    and "event_coordinated r (Merged e)"
  shows "consistent ops r'"
proof -
  let ?variable = "binding_variable (merged_binding e)"
  obtain entry env where merged: "merge_branches (value_ops ops) (environment r) ?variable (merged_writer e)
      (binding_prior_version (merged_binding e)) (merged_branches e) = (Ok entry, env)"
    and r': "r' = r\<lparr>environment := env\<rparr>"
    using assms(3) by (auto simp: apply_merged_def split: prod.splits result.splits)
  have live: "?variable |\<notin>| fmdom (removed r)"
    using assms(2) by (rule prepared_Merged) simp_all
  have "validate_replayed (value_ops ops) (environment r) = Ok ()" using assms(1) by (simp add: consistent_def)
  from merge_keeps_valid [OF this, of ?variable "merged_writer e" "binding_prior_version (merged_binding e)" "merged_branches e"]
  have "validate_replayed (value_ops ops) env = Ok ()" using assms(4) by (simp add: merged event_coordinated_def)
  then show ?thesis
    by (auto intro!: written_consistent [OF assms(1) _ _ live] simp: merge_state [OF merged] r')
qed

lemma removed_consistent:
  assumes "consistent ops r" "prepare_event ops r n attempt = Ok (Removed e)" "apply_removed r e = Ok r'"
  shows "consistent ops r'"
  using assms(2)
proof (rule prepared_Removed)
  fix variable writer entry version d
  assume e: "e = \<lparr>removed_binding = make_binding r n variable (Some (entry_version entry)) (Some version)
       (Some (entry_value_hash entry)) (artifact_references_of (entry_value entry)), removed_writer = writer\<rparr>"
    and live: "variable |\<notin>| fmdom (removed r)"
    and d: "fmlookup (env_declarations (environment r)) variable = Some d"
      "variable_scope d \<in> {ScopeNode, ScopeBranch}" "authorize_writer d writer = Ok ()"
    and entry: "fmlookup (env_entries (environment r)) variable = Some entry"
    and scope: "validate_direct_write_scope_replayed d writer (entry_branch_id entry) = Ok (entry_branch_id entry)"
    and version: "checked_add_u64 (entry_version entry) 1 = Some version"
  define t where "t = \<lparr>removal_version = version, removed_value_hash = entry_value_hash entry, removal_writer = writer\<rparr>"
  have r': "r' = r\<lparr>environment := (environment r)\<lparr>env_entries := fmdrop variable (env_entries (environment r))\<rparr>,
      removed := fmupd variable t (removed r)\<rparr>"
    using assms(3) by (simp add: apply_removed_def e entry t_def Let_def)
  have "version \<noteq> 0" using checked_add_u64_Some [OF version] by auto
  then have new: "validate_removed r' (variable, t) = Ok ()"
    using d scope
    by (auto simp: validate_removed_def declaration_of_def r' t_def authorize_writer_def authorize_replayed_writer_def
        validate_direct_write_scope_replayed_def result_simps)
  have old: "validate_removed r' (name, s) = Ok ()" if "fmlookup (removed r) name = Some s" for name s
  proof (rule validate_removed_keeps)
    show "validate_removed r (name, s) = Ok ()" using that assms(1) by (simp add: consistent_def)
  qed (simp_all add: r')
  have tombs: "validate_removed r' (name, s) = Ok ()" if "fmlookup (removed r') name = Some s" for name s
    using that new old by (auto simp: r' split: if_splits)
  have hashes: "check_declaration_hash ops r' = check_declaration_hash ops r"
    by (simp add: check_declaration_hash_def r')
  have seeded: "name |\<in>| fmdom (env_entries (environment r')) \<or> name |\<in>| fmdom (removed r')"
    if "fmlookup (seeded_hashes r') name = Some h" "name |\<notin>| fmdom (observed_hashes r')" for name h
  proof -
    have "name |\<in>| fmdom (env_entries (environment r)) \<or> name |\<in>| fmdom (removed r)"
      using that assms(1) unfolding consistent_def r' by simp
    then show ?thesis by (auto simp: r')
  qed
  have "validate_replayed (value_ops ops) (environment r') = Ok ()"
    using assms(1) validate_replayed_drop by (auto simp: consistent_def r')
  with tombs seeded assms(1) hashes show "consistent ops r'" by (simp add: consistent_def r')
qed

lemma failed_consistent:
  assumes "consistent ops r" "prepare_event ops r n attempt = Ok (ValidationFailed failure)"
    and "length (validation_failures r) < MAX_CANONICAL_VARIABLE_FAILURES"
  shows "consistent ops (r\<lparr>validation_failures := validation_failures r @ [failure]\<rparr>)"
  using assms(1,3) prepared_ValidationFailed [OF assms(2)]
  by (simp add: consistent_def check_declaration_hash_def validate_removed_def)

lemma apply_event_consistent:
  assumes "consistent ops r" "apply_event ops r event = (res, r')" "event_coordinated r event"
  shows "consistent ops r'"
proof (cases res)
  case (Err e)
  then show ?thesis using assms apply_event_Err by blast
next
  case (Ok outcome)
  then obtain n attempt where prepared: "prepare_event ops r n attempt = Ok event"
    and verified: "apply_verified ops r event = Ok (outcome, r')"
    using assms(2) by (auto simp: apply_event_Ok)
  show ?thesis
  proof (cases event)
    case (Declared e)
    then show ?thesis using verified prepared declared_consistent [OF assms(1)] by (auto simp: apply_verified_def)
  next
    case (Assigned e)
    then show ?thesis
      using verified prepared assigned_consistent [OF assms(1)] by (auto simp: apply_verified_def result_simps)
  next
    case (Merged e)
    then show ?thesis
      using verified prepared merged_consistent [OF assms(1)] assms(3) by (auto simp: apply_verified_def result_simps)
  next
    case (Removed e)
    then show ?thesis
      using verified prepared removed_consistent [OF assms(1)] by (auto simp: apply_verified_def result_simps)
  next
    case (ValidationFailed failure)
    then show ?thesis
      using verified prepared failed_consistent [OF assms(1)] by (auto simp: apply_verified_def result_simps not_le)
  qed
qed

section \<open>Reachable states\<close>

inductive reachable_reducer :: "event_ops \<Rightarrow> CanonicalVariableEventReducer \<Rightarrow> bool" for ops where
  created: "reducer_new ops run limits = Ok r \<Longrightarrow> reachable_reducer ops r"
| initialized: "reducer_initialize ops run limits declarations initial_values = Ok r \<Longrightarrow> reachable_reducer ops r"
| applied: "reachable_reducer ops r \<Longrightarrow> event_coordinated r event \<Longrightarrow>
    apply_event ops r event = (res, r') \<Longrightarrow> reachable_reducer ops r'"

lemma reachable_consistent: "reachable_reducer ops r \<Longrightarrow> consistent ops r"
  by (induction rule: reachable_reducer.induct)
     (auto intro: reducer_new_consistent reducer_initialize_consistent apply_event_consistent)


section \<open>Prepared events apply\<close>








section \<open>Versions and tombstones\<close>

definition version_count :: "CanonicalVariableEventReducer \<Rightarrow> string \<Rightarrow> nat" where
  "version_count r x = (case current_version r x of None \<Rightarrow> 0 | Some version \<Rightarrow> unat version)"

definition untouched :: "CanonicalVariableEventReducer \<Rightarrow> CanonicalVariableEventReducer \<Rightarrow> string \<Rightarrow> bool" where
  "untouched r r' x \<longleftrightarrow>
     fmlookup (env_entries (environment r')) x = fmlookup (env_entries (environment r)) x \<and>
     fmlookup (removed r') x = fmlookup (removed r) x"

lemma untouched_version: "untouched r r' x \<Longrightarrow> version_count r' x = version_count r x"
  by (auto simp: untouched_def version_count_def current_version_def split: option.split)

text \<open>One write: the entry of one live variable, its version counted up.\<close>

definition counted_write :: "CanonicalVariableEventReducer \<Rightarrow> CanonicalVariableEventReducer \<Rightarrow> string \<Rightarrow> bool" where
  "counted_write r r' x \<longleftrightarrow>
     x |\<notin>| fmdom (removed r) \<and> version_count r' x = Suc (version_count r x) \<and> (\<forall>y. y \<noteq> x \<longrightarrow> untouched r r' y)"

lemma write_counted:
  assumes "x |\<notin>| fmdom (removed r)" "removed r' = removed r"
    and "environment r' = (environment r)\<lparr>env_entries := fmupd x entry (env_entries (environment r))\<rparr>"
    and "unat (entry_version entry) = (case fmlookup (env_entries (environment r)) x of
      None \<Rightarrow> 1 | Some prior \<Rightarrow> Suc (unat (entry_version prior)))"
  shows "counted_write r r' x"
proof -
  have "fmlookup (removed r) x = None" using assms(1) by (simp add: fmdom_notD)
  then show ?thesis
    using assms by (auto simp: counted_write_def untouched_def version_count_def current_version_def split: option.splits)
qed

lemma assign_version:
  assumes "assign ops env name writer expected v = (Ok entry, env')"
  shows "unat (entry_version entry) = (case fmlookup (env_entries env) name of
      None \<Rightarrow> 1 | Some prior \<Rightarrow> Suc (unat (entry_version prior)))"
  using assms by (rule assign_Ok) (auto dest!: install_Ok(6) dest: next_version_unat)

lemma merge_version:
  assumes "merge_branches ops env name writer expected branches = (Ok entry, env')"
  shows "unat (entry_version entry) = (case fmlookup (env_entries env) name of
      None \<Rightarrow> 1 | Some prior \<Rightarrow> Suc (unat (entry_version prior)))"
  using assms by (rule merge_branches_Ok) (auto dest!: install_Ok(6) dest: next_version_unat)

lemma apply_assigned_counts:
  assumes "consistent ops r" "prepare_event ops r n attempt = Ok (Assigned e)" "apply_assigned ops r e = Ok r'"
  shows "(\<forall>x. untouched r r' x) \<or> counted_write r r' (binding_variable (assigned_binding e))"
proof (cases "is_seed_audit r e")
  case True
  then show ?thesis using assms(3) by (auto simp: apply_assigned_def Let_def result_simps refresh_Ok untouched_def)
next
  case False
  let ?variable = "binding_variable (assigned_binding e)"
  obtain entry env where assigned: "assign (value_ops ops) (environment r) ?variable (assigned_writer e)
      (binding_prior_version (assigned_binding e)) (assigned_value e) = (Ok entry, env)"
    using False assms(3) by (auto simp: apply_assigned_def Let_def split: prod.splits result.splits)
  have "removed r' = removed r" "environment r' = env"
    using False assms(3) assigned by (auto simp: apply_assigned_def Let_def refresh_Ok split: if_splits)
  moreover have "?variable |\<notin>| fmdom (removed r)" using assms(2) by (rule prepared_Assigned) simp_all
  ultimately show ?thesis
    using assign_state [OF assigned] assign_version [OF assigned] by (blast intro: write_counted)
qed

lemma apply_merged_counts:
  assumes "prepare_event ops r n attempt = Ok (Merged e)" "apply_merged ops r e = Ok r'"
  shows "counted_write r r' (binding_variable (merged_binding e))"
proof -
  obtain entry env where merged: "merge_branches (value_ops ops) (environment r) (binding_variable (merged_binding e))
      (merged_writer e) (binding_prior_version (merged_binding e)) (merged_branches e) = (Ok entry, env)"
    and r': "r' = r\<lparr>environment := env\<rparr>"
    using assms(2) by (auto simp: apply_merged_def split: prod.splits result.splits)
  moreover have "binding_variable (merged_binding e) |\<notin>| fmdom (removed r)"
    using assms(1) by (rule prepared_Merged) simp_all
  ultimately show ?thesis
    using merge_state [OF merged] merge_version [OF merged] by (auto intro: write_counted)
qed

lemma apply_removed_counts:
  assumes "prepare_event ops r n attempt = Ok (Removed e)" "apply_removed r e = Ok r'"
  shows "counted_write r r' (binding_variable (removed_binding e))"
  using assms
  by (auto elim!: prepared_Removed simp: apply_removed_def Let_def counted_write_def untouched_def version_count_def
      current_version_def dest!: checked_add_u64_Some)

lemma apply_event_counts:
  assumes "consistent ops r" "apply_event ops r event = (Ok outcome, r')"
  shows "(\<forall>x. untouched r r' x) \<or> counted_write r r' (binding_variable (event_binding event))"
proof -
  obtain n attempt where prepared: "prepare_event ops r n attempt = Ok event"
    and verified: "apply_verified ops r event = Ok (outcome, r')"
    using assms(2) by (auto simp: apply_event_Ok)
  show ?thesis
    using prepared verified apply_assigned_counts [OF assms(1)] apply_merged_counts apply_removed_counts
    by (cases event) (auto simp: apply_verified_def apply_declared_def untouched_def Let_def result_simps)
qed

text \<open>
  C40. An event changes at most the variable that it names, and a change, a removal included,
  counts that variable's version up by exactly one; no event takes a version back or reuses one. A variable that
  has been removed keeps its tombstone, and never has a value again.
\<close>

theorem versions_count_changes:
  assumes "reachable_reducer ops r" "event_coordinated r event" "apply_event ops r event = (res, r')"
  shows "((\<forall>x. untouched r r' x) \<or> counted_write r r' (binding_variable (event_binding event))) \<and>
    (\<forall>x. version_count r x \<le> version_count r' x) \<and>
    (\<forall>x t. fmlookup (removed r) x = Some t \<longrightarrow>
       fmlookup (removed r') x = Some t \<and> fmlookup (env_entries (environment r')) x = None)"
proof -
  note consistent = reachable_consistent [OF assms(1)]
  have change: "(\<forall>x. untouched r r' x) \<or> counted_write r r' (binding_variable (event_binding event))"
  proof (cases res)
    case (Ok outcome)
    then show ?thesis using apply_event_counts [OF consistent] assms(3) by blast
  next
    case (Err e)
    then have "r' = r" using assms(3) by (intro apply_event_Err) simp
    then show ?thesis by (simp add: untouched_def)
  qed
  moreover have "version_count r x \<le> version_count r' x" for x
    using change untouched_version [of r r' x]
    by (cases "x = binding_variable (event_binding event)") (auto simp: counted_write_def)
  moreover have "fmlookup (removed r') x = Some t \<and> fmlookup (env_entries (environment r')) x = None"
    if tomb: "fmlookup (removed r) x = Some t" for x t
  proof -
    have "fmlookup (removed r') x = Some t"
      using change tomb fmdomI [OF tomb]
      by (cases "x = binding_variable (event_binding event)") (auto simp: counted_write_def untouched_def)
    moreover have "consistent ops r'" by (rule apply_event_consistent [OF consistent assms(3,2)])
    ultimately have "validate_removed r' (x, t) = Ok ()" by (simp add: consistent_def)
    then show ?thesis
      using \<open>fmlookup (removed r') x = Some t\<close> validate_removed_not_live by (auto simp: fmdom_notD)
  qed
  ultimately show ?thesis by blast
qed

end
