(* ===== verification/Variable_Reads.thy ===== *)
theory Variable_Reads
  imports Variable_Types Expr_Text
begin

text \<open>
  \<^verbatim>\<open>apps/runtime/logic/src/canonical_variables.rs\<close>, sixth part: JSON initial values, the JSON
  environments of transitions and of nodes, and the classification of a condition. A diagnostic
  text is the error that the source renders.
\<close>

section \<open>Initial values\<close>

fun string_value :: "'n json \<Rightarrow> (string \<Rightarrow> CanonicalVariableValue) \<Rightarrow> CanonicalVariableValue variables" where
  "string_value (JString s) constructor = Ok (constructor s)"
| "string_value _ _ = Err ValueTypeMismatch"

definition number_value ::
  "('n \<Rightarrow> u64 option) \<Rightarrow> 'n json \<Rightarrow> (u64 \<Rightarrow> CanonicalVariableValue) \<Rightarrow> CanonicalVariableValue variables" where
  "number_value as_integer v constructor =
     (case v of
        JNumber x \<Rightarrow> rbind (ok_or ValueTypeMismatch (as_integer x)) (\<lambda>a. Ok (constructor a))
      | _ \<Rightarrow> Err ValueTypeMismatch)"

definition approval_value :: "'n json \<Rightarrow> CanonicalVariableValue variables" where
  "approval_value v =
     (if v = JString ''approved'' then Ok (CApprovalResult Approved)
      else if v = JString ''denied'' then Ok (CApprovalResult Denied)
      else if v = JString ''cancelled'' then Ok (CApprovalResult ApprovalCancelled)
      else if v = JString ''expired'' then Ok (CApprovalResult ApprovalExpired)
      else Err ValueTypeMismatch)"

text \<open>\<^verbatim>\<open>collect\<close> into a \<^verbatim>\<open>BTreeMap\<close>: a later entry of one key replaces an earlier one.\<close>

definition collect_entries :: "(string \<times> CanonicalVariableValue) list \<Rightarrow> (string \<times> CanonicalVariableValue) list" where
  "collect_entries es = fold (\<lambda>e. insert_entry (fst e) (snd e)) es []"

fun canonical_value_from_json ::
  "'n json_ops \<Rightarrow> 'n json \<Rightarrow> VariableValueType \<Rightarrow> CanonicalVariableValue variables" where
  "canonical_value_from_json ops v VBoolean =
     (case v of JBool b \<Rightarrow> Ok (CBoolean b) | _ \<Rightarrow> Err ValueTypeMismatch)"
| "canonical_value_from_json ops v VInteger = number_value (as_i64 ops) v CInteger"
| "canonical_value_from_json ops v VDecimal =
     (case v of
        JString s \<Rightarrow> rbind (canonical_decimal s) (\<lambda>canonical. Ok (CDecimal canonical))
      | _ \<Rightarrow> Err ValueTypeMismatch)"
| "canonical_value_from_json ops v VString = string_value v CString"
| "canonical_value_from_json ops v (VEnum values) = string_value v CEnum"
| "canonical_value_from_json ops v (VList item_type max_items) =
     (case v of
        JArray items \<Rightarrow>
          rbind (try_map (\<lambda>item. canonical_value_from_json ops item item_type) items) (\<lambda>values. Ok (CList values))
      | _ \<Rightarrow> Err ValueTypeMismatch)"
| "canonical_value_from_json ops v (VMap entry_type max_entries) =
     (case v of
        JObject members \<Rightarrow>
          rbind (try_map (\<lambda>m. rbind (canonical_value_from_json ops (snd m) entry_type) (\<lambda>x. Ok (fst m, x))) members)
            (\<lambda>es. Ok (CMap (collect_entries es)))
      | _ \<Rightarrow> Err ValueTypeMismatch)"
| "canonical_value_from_json ops v VSessionId = string_value v CSessionId"
| "canonical_value_from_json ops v VChildId = string_value v CChildId"
| "canonical_value_from_json ops v VTaskId = string_value v CTaskId"
| "canonical_value_from_json ops v VArtifactReference = string_value v CArtifactReference"
| "canonical_value_from_json ops v VSecretReference = string_value v CSecretReference"
| "canonical_value_from_json ops v VToolResultReference = string_value v CToolResultReference"
| "canonical_value_from_json ops v VApprovalResult = approval_value v"
| "canonical_value_from_json ops v VNodeResultReference = string_value v CNodeResultReference"
| "canonical_value_from_json ops v VTimestamp = number_value (as_i64 ops) v CTimestampMillis"
| "canonical_value_from_json ops v VDuration = number_value (as_u64 ops) v CDurationMillis"

section \<open>Environments\<close>

definition transition_environment ::
  "'n number_ops \<Rightarrow> CanonicalVariableEnvironment \<Rightarrow> VariableReader \<Rightarrow> string fset \<Rightarrow> 'n json variables" where
  "transition_environment ops env reader required_variables =
     rbind (try_map (\<lambda>name. rbind (read_variable env name reader) (\<lambda>entry.
         Ok (name, expression_value ops (entry_value entry)))) (sorted_list_of_fset required_variables))
       (\<lambda>members. Ok (JObject members))"

definition add_node_input ::
  "'n number_ops \<Rightarrow> CanonicalVariableEnvironment \<Rightarrow> VariableReader \<Rightarrow> string fset \<Rightarrow>
   (string \<times> 'n json) list \<Rightarrow> string \<Rightarrow> (string \<times> 'n json) list variables" where
  "add_node_input ops env reader outputs members name =
     (case read_variable env name reader of
        Ok entry \<Rightarrow> Ok (members @ [(name, expression_value ops (entry_value entry))])
      | Err (MissingValue variable) \<Rightarrow>
          if name |\<in>| outputs then Ok members else Err (MissingValue variable)
      | Err e \<Rightarrow> Err e)"

definition node_input_environment ::
  "'n number_ops \<Rightarrow> CanonicalVariableEnvironment \<Rightarrow> VariableReader \<Rightarrow> string fset \<Rightarrow> string fset \<Rightarrow> 'n json variables" where
  "node_input_environment ops env reader inputs outputs =
     rbind (try_fold (add_node_input ops env reader outputs) (sorted_list_of_fset inputs) [])
       (\<lambda>members. Ok (JObject members))"

section \<open>Conditions\<close>

datatype diagnostic =
    DiagnosticVariable VariableEnvironmentError | DiagnosticEvaluation EvaluationError | DiagnosticParse ParseError

datatype ConditionEligibility =
    Eligible | Ineligible | MissingInput string | InvalidExpression diagnostic

fun collect_inputs ::
  "'n number_ops \<Rightarrow> CanonicalVariableEnvironment \<Rightarrow> VariableReader \<Rightarrow> string list \<Rightarrow>
   ((string \<times> 'n json) list, ConditionEligibility) result" where
  "collect_inputs ops env reader [] = Ok []"
| "collect_inputs ops env reader (name # names) =
     (case read_variable env name reader of
        Ok entry \<Rightarrow>
          rbind (collect_inputs ops env reader names)
            (\<lambda>members. Ok ((name, expression_value ops (entry_value entry)) # members))
      | Err (MissingValue _) \<Rightarrow> Err (MissingInput name)
      | Err e \<Rightarrow> Err (InvalidExpression (DiagnosticVariable e)))"

definition classify_compiled_condition ::
  "'n json_ops \<Rightarrow> 'n number_ops \<Rightarrow> CanonicalVariableEnvironment \<Rightarrow> 'n Expression \<Rightarrow> VariableReader \<Rightarrow>
   string fset \<Rightarrow> ConditionEligibility" where
  "classify_compiled_condition jops ops env expression reader required_variables =
     (case collect_inputs ops env reader (sorted_list_of_fset required_variables) of
        Err eligibility \<Rightarrow> eligibility
      | Ok members \<Rightarrow>
          (case evaluate_expression jops expression (JObject members) of
             Ok True \<Rightarrow> Eligible
           | Ok False \<Rightarrow> Ineligible
           | Err (MissingPath path) \<Rightarrow> MissingInput path
           | Err e \<Rightarrow> InvalidExpression (DiagnosticEvaluation e)))"

definition classify_condition ::
  "'n json_ops \<Rightarrow> 'n number_ops \<Rightarrow> CanonicalVariableEnvironment \<Rightarrow> string \<Rightarrow> VariableReader \<Rightarrow>
   string fset \<Rightarrow> ExpressionLimits \<Rightarrow> ConditionEligibility option" where
  "classify_condition jops ops env expression_source reader required_variables limits =
     map_option (\<lambda>parsed. case parsed of
         Err e \<Rightarrow> InvalidExpression (DiagnosticParse e)
       | Ok expression \<Rightarrow> classify_compiled_condition jops ops env expression reader required_variables)
       (parse jops expression_source limits)"

section \<open>Values and their JSON\<close>

lemma insert_entry_last:
  "(\<forall>e \<in> set acc. fst e < k) \<Longrightarrow> insert_entry k v acc = acc @ [(k, v)]"
  by (induction k v acc rule: insert_entry.induct) auto

lemma collect_sorted:
  "sorted_wrt (<) (map fst (acc @ es)) \<Longrightarrow> fold (\<lambda>e. insert_entry (fst e) (snd e)) es acc = acc @ es"
proof (induction es arbitrary: acc)
  case (Cons e es)
  then have "insert_entry (fst e) (snd e) acc = acc @ [e]"
    by (subst insert_entry_last) (auto simp: sorted_wrt_append)
  then show ?case using Cons.IH [of "acc @ [e]"] Cons.prems by simp
qed simp

lemma collect_entries_sorted: "sorted_wrt (<) (map fst es) \<Longrightarrow> collect_entries es = es"
  using collect_sorted [of "[]" es] by (simp add: collect_entries_def)

definition number_ops_agree :: "'n json_ops \<Rightarrow> 'n number_ops \<Rightarrow> bool" where
  "number_ops_agree jops ops \<longleftrightarrow>
     (\<forall>a. as_i64 jops (number_of_i64 ops a) = Some a) \<and> (\<forall>a. as_u64 jops (number_of_u64 ops a) = Some a)"

lemma round_trip_scalar:
  assumes "number_ops_agree jops ops" "is_scalar v" "validate_scalar v t writer limits = Ok ()"
  shows "canonical_value_from_json jops (expression_value ops v) t = Ok v"
proof (cases v)
  case (CApprovalResult a)
  then show ?thesis using assms(3) by (cases a) (auto simp: validate_scalar_def approval_value_def result_simps)
next
  case (CEnum tag)
  then show ?thesis using assms(3) by (cases t) (auto simp: validate_scalar_def)
qed (use assms in \<open>auto simp: validate_scalar_def number_value_def number_ops_agree_def result_simps is_scalar_def\<close>)

text \<open>
  C37. A value that conforms to its declared type survives the way through JSON: the JSON that
  expressions see, read back against the declared type, gives the value, with lists in
  order, maps entry by entry and numbers at their width.
\<close>

theorem value_json_round_trip:
  assumes "number_ops_agree jops ops" "conforms classification writer limits v t" "canonical_maps v"
  shows "canonical_value_from_json jops (expression_value ops v) t = Ok v"
  using assms(2,3)
proof (induction v arbitrary: t rule: value_induct)
  case (scalar v)
  then show ?case using round_trip_scalar [OF assms(1)] by (auto simp: conforms_scalar_iff)
next
  case (list xs)
  then obtain item_type max_items where t: "t = VList item_type max_items"
      "\<forall>x \<in> set xs. conforms classification writer limits x item_type"
    by (auto simp: conforms_list_iff)
  have "try_map (\<lambda>j. canonical_value_from_json jops j item_type) (map (expression_value ops) ys) = Ok ys"
    if "set ys \<subseteq> set xs" for ys
    using that
  proof (induction ys)
    case (Cons y ys)
    then have "canonical_value_from_json jops (expression_value ops y) item_type = Ok y"
      using list.IH [of y item_type] t(2) list.prems(2) by (simp add: list_all_iff)
    then show ?case using Cons by simp
  qed simp
  then show ?case by (simp add: t(1))
next
  case (map es)
  then obtain entry_type max_entries where t: "t = VMap entry_type max_entries"
      "\<forall>e \<in> set es. conforms classification writer limits (snd e) entry_type"
    by (auto simp: conforms_map_iff)
  have "try_map (\<lambda>m. rbind (canonical_value_from_json jops (snd m) entry_type) (\<lambda>x. Ok (fst m, x)))
      (map (\<lambda>e. (fst e, expression_value ops (snd e))) fs) = Ok fs" if "set fs \<subseteq> set es" for fs
    using that
  proof (induction fs)
    case (Cons f fs)
    then have "canonical_value_from_json jops (expression_value ops (snd f)) entry_type = Ok (snd f)"
      using map.IH [of f entry_type] t(2) map.prems(2) by (simp add: list_all_iff)
    then show ?case using Cons by simp
  qed simp
  then show ?case using map.prems(2) by (simp add: t(1) collect_entries_sorted)
qed

end
