(* ===== verification/Variable_Witness.thy ===== *)
theory Variable_Witness
  imports Variable_Invariant Variable_Reads "HOL-Library.Code_Target_Nat"
begin

text \<open>
  A concrete run of the reducer: two declarations, one initial value, and then a branch-scoped
  write, a merge and a removal.
\<close>

section \<open>A run\<close>

definition demo_value_ops :: variable_ops where
  "demo_value_ops = \<lparr>value_to_vec = \<lambda>v. Some (case v of CString s \<Rightarrow> str_bytes s | CList xs \<Rightarrow> [of_nat (length xs)] | _ \<Rightarrow> [7]),
     variable_blake3 = \<lambda>bs. bs\<rparr>"

definition demo_ops :: event_ops where
  "demo_ops = \<lparr>value_ops = demo_value_ops, declaration_to_vec = \<lambda>d. Some (str_bytes (variable_name d)),
     attempt_to_vec = \<lambda>a. Some (str_bytes (attempt_variable a)),
     audit_to_vec = \<lambda>seeded observed. Some [of_nat (fcard (fmdom seeded)), of_nat (fcard (fmdom observed))]\<rparr>"

definition demo_limits :: VariableEnvironmentLimits where
  "demo_limits = \<lparr>limit_variables = 4, limit_value_depth = 4, limit_value_items = 8, limit_map_key_bytes = 8,
     limit_reference_bytes = 16, limit_decimal_bytes = 16, limit_environment_bytes = 100\<rparr>"

definition notes_declaration :: VariableDeclaration where
  "notes_declaration = \<lparr>variable_name = ''notes'', value_type = VList VString 4, variable_scope = ScopeRun,
     producer = ''work'', merge_contributors = {||}, consumers = {|''join''|}, mutability = Mutable,
     merge_policy = Some Append, max_size_bytes = 50, security_classification = Public\<rparr>"

definition draft_declaration :: VariableDeclaration where
  "draft_declaration = \<lparr>variable_name = ''draft'', value_type = VString, variable_scope = ScopeBranch,
     producer = ''work'', merge_contributors = {||}, consumers = {|''work''|}, mutability = Mutable,
     merge_policy = None, max_size_bytes = 50, security_classification = Public\<rparr>"

definition demo_start :: CanonicalVariableEventReducer where
  "demo_start = (case reducer_new demo_ops ''run'' demo_limits of Ok r \<Rightarrow> r | Err _ \<Rightarrow> undefined)"

definition demo_branch :: BranchWriteContext where
  "demo_branch = \<lparr>write_branch_id = ''a'', write_stable_order = 0, serialized_shared_write = False\<rparr>"

definition demo_prepare :: "string \<Rightarrow> VariableValidationAttempt \<Rightarrow> CanonicalVariableEventReducer \<Rightarrow> CanonicalVariableEvent" where
  "demo_prepare n attempt r =
     (case prepare_event demo_ops r n attempt of Ok event \<Rightarrow> event | Err _ \<Rightarrow> undefined)"

definition demo_step :: "string \<Rightarrow> VariableValidationAttempt \<Rightarrow> CanonicalVariableEventReducer \<Rightarrow> CanonicalVariableEventReducer" where
  "demo_step n attempt r = snd (apply_event demo_ops r (demo_prepare n attempt r))"

definition demo_notes :: "BranchVariableValue list" where
  "demo_notes = [\<lparr>contribution_branch_id = ''b'', contribution_order = 1, contribution_value = CList [CString ''y'']\<rparr>,
     \<lparr>contribution_branch_id = ''a'', contribution_order = 0, contribution_value = CList [CString ''x'']\<rparr>]"

definition demo_written :: CanonicalVariableEventReducer where
  "demo_written = demo_step ''work'' (AttemptAssign ''draft'' (WriterNode ''work'' (Some demo_branch)) None (CString ''text''))
     (demo_step RUNTIME_PRODUCER (AttemptDeclare draft_declaration)
       (demo_step RUNTIME_PRODUCER (AttemptDeclare notes_declaration) demo_start))"

definition demo_merged :: CanonicalVariableEventReducer where
  "demo_merged = demo_step ''join'' (AttemptMerge ''notes'' (WriterNode ''join'' None) None demo_notes) demo_written"

definition demo_removed :: CanonicalVariableEventReducer where
  "demo_removed = demo_step ''work'' (AttemptRemove ''draft'' (WriterNode ''work'' (Some demo_branch)) 1) demo_merged"

lemma demo_step_reachable:
  "reachable_reducer demo_ops r \<Longrightarrow> event_coordinated r (demo_prepare n attempt r) \<Longrightarrow>
   reachable_reducer demo_ops (demo_step n attempt r)"
  unfolding demo_step_def by (rule reachable_reducer.applied) (auto intro: prod.collapse [symmetric])

lemma demo_start_reachable: "reachable_reducer demo_ops demo_start"
proof -
  have "is_ok (reducer_new demo_ops ''run'' demo_limits)" by code_simp
  then have "reducer_new demo_ops ''run'' demo_limits = Ok demo_start"
    by (auto simp: demo_start_def is_ok_iff)
  then show ?thesis by (rule reachable_reducer.created)
qed

lemma demo_written_reachable: "reachable_reducer demo_ops demo_written"
  unfolding demo_written_def
  by (intro demo_step_reachable demo_start_reachable; code_simp)

lemma demo_merged_reachable: "reachable_reducer demo_ops demo_merged"
  unfolding demo_merged_def by (intro demo_step_reachable demo_written_reachable) code_simp


definition demo_removal :: CanonicalVariableEvent where
  "demo_removal = demo_prepare ''work'' (AttemptRemove ''draft'' (WriterNode ''work'' (Some demo_branch)) 1) demo_merged"




theorem versions_count_changes_witness:
  "version_count demo_merged ''draft'' = 1 \<and> version_count demo_removed ''draft'' = 2 \<and>
   version_count demo_merged ''notes'' \<le> version_count demo_removed ''notes''"
proof -
  have step: "apply_event demo_ops demo_merged demo_removal = (fst (apply_event demo_ops demo_merged demo_removal), demo_removed)"
    by (simp add: demo_removed_def demo_step_def demo_removal_def)
  have coordinated: "event_coordinated demo_merged demo_removal" by code_simp
  have "version_count demo_merged ''draft'' = 1" "version_count demo_removed ''draft'' = 2" by code_simp+
  then show ?thesis using versions_count_changes [OF demo_merged_reachable coordinated step] by blast
qed

section \<open>The environment\<close>

definition demo_environment :: CanonicalVariableEnvironment where
  "demo_environment = snd (assign demo_value_ops
     (case environment_new [notes_declaration, draft_declaration] demo_limits of Ok env \<Rightarrow> env | Err _ \<Rightarrow> undefined)
     ''draft'' (WriterNode ''work'' (Some demo_branch)) None (CString ''text''))"

lemma demo_environment_reachable: "reachable_env demo_value_ops demo_environment"
proof -
  have "is_ok (environment_new [notes_declaration, draft_declaration] demo_limits)" by code_simp
  then obtain env where env: "environment_new [notes_declaration, draft_declaration] demo_limits = Ok env"
    by (auto simp: is_ok_iff)
  show ?thesis
    unfolding demo_environment_def env result.case
    by (rule reachable_env.assigned) (rule reachable_env.created [OF env])
qed

theorem merge_branches_order_witness:
  "merge_branches demo_value_ops demo_environment ''notes'' (WriterNode ''join'' None) None demo_notes =
   merge_branches demo_value_ops demo_environment ''notes'' (WriterNode ''join'' None) None (rev demo_notes) \<and>
   (case fst (merge_branches demo_value_ops demo_environment ''notes'' (WriterNode ''join'' None) None demo_notes) of
      Ok entry \<Rightarrow> entry_value entry = CList [CString ''x'', CString ''y''] | Err _ \<Rightarrow> False)"
proof
  show "merge_branches demo_value_ops demo_environment ''notes'' (WriterNode ''join'' None) None demo_notes =
   merge_branches demo_value_ops demo_environment ''notes'' (WriterNode ''join'' None) None (rev demo_notes)"
    by (rule merge_branches_order) simp
qed code_simp

text \<open>
  The limit of the replay invariant: a merge does not check its writer against the declaration, so
  a merge by the runtime of a variable that a node produces is accepted, and the environment it
  leaves is one that replay rejects. \<open>coordinates\<close> excludes it.
\<close>

lemma runtime_merge_not_replayable:
  "case merge_branches demo_value_ops demo_environment ''notes'' WriterRuntime None demo_notes of
     (Ok _, env) \<Rightarrow> validate_replayed demo_value_ops env = Err (UnauthorizedWriter ''notes'' ''runtime'')
   | (Err _, _) \<Rightarrow> False"
  by code_simp


definition demo_reader :: VariableReader where
  "demo_reader = \<lparr>reader_node_id = ''work'', reader_branch_id = Some ''a''\<rparr>"

theorem read_confined_witness:
  "\<exists>entry d. read_variable demo_environment ''draft'' demo_reader = Ok entry \<and>
    fmlookup (env_declarations demo_environment) ''draft'' = Some d \<and> ''work'' |\<in>| consumers d"
proof -
  have "is_ok (read_variable demo_environment ''draft'' demo_reader)" by code_simp
  then obtain entry where entry: "read_variable demo_environment ''draft'' demo_reader = Ok entry"
    by (auto simp: is_ok_iff)
  from read_confined [OF demo_environment_reachable this] obtain d where
    "fmlookup (env_declarations demo_environment) ''draft'' = Some d" "reader_node_id demo_reader |\<in>| consumers d"
    by blast
  then show ?thesis using entry by (auto simp: demo_reader_def)
qed

section \<open>JSON\<close>

definition word_json_ops :: "u64 json_ops" where
  "word_json_ops = \<lparr>decode_string = Some, decode_number = \<lambda>_. None, as_i64 = Some, as_u64 = Some, as_f64 = Some\<rparr>"

definition word_number_ops :: "u64 number_ops" where
  "word_number_ops = \<lparr>number_of_i64 = \<lambda>a. a, number_of_u64 = \<lambda>a. a\<rparr>"

definition demo_value :: CanonicalVariableValue where
  "demo_value = CMap [(''k'', CList [CInteger 3, CInteger 4])]"

theorem value_json_round_trip_witness:
  "canonical_value_from_json word_json_ops (expression_value word_number_ops demo_value) (VMap (VList VInteger 4) 4) =
   Ok demo_value"
proof (rule value_json_round_trip)
  show "number_ops_agree word_json_ops word_number_ops"
    by (simp add: number_ops_agree_def word_json_ops_def word_number_ops_def)
  have "validate_map_key ''k'' demo_limits = Ok ()" by code_simp
  then show "conforms Public WriterRuntime demo_limits demo_value (VMap (VList VInteger 4) 4)"
    by (simp add: demo_value_def conforms_map_iff conforms_list_iff conforms_scalar_iff is_scalar_def validate_scalar_def)
  show "canonical_maps demo_value"
    by (simp add: demo_value_def is_scalar_def)
qed

end
