(* ===== verification/Spec2Isabelle.thy ===== *)
theory Spec2Isabelle
  imports Continuation Event_Model Execution Observer Expr_Text Expr_Eval Framing Authorization Graph_Safety Graph_Witness Interception Parallel_Witness Variable_Witness
begin

text \<open>
  AgentMod: verification development of the deterministic core of an event-driven agent
  runtime.
\<close>

end
